theory Spec2Isabelle
  imports Complex_Main "HOL-Library.Log_Nat"
begin

section \<open>Data model (types.ts)\<close>

text \<open>
  JavaScript numbers that carry counts are natural numbers here; numbers that carry
  scores, confidences and weights are rationals (every finite double is one), so every
  comparison is the comparison the source makes. A decimal literal that is only compared
  (\<open>0.95\<close>, \<open>0.7\<close>) denotes itself; where the source calculates, in the trust
  score, the rounding of each operation is written out. The clock and the random
  generator are parameters of the operations.
\<close>

datatype WorkflowGoal = AUDIT | DOCUMENT | BUILD_FRONTEND

datatype TrustLevel = HIGH | MEDIUM | LOW

datatype AnalysisMode = FULL | INCREMENTAL | REBASE

datatype ChunkStatus = ANALYZED | SKIPPED | PENDING

record ChunkEntry =
  files :: "string list"
  chunk_status :: ChunkStatus
  fingerprint :: string

type_synonym ChunkManifest = "(string \<times> ChunkEntry) list"

record TrustComponents =
  coverage :: rat
  freshness :: rat
  confidence :: rat

record TrustScore =
  overall :: rat
  level :: TrustLevel
  components :: TrustComponents

record Snapshot =
  snapshot_id :: string
  project_path :: string
  git_commit :: string
  git_branch :: string
  workflow_id :: string
  workflow_goal :: WorkflowGoal
  analysis_mode :: AnalysisMode
  baseline_snapshot_id :: "string option"
  chunk_manifest :: ChunkManifest
  findings :: "string list"
  trust_score :: TrustScore
  duration_seconds :: nat
  created_at :: string
  provenance_chain :: "string list"

datatype RelocationStatus = PRESERVED | RELOCATED | STALE | ORPHANED

datatype RelocationMethod =
  EXACT_MATCH | LINE_DRIFT | SEMANTIC_SAME_FILE | SEMANTIC_OTHER_FILE
  | HASH_GLOBAL_SEARCH | FUZZY_CONTEXT | FILE_DELETED | CONTENT_CHANGED

datatype RelocationStrategy = EXACT | DRIFT | SEMANTIC | HASH_GLOBAL | FUZZY

datatype AttemptResult = NO_MATCH | MATCH | NO_DELTA_MANIFEST | LOW_CONFIDENCE

record StrategyAttempt =
  strategy :: RelocationStrategy
  result :: AttemptResult
  attempt_confidence :: rat

record FindingLocation =
  file_path :: string
  line_start :: nat
  line_end :: nat

record RelocationResult =
  status :: RelocationStatus
  new_location :: "FindingLocation option"
  relocation_method :: RelocationMethod
  relocation_confidence :: rat
  drift :: "int option"
  strategies_tried :: "StrategyAttempt list"

datatype ConflictStrategy = PREFER_NEW | PREFER_BASELINE | KEEP_BOTH

text \<open>
  \<open>relocation_results\<close> is a JavaScript object used as a map: its entries are listed
  in the order \<open>Object.keys\<close> and \<open>Object.values\<close> enumerate them, and an object has
  each key once (\<open>distinct (map fst rr)\<close>).
\<close>

record SnapshotMergeParams =
  smp_baseline_snapshot_id :: string
  smp_delta_envelope_ids :: "string list"
  smp_relocation_results :: "(string \<times> RelocationResult) list"
  smp_target_commit :: string
  smp_project_path :: string
  smp_conflict_strategy :: "ConflictStrategy option"
  smp_workflow_id :: string
  smp_workflow_goal :: WorkflowGoal

record MergeResult =
  mr_snapshot_id :: string
  findings_preserved :: nat
  findings_relocated :: nat
  findings_new :: nat
  findings_stale :: nat
  findings_orphaned :: nat
  conflicts_resolved :: nat
  mr_trust_score :: TrustScore

record SnapshotCreateParams =
  scp_project_path :: string
  scp_git_commit :: string
  scp_git_branch :: string
  scp_workflow_id :: string
  scp_workflow_goal :: WorkflowGoal
  scp_analysis_mode :: AnalysisMode
  scp_baseline_snapshot_id :: "string option"
  scp_chunk_manifest :: ChunkManifest
  scp_findings :: "string list"
  scp_trust_score :: TrustScore
  scp_duration_seconds :: "nat option"

section \<open>Trust score (envelope-tools.ts, computeMixedTrustScore)\<close>

text \<open>
  The arithmetic of the trust score is arithmetic on doubles: every operation is the
  exact operation followed by the rounding to the nearest double, and a decimal literal
  denotes its rounding. The rounding is a parameter \<open>fl\<close> of the model: \<open>fl = binary64\<close>
  is the arithmetic of the code, \<open>fl = (\<lambda>x. x)\<close> is exact arithmetic.

  \<open>binary64\<close> is the rounding of IEEE 754 double precision: to the nearest number with a
  significand of 53 bits, a tie going to the even significand. \<open>exponent_of x\<close> is the
  exponent \<open>e\<close> with \<open>2 powi e \<le> x < 2 powi (e + 1)\<close> of a positive \<open>x\<close>. The exponent
  range is not modelled: the counts are array lengths, below \<open>2 ^ 32\<close>, so they and
  their sums are exact, and every other value of the computation is 0 or lies between
  \<open>2 powi (- 40)\<close> and \<open>2 ^ 7\<close>.
\<close>

definition exponent_of :: "rat \<Rightarrow> int" where
  "exponent_of x =
     (case quotient_of x of (p, q) \<Rightarrow>
        let e = bitlen p - bitlen q in if 2 powi e \<le> x then e else e - 1)"

definition round_half_even :: "rat \<Rightarrow> int" where
  "round_half_even y =
     (let f = \<lfloor>y\<rfloor>; r = y - rat_of_int f in
      if r < 1 / 2 then f else if 1 / 2 < r then f + 1 else if even f then f else f + 1)"

definition binary64 :: "rat \<Rightarrow> rat" where
  "binary64 x =
     (if x = 0 then 0
      else let ulp = 2 powi (exponent_of \<bar>x\<bar> - 52)
           in rat_of_int (round_half_even (x / ulp)) * ulp)"

text \<open>\<open>Math.round\<close>: the nearest integer, a half rounded towards plus infinity.\<close>

definition Math_round :: "rat \<Rightarrow> int" where
  "Math_round x = \<lfloor>x + 1 / 2\<rfloor>"

definition trustLevel :: "rat \<Rightarrow> TrustLevel" where
  "trustLevel ov = (if ov \<ge> 8 then HIGH else if ov \<ge> 5 then MEDIUM else LOW)"

definition computeMixedTrustScore ::
  "(rat \<Rightarrow> rat) \<Rightarrow> nat \<Rightarrow> nat \<Rightarrow> nat \<Rightarrow> nat \<Rightarrow> nat \<Rightarrow> TrustScore" where
  "computeMixedTrustScore fl preserved relocated stale orphaned newFindings =
     (let total = preserved + relocated + stale + orphaned + newFindings in
      if total = 0
      then \<lparr>overall = 10, level = HIGH,
            components = \<lparr>coverage = 1, freshness = 1, confidence = 1\<rparr>\<rparr>
      else
        let cov = fl (rat_of_nat (preserved + relocated + newFindings) / rat_of_nat total);
            fresh = (if newFindings > 0 then fl (9 / 10) else fl (7 / 10));
            conf = fl (1 - fl (rat_of_nat (stale + orphaned) / rat_of_nat total));
            ov = fl (rat_of_int (Math_round
                   (fl (fl (fl (fl (fl (cov * fl (4 / 10)) + fl (fresh * fl (3 / 10)))
                                + fl (conf * fl (3 / 10))) * 10) * 10)))
                 / 10)
        in \<lparr>overall = ov, level = trustLevel ov,
             components = \<lparr>coverage = cov, freshness = fresh, confidence = conf\<rparr>\<rparr>)"


section \<open>Graph and branch records (types.ts)\<close>

datatype GraphNodeType = CODE | FINDING | SEMANTIC_NODE | CHUNK

datatype GraphEdgeType =
  IMPORTS | EVIDENCES | BELONGS_TO | SIMILAR_TO | CONTAINS | CALLS | EXTENDS | IMPLEMENTS

text \<open>The \<open>properties\<close> of a node are kept as their JSON text.\<close>

record GraphNode =
  node_id :: string
  node_type :: GraphNodeType
  properties :: string

record GraphEdge =
  source :: string
  target :: string
  edge_type :: GraphEdgeType
  weight :: "rat option"
  symbols :: "string list option"
  edge_confidence :: "rat option"
  primary :: "bool option"

record AnalysisBranch =
  branch_id :: string
  branch_git_branch :: string
  base_git_branch :: string
  fork_point_commit :: string
  snapshots :: "string list"
  branch_created_at :: string
  updated_at :: string

section \<open>The knowledge store and the services of a call\<close>

text \<open>
  What the tools write: the payload of a record, by \<open>memoryType\<close> (and \<open>recordType\<close>
  for the graph). Every payload also carries \<open>version: 2\<close> and its \<open>vector_id\<close>, which
  is the key it is stored under.
\<close>

record SnapshotPayload =
  sp_snapshot :: Snapshot
  sp_text :: string

record NodePayload =
  np_node :: GraphNode
  np_project_path :: string
  np_commit :: string

record EdgePayload =
  ep_edge :: GraphEdge
  ep_edge_id :: string
  ep_project_path :: string
  ep_commit :: string

record BranchPayload =
  bp_branch :: AnalysisBranch
  bp_project_path :: string
  bp_text :: string

record EnvelopePayload =
  env_envelope_id :: string
  env_project_path :: string

datatype payload =
  SnapshotP SnapshotPayload
  | NodeP NodePayload
  | EdgeP EdgePayload
  | BranchP BranchPayload
  | EnvelopeP EnvelopePayload

datatype store_key = NumKey nat | StrKey string

type_synonym store = "(store_key \<times> payload) list"

text \<open>
  Modelled from the spec: the similarity index is not part of these sources. The
  specification gives it as key-value storage with \<open>insert(vectors, ids, payloads)\<close> and
  \<open>delete(id)\<close>: a record is kept under the id it was inserted with, a second insert
  under the same id replaces it, and delete removes the record of that id. The vectors
  are opaque and left out.
\<close>

fun store_insert :: "store_key \<Rightarrow> payload \<Rightarrow> store \<Rightarrow> store" where
  "store_insert k v [] = [(k, v)]"
| "store_insert k v ((k', v') # rest) =
     (if k = k' then (k, v) # rest else (k', v') # store_insert k v rest)"

definition store_delete :: "store_key \<Rightarrow> store \<Rightarrow> store" where
  "store_delete k st = filter (\<lambda>(k', v). k' \<noteq> k) st"

record search_hit =
  hit_payload :: payload
  score :: "rat option"

text \<open>
  The outcome of \<open>getStore('knowledge')\<close> with its fallback \<open>getStore()\<close>: the fallback
  throws, or a falsy value comes back, or a store.
\<close>

datatype getStore_outcome = GetStoreThrows string | StoreMissing | StoreFound

text \<open>
  The services a call receives in its context. \<open>vectorStoreManager = None\<close> and
  \<open>embeddingManager = None\<close> are the absent services; \<open>embeddingManager = Some b\<close> says
  whether \<open>getEmbedder('default')\<close> returns an embedder (it is taken not to throw).
  \<open>embed\<close>, \<open>insert\<close> and \<open>delete\<close> may throw (\<open>Some message\<close>). Modelled from the spec: \<open>search(embed(text), k)\<close> returns a ranked
  list of hits; the ranking is the index's own, so the hits of a query are a parameter.
\<close>

record services =
  vectorStoreManager :: "getStore_outcome option"
  embeddingManager :: "bool option"
  embed_throws :: "string \<Rightarrow> string option"
  insert_throws :: "store_key \<Rightarrow> string option"
  delete_throws :: "store_key \<Rightarrow> string option"
  search_hits :: "string \<Rightarrow> nat \<Rightarrow> string + search_hit list"

text \<open>
  The readings of the clock and of \<open>Math.random\<close> during one call: the 14 digits of
  the date in \<open>generateSnapshotId\<close>, the ISO timestamp, the elapsed whole seconds, and
  for the k-th call of \<open>generateNumericVectorId\<close> the pair of \<open>Date.now()\<close> and the random
  suffix below 1000.
\<close>

record clock =
  date_digits :: string
  iso_timestamp :: string
  elapsed_seconds :: nat
  id_reading :: "nat \<Rightarrow> nat \<times> nat"
  random_base36 :: string

definition generateNumericVectorId :: "clock \<Rightarrow> nat \<Rightarrow> nat \<Rightarrow> nat" where
  "generateNumericVectorId clk call index =
     (case id_reading clk call of (timestamp, randomSuffix) \<Rightarrow>
        timestamp * 1000 + randomSuffix + index)"

section \<open>Snapshots (envelope-tools.ts)\<close>

definition generateSnapshotId :: "clock \<Rightarrow> string \<Rightarrow> string" where
  "generateSnapshotId clk commit = ''snap-'' @ date_digits clk @ ''-'' @ take 7 commit"

fun mode_name :: "AnalysisMode \<Rightarrow> string" where
  "mode_name FULL = ''FULL''"
| "mode_name INCREMENTAL = ''INCREMENTAL''"
| "mode_name REBASE = ''REBASE''"

fun goal_name :: "WorkflowGoal \<Rightarrow> string" where
  "goal_name AUDIT = ''AUDIT''"
| "goal_name DOCUMENT = ''DOCUMENT''"
| "goal_name BUILD_FRONTEND = ''BUILD_FRONTEND''"

fun join_space :: "string list \<Rightarrow> string" where
  "join_space [] = []"
| "join_space [x] = x"
| "join_space (x # y # ys) = x @ '' '' @ join_space (y # ys)"

definition buildSnapshotSearchText :: "Snapshot \<Rightarrow> string" where
  "buildSnapshotSearchText snapshot = join_space
     ((if project_path snapshot \<noteq> [] then [''project:'' @ project_path snapshot] else []) @
      (if git_branch snapshot \<noteq> [] then [''branch:'' @ git_branch snapshot] else []) @
      [''goal:'' @ goal_name (workflow_goal snapshot)] @
      [''mode:'' @ mode_name (analysis_mode snapshot)] @
      (if git_commit snapshot \<noteq> [] then [''commit:'' @ take 12 (git_commit snapshot)] else []))"

text \<open>The counting loop of the merge over \<open>Object.values(relocationResults)\<close>.\<close>

fun countStatuses ::
  "RelocationResult list \<Rightarrow> nat \<times> nat \<times> nat \<times> nat \<Rightarrow> nat \<times> nat \<times> nat \<times> nat" where
  "countStatuses [] c = c"
| "countStatuses (r # rs) (preserved, relocated, stale, orphaned) =
     (case status r of
        PRESERVED \<Rightarrow> countStatuses rs (preserved + 1, relocated, stale, orphaned)
      | RELOCATED \<Rightarrow> countStatuses rs (preserved, relocated + 1, stale, orphaned)
      | STALE \<Rightarrow> countStatuses rs (preserved, relocated, stale + 1, orphaned)
      | ORPHANED \<Rightarrow> countStatuses rs (preserved, relocated, stale, orphaned + 1))"

text \<open>
  \<open>allFindings\<close>: the keys whose looked-up result is PRESERVED or RELOCATED, then the
  delta envelope ids.
\<close>

definition allFindings :: "(string \<times> RelocationResult) list \<Rightarrow> string list \<Rightarrow> string list" where
  "allFindings relocationResults delta_envelope_ids =
     filter (\<lambda>id. case map_of relocationResults id of
                     None \<Rightarrow> False
                   | Some r \<Rightarrow> status r = PRESERVED \<or> status r = RELOCATED)
            (map fst relocationResults)
     @ delta_envelope_ids"

definition mergedSnapshot :: "(rat \<Rightarrow> rat) \<Rightarrow> clock \<Rightarrow> SnapshotMergeParams \<Rightarrow> Snapshot" where
  "mergedSnapshot fl clk args =
     (case countStatuses (map snd (smp_relocation_results args)) (0, 0, 0, 0) of
        (preserved, relocated, stale, orphaned) \<Rightarrow>
          let newFindings = length (smp_delta_envelope_ids args);
              trustScore = computeMixedTrustScore fl preserved relocated stale orphaned newFindings;
              snapshotId = generateSnapshotId clk (smp_target_commit args)
          in \<lparr>snapshot_id = snapshotId,
               project_path = smp_project_path args,
               git_commit = smp_target_commit args,
               git_branch = [],
               workflow_id = smp_workflow_id args,
               workflow_goal = smp_workflow_goal args,
               analysis_mode = INCREMENTAL,
               baseline_snapshot_id = Some (smp_baseline_snapshot_id args),
               chunk_manifest = [],
               findings = allFindings (smp_relocation_results args) (smp_delta_envelope_ids args),
               trust_score = trustScore,
               duration_seconds = elapsed_seconds clk,
               created_at = iso_timestamp clk,
               provenance_chain = [smp_baseline_snapshot_id args, snapshotId]\<rparr>)"

definition mergeResult :: "(rat \<Rightarrow> rat) \<Rightarrow> clock \<Rightarrow> SnapshotMergeParams \<Rightarrow> MergeResult" where
  "mergeResult fl clk args =
     (case countStatuses (map snd (smp_relocation_results args)) (0, 0, 0, 0) of
        (preserved, relocated, stale, orphaned) \<Rightarrow>
          let newFindings = length (smp_delta_envelope_ids args) in
          \<lparr>mr_snapshot_id = generateSnapshotId clk (smp_target_commit args),
           findings_preserved = preserved,
           findings_relocated = relocated,
           findings_new = newFindings,
           findings_stale = stale,
           findings_orphaned = orphaned,
           conflicts_resolved = 0,
           mr_trust_score =
             computeMixedTrustScore fl preserved relocated stale orphaned newFindings\<rparr>)"

text \<open>
  The handler of \<open>cipher_snapshot_merge\<close>. \<open>Inl\<close> is the reply \<open>success: false\<close> with
  its error message; \<open>Inr\<close> is the reply \<open>success: true\<close> with the merge result, beside
  the store after the insert of the new snapshot.
\<close>

definition snapshotMerge ::
  "(rat \<Rightarrow> rat) \<Rightarrow> services \<Rightarrow> clock \<Rightarrow> store \<Rightarrow> SnapshotMergeParams
     \<Rightarrow> string + (MergeResult \<times> store)" where
  "snapshotMerge fl svc clk st args =
     (case (vectorStoreManager svc, embeddingManager svc) of
        (Some got, Some gotEmbedder) \<Rightarrow>
          (case got of
             GetStoreThrows e \<Rightarrow> Inl e
           | StoreMissing \<Rightarrow> Inl ''Vector store not available''
           | StoreFound \<Rightarrow>
               if \<not> gotEmbedder then Inl ''Embedder not available''
               else
                 let snapshot = mergedSnapshot fl clk args;
                     searchText = buildSnapshotSearchText snapshot
                 in (case embed_throws svc searchText of
                       Some e \<Rightarrow> Inl e
                     | None \<Rightarrow>
                         (case insert_throws svc (NumKey (generateNumericVectorId clk 0 0)) of
                            Some e \<Rightarrow> Inl e
                          | None \<Rightarrow>
                              Inr (mergeResult fl clk args,
                                   store_insert (NumKey (generateNumericVectorId clk 0 0))
                                     (SnapshotP \<lparr>sp_snapshot = snapshot, sp_text = searchText\<rparr>)
                                     st))))
      | _ \<Rightarrow> Inl ''Vector store not available'')"

text \<open>
  The handler of \<open>cipher_snapshot_create\<close>: the snapshot, whether it was stored, and the
  store afterwards. A baseline id that is the empty string is falsy and is not pushed.
\<close>

definition createProvenanceChain :: "string option \<Rightarrow> string \<Rightarrow> string list" where
  "createProvenanceChain baseline snapshotId =
     (case baseline of
        None \<Rightarrow> []
      | Some b \<Rightarrow> if b \<noteq> [] then [b] else []) @ [snapshotId]"

definition createdSnapshot :: "clock \<Rightarrow> SnapshotCreateParams \<Rightarrow> Snapshot" where
  "createdSnapshot clk args =
     (let snapshotId = generateSnapshotId clk (scp_git_commit args) in
      \<lparr>snapshot_id = snapshotId,
       project_path = scp_project_path args,
       git_commit = scp_git_commit args,
       git_branch = scp_git_branch args,
       workflow_id = scp_workflow_id args,
       workflow_goal = scp_workflow_goal args,
       analysis_mode = scp_analysis_mode args,
       baseline_snapshot_id = scp_baseline_snapshot_id args,
       chunk_manifest = scp_chunk_manifest args,
       findings = scp_findings args,
       trust_score = scp_trust_score args,
       duration_seconds = (case scp_duration_seconds args of None \<Rightarrow> 0 | Some d \<Rightarrow> d),
       created_at = iso_timestamp clk,
       provenance_chain = createProvenanceChain (scp_baseline_snapshot_id args) snapshotId\<rparr>)"

definition snapshotCreate ::
  "services \<Rightarrow> clock \<Rightarrow> store \<Rightarrow> SnapshotCreateParams \<Rightarrow> string + (Snapshot \<times> bool \<times> store)" where
  "snapshotCreate svc clk st args =
     (let snapshot = createdSnapshot clk args;
          searchText = buildSnapshotSearchText snapshot
      in case (vectorStoreManager svc, embeddingManager svc) of
           (Some got, Some gotEmbedder) \<Rightarrow>
             (case got of
                GetStoreThrows e \<Rightarrow> Inl e
              | StoreMissing \<Rightarrow> Inl ''Vector store not available''
              | StoreFound \<Rightarrow>
                  if \<not> gotEmbedder then Inr (snapshot, False, st)
                  else
                    (case embed_throws svc searchText of
                       Some e \<Rightarrow> Inl e
                     | None \<Rightarrow>
                         (case insert_throws svc (NumKey (generateNumericVectorId clk 0 0)) of
                            Some e \<Rightarrow> Inl e
                          | None \<Rightarrow>
                              Inr (snapshot, True,
                                   store_insert (NumKey (generateNumericVectorId clk 0 0))
                                     (SnapshotP \<lparr>sp_snapshot = snapshot, sp_text = searchText\<rparr>)
                                     st))))
         | _ \<Rightarrow> Inr (snapshot, False, st))"

section \<open>Graph update (cipher\_graph\_update)\<close>

datatype GraphOperation =
  add_node | update_node | remove_node | add_edge | remove_edge | bulk_update

record GraphUpdateParams =
  gup_project_path :: string
  gup_operation :: GraphOperation
  gup_node :: "GraphNode option"
  gup_node_id :: "string option"
  gup_edge :: "GraphEdge option"
  gup_bulk_nodes :: "GraphNode list option"
  gup_bulk_edges :: "GraphEdge list option"
  gup_commit :: string

record GraphUpdateResult =
  nodes_affected :: nat
  edges_affected :: nat

fun node_type_name :: "GraphNodeType \<Rightarrow> string" where
  "node_type_name CODE = ''CODE''"
| "node_type_name FINDING = ''FINDING''"
| "node_type_name SEMANTIC_NODE = ''SEMANTIC''"
| "node_type_name CHUNK = ''CHUNK''"

fun edge_type_name :: "GraphEdgeType \<Rightarrow> string" where
  "edge_type_name IMPORTS = ''IMPORTS''"
| "edge_type_name EVIDENCES = ''EVIDENCES''"
| "edge_type_name BELONGS_TO = ''BELONGS_TO''"
| "edge_type_name SIMILAR_TO = ''SIMILAR_TO''"
| "edge_type_name CONTAINS = ''CONTAINS''"
| "edge_type_name CALLS = ''CALLS''"
| "edge_type_name EXTENDS = ''EXTENDS''"
| "edge_type_name IMPLEMENTS = ''IMPLEMENTS''"

definition edgeId :: "GraphEdge \<Rightarrow> string" where
  "edgeId e = ''edge-'' @ source e @ ''-'' @ target e @ ''-'' @ edge_type_name (edge_type e)"

definition edgeText :: "GraphEdge \<Rightarrow> string" where
  "edgeText e = edge_type_name (edge_type e) @ '':'' @ source e @ ''->'' @ target e"

definition nodePayload :: "GraphUpdateParams \<Rightarrow> GraphNode \<Rightarrow> payload" where
  "nodePayload args node =
     NodeP \<lparr>np_node = node, np_project_path = gup_project_path args, np_commit = gup_commit args\<rparr>"

definition edgePayload :: "GraphUpdateParams \<Rightarrow> GraphEdge \<Rightarrow> payload" where
  "edgePayload args e =
     EdgeP \<lparr>ep_edge = e, ep_edge_id = edgeId e,
            ep_project_path = gup_project_path args, ep_commit = gup_commit args\<rparr>"

text \<open>
  One \<open>embed\<close> and one \<open>insert\<close> under a freshly generated numeric id: the step that
  the add and bulk branches share. \<open>call\<close> counts the calls of
  \<open>generateNumericVectorId\<close> so far, \<open>index\<close> is its argument.
\<close>

definition embed_and_insert ::
  "services \<Rightarrow> clock \<Rightarrow> nat \<Rightarrow> nat \<Rightarrow> string \<Rightarrow> payload \<Rightarrow> store \<Rightarrow> string + store" where
  "embed_and_insert svc clk call index text v st =
     (case embed_throws svc text of
        Some e \<Rightarrow> Inl e
      | None \<Rightarrow>
          let vectorId = NumKey (generateNumericVectorId clk call index) in
          (case insert_throws svc vectorId of
             Some e \<Rightarrow> Inl e
           | None \<Rightarrow> Inr (store_insert vectorId v st)))"

text \<open>
  The loops of \<open>bulk_update\<close>. A throw ends the call with the records inserted so far
  left in the store.
\<close>

fun bulk_nodes_loop ::
  "services \<Rightarrow> clock \<Rightarrow> GraphUpdateParams \<Rightarrow> GraphNode list \<Rightarrow> nat \<Rightarrow> store
     \<Rightarrow> (string + nat) \<times> store" where
  "bulk_nodes_loop svc clk args [] nodesAffected st = (Inr nodesAffected, st)"
| "bulk_nodes_loop svc clk args (node # rest) nodesAffected st =
     (case embed_and_insert svc clk nodesAffected nodesAffected
             (node_type_name (node_type node) @ '':'' @ node_id node)
             (nodePayload args node) st of
        Inl e \<Rightarrow> (Inl e, st)
      | Inr st' \<Rightarrow> bulk_nodes_loop svc clk args rest (nodesAffected + 1) st')"

fun bulk_edges_loop ::
  "services \<Rightarrow> clock \<Rightarrow> GraphUpdateParams \<Rightarrow> nat \<Rightarrow> GraphEdge list \<Rightarrow> nat \<Rightarrow> store
     \<Rightarrow> (string + nat) \<times> store" where
  "bulk_edges_loop svc clk args calls [] edgesAffected st = (Inr edgesAffected, st)"
| "bulk_edges_loop svc clk args calls (e # rest) edgesAffected st =
     (case embed_and_insert svc clk (calls + edgesAffected) edgesAffected
             (edgeText e) (edgePayload args e) st of
        Inl err \<Rightarrow> (Inl err, st)
      | Inr st' \<Rightarrow> bulk_edges_loop svc clk args calls rest (edgesAffected + 1) st')"

text \<open>
  The handler of \<open>cipher_graph_update\<close>: the reply (\<open>Inl\<close> is \<open>success: false\<close>) and
  the store after the call. The store and the embedder are looked up first:
  \<open>hasStore\<close> and \<open>hasEmbedder\<close> are the truthiness of \<open>store\<close> and \<open>embedder\<close>.
\<close>

definition hasEmbedder :: "services \<Rightarrow> bool" where
  "hasEmbedder svc = (embeddingManager svc = Some True)"

definition upsertNode ::
  "services \<Rightarrow> clock \<Rightarrow> bool \<Rightarrow> store \<Rightarrow> GraphUpdateParams
     \<Rightarrow> (string + GraphUpdateResult) \<times> store" where
  "upsertNode svc clk hasStore st args =
     (case gup_node args of
        None \<Rightarrow> (Inl ''node required for add_node/update_node'', st)
      | Some node \<Rightarrow>
          if hasStore \<and> hasEmbedder svc then
            (case embed_and_insert svc clk 0 0
                    (node_type_name (node_type node) @ '':'' @ node_id node
                       @ '' '' @ properties node)
                    (nodePayload args node) st of
               Inl err \<Rightarrow> (Inl err, st)
             | Inr st' \<Rightarrow> (Inr \<lparr>nodes_affected = 1, edges_affected = 0\<rparr>, st'))
          else (Inr \<lparr>nodes_affected = 0, edges_affected = 0\<rparr>, st))"

definition graphUpdate ::
  "services \<Rightarrow> clock \<Rightarrow> store \<Rightarrow> GraphUpdateParams \<Rightarrow> (string + GraphUpdateResult) \<times> store" where
  "graphUpdate svc clk st args =
     (case vectorStoreManager svc of
        Some (GetStoreThrows e) \<Rightarrow> (Inl e, st)
      | got \<Rightarrow>
          let hasStore = (got = Some StoreFound) in
          (case gup_operation args of
             add_node \<Rightarrow> upsertNode svc clk hasStore st args
           | update_node \<Rightarrow> upsertNode svc clk hasStore st args
           | remove_node \<Rightarrow>
               (case gup_node_id args of
                  None \<Rightarrow> (Inl ''node_id required for remove_node'', st)
                | Some nid \<Rightarrow>
                    if nid = [] then (Inl ''node_id required for remove_node'', st)
                    else if hasStore then
                      (case delete_throws svc (StrKey nid) of
                         Some e \<Rightarrow> (Inl e, st)
                       | None \<Rightarrow>
                           (Inr \<lparr>nodes_affected = 1, edges_affected = 0\<rparr>,
                            store_delete (StrKey nid) st))
                    else (Inr \<lparr>nodes_affected = 0, edges_affected = 0\<rparr>, st))
           | add_edge \<Rightarrow>
               (case gup_edge args of
                  None \<Rightarrow> (Inl ''edge required for add_edge'', st)
                | Some e \<Rightarrow>
                    if hasStore \<and> hasEmbedder svc then
                      (case embed_and_insert svc clk 0 0 (edgeText e) (edgePayload args e) st of
                         Inl err \<Rightarrow> (Inl err, st)
                       | Inr st' \<Rightarrow> (Inr \<lparr>nodes_affected = 0, edges_affected = 1\<rparr>, st'))
                    else (Inr \<lparr>nodes_affected = 0, edges_affected = 0\<rparr>, st))
           | remove_edge \<Rightarrow>
               (case gup_edge args of
                  None \<Rightarrow> (Inl ''edge required for remove_edge'', st)
                | Some e \<Rightarrow>
                    if hasStore then
                      (case delete_throws svc (StrKey (edgeId e)) of
                         Some err \<Rightarrow> (Inl err, st)
                       | None \<Rightarrow>
                           (Inr \<lparr>nodes_affected = 0, edges_affected = 1\<rparr>,
                            store_delete (StrKey (edgeId e)) st))
                    else (Inr \<lparr>nodes_affected = 0, edges_affected = 0\<rparr>, st))
           | bulk_update \<Rightarrow>
               if hasStore \<and> hasEmbedder svc then
                 (let nodes = (case gup_bulk_nodes args of None \<Rightarrow> [] | Some ns \<Rightarrow> ns);
                      edges = (case gup_bulk_edges args of None \<Rightarrow> [] | Some es \<Rightarrow> es)
                  in case bulk_nodes_loop svc clk args nodes 0 st of
                       (Inl e, st') \<Rightarrow> (Inl e, st')
                     | (Inr nodesAffected, st') \<Rightarrow>
                         (case bulk_edges_loop svc clk args nodesAffected edges 0 st' of
                            (Inl e, st'') \<Rightarrow> (Inl e, st'')
                          | (Inr edgesAffected, st'') \<Rightarrow>
                              (Inr \<lparr>nodes_affected = nodesAffected,
                                    edges_affected = edgesAffected\<rparr>, st'')))
               else (Inr \<lparr>nodes_affected = 0, edges_affected = 0\<rparr>, st)))"


section \<open>Cascade propagation (cipher\_graph\_propagate)\<close>

record GraphPropagateParams =
  gpp_project_path :: string
  gpp_dirty_chunks :: "string list"
  gpp_max_depth :: "nat option"
  gpp_edge_types :: "GraphEdgeType list option"
  gpp_min_edge_weight :: "rat option"
  gpp_enable_semantic_ripple :: "bool option"
  gpp_similarity_threshold :: "rat option"

record CascadeChain =
  source_chunk :: string
  affected_chunk :: string
  path :: "string list"
  chain_edge_types :: "GraphEdgeType list"
  depth :: nat

text \<open>
  The variables of the handler that the loops change. The two result sets are
  JavaScript \<open>Set\<close>s, kept in insertion order; an element is added only when
  \<open>visited\<close> does not have it. \<open>visited\<close> starts from the dirty chunks and is only
  asked for membership.
\<close>

record PropagateState =
  cascadeAffected :: "string list"
  semanticAffected :: "string list"
  visited :: "string list"
  cascadeChains :: "CascadeChain list"
  nodesVisited :: nat
  edgesTraversed :: nat
  maxDepthReached :: nat

record PropagateResult =
  cascade_affected :: "string list"
  semantic_affected :: "string list"
  all_affected :: "string list"
  cascade_chains :: "CascadeChain list"
  nodes_visited :: nat
  edges_traversed :: nat
  max_depth_reached :: nat

definition initialPropagateState :: "string list \<Rightarrow> PropagateState" where
  "initialPropagateState dirty_chunks =
     \<lparr>cascadeAffected = [], semanticAffected = [], visited = dirty_chunks,
      cascadeChains = [], nodesVisited = 0, edgesTraversed = 0, maxDepthReached = 0\<rparr>"

text \<open>The filter on the raw hits: graph edge records of this project.\<close>

fun projectEdges :: "string \<Rightarrow> search_hit list \<Rightarrow> EdgePayload list" where
  "projectEdges project [] = []"
| "projectEdges project (h # hs) =
     (case hit_payload h of
        EdgeP ep \<Rightarrow>
          if ep_project_path ep = project then ep # projectEdges project hs
          else projectEdges project hs
      | _ \<Rightarrow> projectEdges project hs)"

text \<open>The body of the inner loop, for one edge record of the results of \<open>chunkId\<close>.\<close>

definition visitEdge :: "string \<Rightarrow> GraphEdge \<Rightarrow> PropagateState \<Rightarrow> PropagateState" where
  "visitEdge chunkId e ps =
     (if source e = chunkId \<or> target e = chunkId then
        let affectedChunk = (if source e = chunkId then target e else source e);
            ps' = (if affectedChunk \<notin> set (visited ps) then
                     ps\<lparr>cascadeAffected := cascadeAffected ps @ [affectedChunk],
                        visited := visited ps @ [affectedChunk],
                        cascadeChains := cascadeChains ps @
                          [\<lparr>source_chunk = chunkId, affected_chunk = affectedChunk,
                            path = [chunkId, affectedChunk],
                            chain_edge_types = [edge_type e], depth = 1\<rparr>],
                        edgesTraversed := edgesTraversed ps + 1\<rparr>
                   else ps)
        in ps'\<lparr>nodesVisited := nodesVisited ps' + 1\<rparr>
      else ps)"

fun visitEdges :: "string \<Rightarrow> GraphEdge list \<Rightarrow> PropagateState \<Rightarrow> PropagateState" where
  "visitEdges chunkId [] ps = ps"
| "visitEdges chunkId (e # es) ps = visitEdges chunkId es (visitEdge chunkId e ps)"

definition propagateQuery :: "string \<Rightarrow> GraphEdgeType list \<Rightarrow> string" where
  "propagateQuery chunkId edgeTypes =
     ''chunk:'' @ chunkId @ '' '' @ join_space (map edge_type_name edgeTypes)"

text \<open>The outer loop over the dirty chunks: one search per chunk.\<close>

fun propagateLoop ::
  "services \<Rightarrow> string \<Rightarrow> GraphEdgeType list \<Rightarrow> string list \<Rightarrow> PropagateState
     \<Rightarrow> string + PropagateState" where
  "propagateLoop svc project edgeTypes [] ps = Inr ps"
| "propagateLoop svc project edgeTypes (chunkId # rest) ps =
     (case embed_throws svc (propagateQuery chunkId edgeTypes) of
        Some e \<Rightarrow> Inl e
      | None \<Rightarrow>
          (case search_hits svc (propagateQuery chunkId edgeTypes) 100 of
             Inl e \<Rightarrow> Inl e
           | Inr rawResults \<Rightarrow>
               propagateLoop svc project edgeTypes rest
                 (visitEdges chunkId (map ep_edge (projectEdges project rawResults)) ps)))"

definition propagateResult :: "string list \<Rightarrow> PropagateState \<Rightarrow> PropagateResult" where
  "propagateResult dirty_chunks ps =
     \<lparr>cascade_affected = cascadeAffected ps,
      semantic_affected = semanticAffected ps,
      all_affected = dirty_chunks @ cascadeAffected ps @ semanticAffected ps,
      cascade_chains = cascadeChains ps,
      nodes_visited = nodesVisited ps,
      edges_traversed = edgesTraversed ps,
      max_depth_reached = maxDepthReached ps\<rparr>"

text \<open>
  The handler of \<open>cipher_graph_propagate\<close>. The defaults of \<open>max_depth\<close>,
  \<open>min_edge_weight\<close>, \<open>enable_semantic_ripple\<close> and \<open>similarity_threshold\<close> are taken as
  the source takes them; of the five settings only \<open>edgeTypes\<close> is read again, for the
  text of the query.
\<close>

definition graphPropagate :: "services \<Rightarrow> GraphPropagateParams \<Rightarrow> string + PropagateResult" where
  "graphPropagate svc args =
     (let maxDepth = (case gpp_max_depth args of None \<Rightarrow> 3 | Some d \<Rightarrow> d);
          edgeTypes = (case gpp_edge_types args of
                         None \<Rightarrow> [IMPORTS, CALLS, EXTENDS, IMPLEMENTS] | Some ts \<Rightarrow> ts);
          minEdgeWeight = (case gpp_min_edge_weight args of None \<Rightarrow> 2 | Some w \<Rightarrow> w);
          enableSemanticRipple = (case gpp_enable_semantic_ripple args of
                                    None \<Rightarrow> True | Some b \<Rightarrow> b);
          similarityThreshold = (case gpp_similarity_threshold args of
                                   None \<Rightarrow> 8 / 10 | Some t \<Rightarrow> t);
          ps0 = initialPropagateState (gpp_dirty_chunks args)
      in if vectorStoreManager svc \<noteq> None \<and> hasEmbedder svc then
           (case vectorStoreManager svc of
              Some (GetStoreThrows e) \<Rightarrow> Inl e
            | Some StoreFound \<Rightarrow>
                (case propagateLoop svc (gpp_project_path args) edgeTypes
                        (gpp_dirty_chunks args) ps0 of
                   Inl e \<Rightarrow> Inl e
                 | Inr ps \<Rightarrow> Inr (propagateResult (gpp_dirty_chunks args) ps))
            | _ \<Rightarrow> Inr (propagateResult (gpp_dirty_chunks args) ps0))
         else Inr (propagateResult (gpp_dirty_chunks args) ps0))"

section \<open>Finding relocation (cipher\_finding\_relocate)\<close>

datatype ChangeType = ADDED | MODIFIED | DELETED | RENAMED

datatype Recommendation = REC_INCREMENTAL | REC_FULL | NO_CHANGES

record ChangedFile =
  cf_path :: string
  change_type :: ChangeType
  hunks :: "(nat \<times> nat) list"

record DeltaManifest =
  dm_baseline_snapshot_id :: string
  dm_target_commit :: string
  changed_files :: "ChangedFile list"
  affected_chunks :: "string list"
  dm_cascade_affected :: "string list"
  dm_semantic_affected :: "string list"
  recommendation :: Recommendation
  estimated_savings :: string

record FindingRelocateParams =
  frp_finding_id :: string
  frp_target_commit :: string
  frp_project_path :: string
  frp_strategies :: "RelocationStrategy list option"
  frp_min_confidence :: "rat option"
  frp_delta_manifest :: "DeltaManifest option"

text \<open>
  What one pass of the loop body leaves in \<open>confidence\<close>, \<open>status\<close> and \<open>method\<close>, and
  the entries it pushes on \<open>strategiesTried\<close>.
\<close>

record Candidate =
  cand_confidence :: rat
  cand_status :: RelocationStatus
  cand_method :: RelocationMethod

definition noCandidate :: Candidate where
  "noCandidate = \<lparr>cand_confidence = 0, cand_status = ORPHANED, cand_method = CONTENT_CHANGED\<rparr>"

text \<open>The filter of the SEMANTIC strategy: envelope records of this project.\<close>

fun projectEnvelopes :: "string \<Rightarrow> search_hit list \<Rightarrow> search_hit list" where
  "projectEnvelopes project [] = []"
| "projectEnvelopes project (h # hs) =
     (case hit_payload h of
        EnvelopeP env \<Rightarrow>
          if env_project_path env = project then h # projectEnvelopes project hs
          else projectEnvelopes project hs
      | _ \<Rightarrow> projectEnvelopes project hs)"

definition firstScore :: "search_hit list \<Rightarrow> rat option" where
  "firstScore results = (case results of [] \<Rightarrow> None | h # _ \<Rightarrow> score h)"

definition semanticStrategy ::
  "services \<Rightarrow> FindingRelocateParams \<Rightarrow> rat \<Rightarrow> string + Candidate \<times> StrategyAttempt list" where
  "semanticStrategy svc args minConfidence =
     (let query = ''finding:'' @ frp_finding_id args in
      case embed_throws svc query of
        Some e \<Rightarrow> Inl e
      | None \<Rightarrow>
          (case search_hits svc query 20 of
             Inl e \<Rightarrow> Inl e
           | Inr rawResults \<Rightarrow>
               (case firstScore (projectEnvelopes (frp_project_path args) rawResults) of
                  Some sc \<Rightarrow>
                    if sc > minConfidence then
                      Inr (\<lparr>cand_confidence = sc, cand_status = RELOCATED,
                            cand_method = SEMANTIC_SAME_FILE\<rparr>,
                           [\<lparr>strategy = SEMANTIC, result = MATCH, attempt_confidence = sc\<rparr>])
                    else
                      Inr (noCandidate,
                           [\<lparr>strategy = SEMANTIC, result = LOW_CONFIDENCE,
                             attempt_confidence = sc\<rparr>])
                | None \<Rightarrow>
                    Inr (noCandidate,
                         [\<lparr>strategy = SEMANTIC, result = LOW_CONFIDENCE,
                           attempt_confidence = 0\<rparr>]))))"

fun runStrategy ::
  "services \<Rightarrow> bool \<Rightarrow> FindingRelocateParams \<Rightarrow> rat \<Rightarrow> RelocationStrategy
     \<Rightarrow> string + Candidate \<times> StrategyAttempt list" where
  "runStrategy svc hasStore args minConfidence EXACT =
     Inr (noCandidate, [\<lparr>strategy = EXACT, result = NO_MATCH, attempt_confidence = 0\<rparr>])"
| "runStrategy svc hasStore args minConfidence DRIFT =
     (if frp_delta_manifest args \<noteq> None then
        Inr (\<lparr>cand_confidence = 95 / 100, cand_status = RELOCATED, cand_method = LINE_DRIFT\<rparr>,
             [\<lparr>strategy = DRIFT, result = MATCH, attempt_confidence = 95 / 100\<rparr>])
      else
        Inr (noCandidate,
             [\<lparr>strategy = DRIFT, result = NO_DELTA_MANIFEST, attempt_confidence = 0\<rparr>]))"
| "runStrategy svc hasStore args minConfidence SEMANTIC =
     (if hasStore \<and> hasEmbedder svc then semanticStrategy svc args minConfidence
      else Inr (noCandidate, []))"
| "runStrategy svc hasStore args minConfidence HASH_GLOBAL =
     Inr (noCandidate, [\<lparr>strategy = HASH_GLOBAL, result = NO_MATCH, attempt_confidence = 0\<rparr>])"
| "runStrategy svc hasStore args minConfidence FUZZY =
     Inr (noCandidate, [\<lparr>strategy = FUZZY, result = NO_MATCH, attempt_confidence = 0\<rparr>])"

text \<open>
  The loop over the strategies: \<open>Some\<close> result at the first pass whose confidence
  reaches \<open>minConfidence\<close> (the \<open>break\<close>), \<open>None\<close> when the list is used up.
\<close>

fun relocateLoop ::
  "services \<Rightarrow> bool \<Rightarrow> FindingRelocateParams \<Rightarrow> rat \<Rightarrow> RelocationStrategy list
     \<Rightarrow> StrategyAttempt list \<Rightarrow> string + RelocationResult option \<times> StrategyAttempt list" where
  "relocateLoop svc hasStore args minConfidence [] strategiesTried = Inr (None, strategiesTried)"
| "relocateLoop svc hasStore args minConfidence (s # rest) strategiesTried =
     (case runStrategy svc hasStore args minConfidence s of
        Inl e \<Rightarrow> Inl e
      | Inr (c, pushed) \<Rightarrow>
          if cand_confidence c \<ge> minConfidence then
            Inr (Some \<lparr>status = cand_status c, new_location = None,
                       relocation_method = cand_method c,
                       relocation_confidence = cand_confidence c, drift = None,
                       strategies_tried = strategiesTried @ pushed\<rparr>,
                 strategiesTried @ pushed)
          else relocateLoop svc hasStore args minConfidence rest (strategiesTried @ pushed))"

definition defaultStrategies :: "RelocationStrategy list" where
  "defaultStrategies = [EXACT, DRIFT, SEMANTIC, HASH_GLOBAL, FUZZY]"

text \<open>
  The handler of \<open>cipher_finding_relocate\<close>. \<open>Inl\<close> is the reply of the catch block:
  \<open>success: false\<close> with the message, status ORPHANED, method CONTENT\_CHANGED,
  confidence 0 and no strategies tried.
\<close>

definition findingRelocate :: "services \<Rightarrow> FindingRelocateParams \<Rightarrow> string + RelocationResult" where
  "findingRelocate svc args =
     (let strategies = (case frp_strategies args of None \<Rightarrow> defaultStrategies | Some ss \<Rightarrow> ss);
          minConfidence = (case frp_min_confidence args of None \<Rightarrow> 7 / 10 | Some m \<Rightarrow> m)
      in case vectorStoreManager svc of
           Some (GetStoreThrows e) \<Rightarrow> Inl e
         | got \<Rightarrow>
             (case relocateLoop svc (got = Some StoreFound) args minConfidence strategies [] of
                Inl e \<Rightarrow> Inl e
              | Inr (Some r, tried) \<Rightarrow> Inr r
              | Inr (None, tried) \<Rightarrow>
                  Inr \<lparr>status = STALE, new_location = None,
                       relocation_method = CONTENT_CHANGED,
                       relocation_confidence = 0, drift = None,
                       strategies_tried = tried\<rparr>))"


section \<open>Analysis branches (cipher\_branch\_manage)\<close>

datatype BranchOperation =
  op_create | op_get | op_list | op_delete | op_rebase | op_merge_to_main

record BranchManageParams =
  bmp_project_path :: string
  bmp_operation :: BranchOperation
  bmp_git_branch :: "string option"
  bmp_base_git_branch :: "string option"
  bmp_analysis_branch_id :: "string option"
  bmp_new_base_snapshot_id :: "string option"

text \<open>
  The replies of the handler: \<open>BranchFailure\<close> is \<open>success: false\<close> with its message,
  every other reply is \<open>success: true\<close>. \<open>NotFound\<close> is the reply of \<open>get\<close> with
  \<open>branch: null\<close>.
\<close>

datatype BranchReply =
  BranchFailure string
  | Created AnalysisBranch
  | Found payload
  | NotFound
  | Listed "payload list"
  | Deleted string
  | Rebased string
  | MergedToMain string

text \<open>
  \<open>generateBranchId\<close>: every character outside \<open>[a-zA-Z0-9-]\<close> becomes a hyphen, the
  rest is lower-cased, and six random characters in base 36 follow.
\<close>

definition sanitizeChar :: "char \<Rightarrow> char" where
  "sanitizeChar c =
     (let n = (of_char c :: nat) in
      if 65 \<le> n \<and> n \<le> 90 then char_of (n + 32)
      else if (97 \<le> n \<and> n \<le> 122) \<or> (48 \<le> n \<and> n \<le> 57) \<or> n = 45 then c
      else CHR ''-'')"

definition generateBranchId :: "clock \<Rightarrow> string \<Rightarrow> string" where
  "generateBranchId clk gitBranch = ''ab-'' @ map sanitizeChar gitBranch @ ''-'' @ random_base36 clk"

definition truthy :: "string option \<Rightarrow> bool" where
  "truthy x = (case x of None \<Rightarrow> False | Some v \<Rightarrow> v \<noteq> [])"

definition newBranch :: "clock \<Rightarrow> string \<Rightarrow> string \<Rightarrow> AnalysisBranch" where
  "newBranch clk gitBranch baseGitBranch =
     \<lparr>branch_id = generateBranchId clk gitBranch,
      branch_git_branch = gitBranch,
      base_git_branch = baseGitBranch,
      fork_point_commit = [],
      snapshots = [],
      branch_created_at = iso_timestamp clk,
      updated_at = iso_timestamp clk\<rparr>"

definition branchSearchText :: "string \<Rightarrow> string \<Rightarrow> string \<Rightarrow> string" where
  "branchSearchText gitBranch baseGitBranch project =
     ''branch:'' @ gitBranch @ '' base:'' @ baseGitBranch @ '' project:'' @ project"

text \<open>The filters of \<open>get\<close> and \<open>list\<close> on the raw hits.\<close>

definition branchMatches :: "BranchManageParams \<Rightarrow> payload \<Rightarrow> bool" where
  "branchMatches args p =
     (case p of
        BranchP bp \<Rightarrow>
          bp_project_path bp = bmp_project_path args \<and>
          (if truthy (bmp_analysis_branch_id args)
           then Some (branch_id (bp_branch bp)) = bmp_analysis_branch_id args else True) \<and>
          (if truthy (bmp_git_branch args)
           then Some (branch_git_branch (bp_branch bp)) = bmp_git_branch args else True)
      | _ \<Rightarrow> False)"

definition isProjectBranch :: "string \<Rightarrow> payload \<Rightarrow> bool" where
  "isProjectBranch project p =
     (case p of BranchP bp \<Rightarrow> bp_project_path bp = project | _ \<Rightarrow> False)"

definition searchPayloads :: "services \<Rightarrow> string \<Rightarrow> nat \<Rightarrow> string + payload list" where
  "searchPayloads svc query k =
     (case embed_throws svc query of
        Some e \<Rightarrow> Inl e
      | None \<Rightarrow>
          (case search_hits svc query k of
             Inl e \<Rightarrow> Inl e
           | Inr hits \<Rightarrow> Inr (map hit_payload hits)))"

text \<open>
  The handler of \<open>cipher_branch_manage\<close>: the reply and the store after the call.
  \<open>now_ms\<close> is the reading of \<open>Date.now()\<close> in the ids of \<open>rebase\<close> and
  \<open>merge_to_main\<close>, as its decimal text.
\<close>

definition branchCreate ::
  "services \<Rightarrow> clock \<Rightarrow> bool \<Rightarrow> store \<Rightarrow> BranchManageParams \<Rightarrow> BranchReply \<times> store" where
  "branchCreate svc clk hasStore st args =
     (case bmp_git_branch args of
        None \<Rightarrow> (BranchFailure ''git_branch required for create operation'', st)
      | Some gitBranch \<Rightarrow>
          if gitBranch = []
          then (BranchFailure ''git_branch required for create operation'', st)
          else
            let baseGitBranch =
                  (case bmp_base_git_branch args of None \<Rightarrow> ''main'' | Some b \<Rightarrow> b);
                branch = newBranch clk gitBranch baseGitBranch
            in if hasStore \<and> hasEmbedder svc then
                 (let searchText =
                        branchSearchText gitBranch baseGitBranch (bmp_project_path args)
                  in case embed_and_insert svc clk 0 0 searchText
                            (BranchP \<lparr>bp_branch = branch,
                                      bp_project_path = bmp_project_path args,
                                      bp_text = searchText\<rparr>) st of
                       Inl e \<Rightarrow> (BranchFailure e, st)
                     | Inr st' \<Rightarrow> (Created branch, st'))
               else (Created branch, st))"

definition branchManage ::
  "services \<Rightarrow> clock \<Rightarrow> string \<Rightarrow> store \<Rightarrow> BranchManageParams \<Rightarrow> BranchReply \<times> store" where
  "branchManage svc clk now_ms st args =
     (case vectorStoreManager svc of
        Some (GetStoreThrows e) \<Rightarrow> (BranchFailure e, st)
      | got \<Rightarrow>
          let hasStore = (got = Some StoreFound) in
          (case bmp_operation args of
             op_create \<Rightarrow> branchCreate svc clk hasStore st args
           | op_get \<Rightarrow>
               if \<not> truthy (bmp_git_branch args) \<and> \<not> truthy (bmp_analysis_branch_id args)
               then (BranchFailure ''git_branch or analysis_branch_id required for get operation'', st)
               else if hasStore \<and> hasEmbedder svc then
                 (case searchPayloads svc
                         (case bmp_analysis_branch_id args of
                            Some i \<Rightarrow> i
                          | None \<Rightarrow>
                              ''branch:'' @
                              (case bmp_git_branch args of
                                 Some g \<Rightarrow> g | None \<Rightarrow> ''undefined'')) 20 of
                    Inl e \<Rightarrow> (BranchFailure e, st)
                  | Inr ps \<Rightarrow>
                      (case filter (branchMatches args) ps of
                         [] \<Rightarrow> (NotFound, st)
                       | p # _ \<Rightarrow> (Found p, st)))
               else (NotFound, st)
           | op_list \<Rightarrow>
               if hasStore \<and> hasEmbedder svc then
                 (case searchPayloads svc
                         (''project:'' @ bmp_project_path args @ '' analysis branches'') 200 of
                    Inl e \<Rightarrow> (BranchFailure e, st)
                  | Inr ps \<Rightarrow> (Listed (filter (isProjectBranch (bmp_project_path args)) ps), st))
               else (Listed [], st)
           | op_delete \<Rightarrow>
               if \<not> truthy (bmp_analysis_branch_id args)
               then (BranchFailure ''analysis_branch_id required for delete operation'', st)
               else
                 (case bmp_analysis_branch_id args of
                    None \<Rightarrow>
                      (BranchFailure ''analysis_branch_id required for delete operation'', st)
                  | Some bid \<Rightarrow>
                      if hasStore then
                        (case delete_throws svc (StrKey bid) of
                           Some e \<Rightarrow> (BranchFailure e, st)
                         | None \<Rightarrow> (Deleted bid, store_delete (StrKey bid) st))
                      else (Deleted bid, st))
           | op_rebase \<Rightarrow>
               if \<not> truthy (bmp_analysis_branch_id args) \<or> \<not> truthy (bmp_new_base_snapshot_id args)
               then (BranchFailure
                       ''analysis_branch_id and new_base_snapshot_id required for rebase'', st)
               else (Rebased (''snap-rebased-'' @ now_ms), st)
           | op_merge_to_main \<Rightarrow>
               if \<not> truthy (bmp_analysis_branch_id args)
               then (BranchFailure ''analysis_branch_id required for merge_to_main'', st)
               else (MergedToMain (''snap-merged-'' @ now_ms), st)))"

section \<open>Words of the specification, and example inputs\<close>

text \<open>A relocation result survives the merge when its status is PRESERVED or RELOCATED.\<close>

definition survives :: "string \<times> RelocationResult \<Rightarrow> bool" where
  "survives e \<longleftrightarrow> status (snd e) = PRESERVED \<or> status (snd e) = RELOCATED"

text \<open>
  The relocation results cover the findings of the baseline when every such finding is
  one of their keys.
\<close>

definition covers :: "(string \<times> RelocationResult) list \<Rightarrow> string list \<Rightarrow> bool" where
  "covers rr baseline_findings \<longleftrightarrow> set baseline_findings \<subseteq> set (map fst rr)"

text \<open>
  The specification's trust score, in exact arithmetic: its three components, the
  weighted sum times ten, the rounding to one decimal place (a half going upwards, as
  with \<open>Math.round\<close>), and the overall value. A number is exactly halfway when it lies in
  the middle between two neighbouring numbers with one decimal place.
\<close>

definition specCoverage :: "nat \<Rightarrow> nat \<Rightarrow> nat \<Rightarrow> nat \<Rightarrow> nat \<Rightarrow> rat" where
  "specCoverage preserved relocated stale orphaned newFindings =
     rat_of_nat (preserved + relocated + newFindings)
       / rat_of_nat (preserved + relocated + stale + orphaned + newFindings)"

definition specFreshness :: "nat \<Rightarrow> rat" where
  "specFreshness newFindings = (if newFindings > 0 then 9 / 10 else 7 / 10)"

definition specConfidence :: "nat \<Rightarrow> nat \<Rightarrow> nat \<Rightarrow> nat \<Rightarrow> nat \<Rightarrow> rat" where
  "specConfidence preserved relocated stale orphaned newFindings =
     1 - rat_of_nat (stale + orphaned)
           / rat_of_nat (preserved + relocated + stale + orphaned + newFindings)"

definition specWeighted :: "nat \<Rightarrow> nat \<Rightarrow> nat \<Rightarrow> nat \<Rightarrow> nat \<Rightarrow> rat" where
  "specWeighted preserved relocated stale orphaned newFindings =
     (4 / 10 * specCoverage preserved relocated stale orphaned newFindings
      + 3 / 10 * specFreshness newFindings
      + 3 / 10 * specConfidence preserved relocated stale orphaned newFindings) * 10"

definition round_1_decimal :: "rat \<Rightarrow> rat" where
  "round_1_decimal x = rat_of_int (round (x * 10)) / 10"

definition exactly_halfway :: "rat \<Rightarrow> bool" where
  "exactly_halfway x \<longleftrightarrow> frac (x * 10) = 1 / 2"

definition specOverall :: "nat \<Rightarrow> nat \<Rightarrow> nat \<Rightarrow> nat \<Rightarrow> nat \<Rightarrow> rat" where
  "specOverall preserved relocated stale orphaned newFindings =
     round_1_decimal (specWeighted preserved relocated stale orphaned newFindings)"

text \<open>Services that are all present and never throw, with an index that finds nothing.\<close>

definition exampleServices :: services where
  "exampleServices =
     \<lparr>vectorStoreManager = Some StoreFound, embeddingManager = Some True,
      embed_throws = (\<lambda>_. None), insert_throws = (\<lambda>_. None), delete_throws = (\<lambda>_. None),
      search_hits = (\<lambda>_ _. Inr [])\<rparr>"

definition exampleClock :: clock where
  "exampleClock =
     \<lparr>date_digits = ''20250101120000'', iso_timestamp = ''2025-01-01T12:00:00.000Z'',
      elapsed_seconds = 0, id_reading = (\<lambda>_. (1735732800000, 7)), random_base36 = ''k3x9qa''\<rparr>"

definition exampleResult :: "RelocationStatus \<Rightarrow> RelocationResult" where
  "exampleResult s =
     \<lparr>status = s, new_location = None, relocation_method = CONTENT_CHANGED,
      relocation_confidence = 0, drift = None, strategies_tried = []\<rparr>"

text \<open>
  A merge onto the baseline \<open>snap-1\<close>: four baseline findings, one of each status, and
  one new envelope.
\<close>

definition exampleMergeParams :: SnapshotMergeParams where
  "exampleMergeParams =
     \<lparr>smp_baseline_snapshot_id = ''snap-1'',
      smp_delta_envelope_ids = [''E9''],
      smp_relocation_results =
        [(''F1'', exampleResult PRESERVED), (''F2'', exampleResult RELOCATED),
         (''F3'', exampleResult STALE), (''F4'', exampleResult ORPHANED)],
      smp_target_commit = ''abcdef0123'',
      smp_project_path = ''/p'',
      smp_conflict_strategy = Some KEEP_BOTH,
      smp_workflow_id = ''w1'',
      smp_workflow_goal = AUDIT\<rparr>"

text \<open>
  A merge with one preserved and twenty-seven stale findings and no new envelope: the
  weighted sum of the specification is 2.35, exactly halfway between 2.3 and 2.4.
\<close>

definition tieMergeParams :: SnapshotMergeParams where
  "tieMergeParams =
     \<lparr>smp_baseline_snapshot_id = ''snap-1'',
      smp_delta_envelope_ids = [],
      smp_relocation_results =
        (''F0'', exampleResult PRESERVED)
          # map (\<lambda>i. (''S'' @ replicate i (CHR ''x''), exampleResult STALE)) [0..<27],
      smp_target_commit = ''abcdef0123'',
      smp_project_path = ''/p'',
      smp_conflict_strategy = None,
      smp_workflow_id = ''w1'',
      smp_workflow_goal = AUDIT\<rparr>"

text \<open>
  A merge whose relocation results have an entry for each of the four findings of the
  baseline \<open>snap-1\<close> and one more, for an id \<open>X5\<close> that the baseline does not have.
\<close>

definition extraKeyMergeParams :: SnapshotMergeParams where
  "extraKeyMergeParams =
     \<lparr>smp_baseline_snapshot_id = ''snap-1'',
      smp_delta_envelope_ids = [''E9''],
      smp_relocation_results =
        [(''F1'', exampleResult PRESERVED), (''F2'', exampleResult RELOCATED),
         (''F3'', exampleResult STALE), (''F4'', exampleResult ORPHANED),
         (''X5'', exampleResult STALE)],
      smp_target_commit = ''abcdef0123'',
      smp_project_path = ''/p'',
      smp_conflict_strategy = None,
      smp_workflow_id = ''w1'',
      smp_workflow_goal = AUDIT\<rparr>"

text \<open>
  The specification's collision of two finding locations: the same file and overlapping
  line ranges.
\<close>

definition collides :: "FindingLocation \<Rightarrow> FindingLocation \<Rightarrow> bool" where
  "collides a b \<longleftrightarrow>
     file_path a = file_path b \<and> line_start a \<le> line_end b \<and> line_start b \<le> line_end a"

text \<open>
  A baseline snapshot \<open>snap-1\<close> that was itself merged onto \<open>snap-0\<close>, so that its
  provenance chain has two entries, and a store that holds it.
\<close>

definition exampleBaseline :: Snapshot where
  "exampleBaseline =
     \<lparr>snapshot_id = ''snap-1'', project_path = ''/p'', git_commit = ''0123456789'',
      git_branch = ''main'', workflow_id = ''w0'', workflow_goal = AUDIT,
      analysis_mode = INCREMENTAL, baseline_snapshot_id = Some ''snap-0'',
      chunk_manifest = [], findings = [''F1'', ''F2'', ''F3'', ''F4''],
      trust_score = computeMixedTrustScore (\<lambda>x. x) 0 0 0 0 0,
      duration_seconds = 0, created_at = ''2024-12-31T12:00:00.000Z'',
      provenance_chain = [''snap-0'', ''snap-1'']\<rparr>"

definition exampleBaselineStore :: store where
  "exampleBaselineStore =
     [(NumKey 1, SnapshotP \<lparr>sp_snapshot = exampleBaseline,
                             sp_text = buildSnapshotSearchText exampleBaseline\<rparr>)]"

definition exampleCreateParams :: SnapshotCreateParams where
  "exampleCreateParams =
     \<lparr>scp_project_path = ''/p'', scp_git_commit = ''abcdef0123'', scp_git_branch = ''main'',
      scp_workflow_id = ''w1'', scp_workflow_goal = AUDIT, scp_analysis_mode = INCREMENTAL,
      scp_baseline_snapshot_id = Some ''snap-1'', scp_chunk_manifest = [],
      scp_findings = [''F1'', ''E9''],
      scp_trust_score = computeMixedTrustScore (\<lambda>x. x) 1 0 0 0 1,
      scp_duration_seconds = None\<rparr>"

text \<open>
  A merge with the strategy KEEP\_BOTH in which the relocated finding F2 lands on lines
  10 to 20 of \<open>a.ts\<close>, and the new finding of the envelope E9 lies on lines 15 to 25 of
  the same file.
\<close>

definition relocatedAt :: "FindingLocation \<Rightarrow> RelocationResult" where
  "relocatedAt loc =
     \<lparr>status = RELOCATED, new_location = Some loc, relocation_method = LINE_DRIFT,
      relocation_confidence = 95 / 100, drift = Some 5, strategies_tried = []\<rparr>"

definition collisionMergeParams :: SnapshotMergeParams where
  "collisionMergeParams =
     \<lparr>smp_baseline_snapshot_id = ''snap-1'',
      smp_delta_envelope_ids = [''E9''],
      smp_relocation_results =
        [(''F2'', relocatedAt \<lparr>file_path = ''a.ts'', line_start = 10, line_end = 20\<rparr>)],
      smp_target_commit = ''abcdef0123'',
      smp_project_path = ''/p'',
      smp_conflict_strategy = Some KEEP_BOTH,
      smp_workflow_id = ''w1'',
      smp_workflow_goal = AUDIT\<rparr>"

definition collisionNewLocation :: FindingLocation where
  "collisionNewLocation = \<lparr>file_path = ''a.ts'', line_start = 15, line_end = 25\<rparr>"

text \<open>
  For stating the relocation claims: what one pass of the loop does for a strategy (its
  candidate and the entries it pushes), the entries a list of strategies pushes, and
  whether every strategy of a list stays below the threshold. A pass that throws ends
  the call, so it has no candidate here.
\<close>

definition passOf ::
  "services \<Rightarrow> bool \<Rightarrow> FindingRelocateParams \<Rightarrow> rat \<Rightarrow> RelocationStrategy
     \<Rightarrow> Candidate \<times> StrategyAttempt list" where
  "passOf svc hasStore args minConfidence s =
     (case runStrategy svc hasStore args minConfidence s of
        Inl e \<Rightarrow> (noCandidate, [])
      | Inr cp \<Rightarrow> cp)"

definition traceOf ::
  "services \<Rightarrow> bool \<Rightarrow> FindingRelocateParams \<Rightarrow> rat \<Rightarrow> RelocationStrategy list
     \<Rightarrow> StrategyAttempt list" where
  "traceOf svc hasStore args minConfidence ss =
     concat (map (\<lambda>s. snd (passOf svc hasStore args minConfidence s)) ss)"

definition allBelow ::
  "services \<Rightarrow> bool \<Rightarrow> FindingRelocateParams \<Rightarrow> rat \<Rightarrow> RelocationStrategy list \<Rightarrow> bool" where
  "allBelow svc hasStore args minConfidence ss =
     list_all (\<lambda>s. cand_confidence (fst (passOf svc hasStore args minConfidence s)) < minConfidence) ss"

text \<open>The two shapes of a result: of a qualifying candidate, and of no candidate.\<close>

definition resultOf :: "Candidate \<Rightarrow> StrategyAttempt list \<Rightarrow> RelocationResult" where
  "resultOf c tried =
     \<lparr>status = cand_status c, new_location = None, relocation_method = cand_method c,
      relocation_confidence = cand_confidence c, drift = None, strategies_tried = tried\<rparr>"

definition staleResult :: "StrategyAttempt list \<Rightarrow> RelocationResult" where
  "staleResult tried =
     \<lparr>status = STALE, new_location = None, relocation_method = CONTENT_CHANGED,
      relocation_confidence = 0, drift = None, strategies_tried = tried\<rparr>"

text \<open>The settings of a call after the defaults, and the truthiness of \<open>store\<close>.\<close>

definition strategiesOf :: "FindingRelocateParams \<Rightarrow> RelocationStrategy list" where
  "strategiesOf args = (case frp_strategies args of None \<Rightarrow> defaultStrategies | Some ss \<Rightarrow> ss)"

definition minConfidenceOf :: "FindingRelocateParams \<Rightarrow> rat" where
  "minConfidenceOf args = (case frp_min_confidence args of None \<Rightarrow> 7 / 10 | Some m \<Rightarrow> m)"

definition hasStoreOf :: "services \<Rightarrow> bool" where
  "hasStoreOf svc = (vectorStoreManager svc = Some StoreFound)"

text \<open>
  A call without any service, a delta manifest, and relocation parameters for the
  finding F1 with the given strategies, threshold and manifest.
\<close>

definition noServices :: services where
  "noServices =
     \<lparr>vectorStoreManager = None, embeddingManager = None,
      embed_throws = (\<lambda>_. None), insert_throws = (\<lambda>_. None), delete_throws = (\<lambda>_. None),
      search_hits = (\<lambda>_ _. Inr [])\<rparr>"

definition exampleManifest :: DeltaManifest where
  "exampleManifest =
     \<lparr>dm_baseline_snapshot_id = ''snap-1'', dm_target_commit = ''abcdef0123'',
      changed_files = [\<lparr>cf_path = ''a.ts'', change_type = MODIFIED, hunks = [(3, 5)]\<rparr>],
      affected_chunks = [''A''], dm_cascade_affected = [], dm_semantic_affected = [],
      recommendation = REC_INCREMENTAL, estimated_savings = ''50%''\<rparr>"

definition relocateParams ::
  "RelocationStrategy list option \<Rightarrow> rat option \<Rightarrow> DeltaManifest option \<Rightarrow> FindingRelocateParams" where
  "relocateParams ss m dm =
     \<lparr>frp_finding_id = ''F1'', frp_target_commit = ''abcdef0123'', frp_project_path = ''/p'',
      frp_strategies = ss, frp_min_confidence = m, frp_delta_manifest = dm\<rparr>"

text \<open>The candidate and trace entry of a DRIFT match, and the entry of a failed search.\<close>

definition driftCandidate :: Candidate where
  "driftCandidate =
     \<lparr>cand_confidence = 95 / 100, cand_status = RELOCATED, cand_method = LINE_DRIFT\<rparr>"

definition noMatch :: "RelocationStrategy \<Rightarrow> StrategyAttempt" where
  "noMatch s = \<lparr>strategy = s, result = NO_MATCH, attempt_confidence = 0\<rparr>"

definition driftMatch :: StrategyAttempt where
  "driftMatch = \<lparr>strategy = DRIFT, result = MATCH, attempt_confidence = 95 / 100\<rparr>"

text \<open>
  For stating the propagation claims: the other ends of the edges of a list that touch
  the chunk \<open>c\<close>, the edge records of the project among the hits for \<open>c\<close>, the edge
  types after the default, and the chunks one edge away from a dirty chunk that are not
  dirty themselves.
\<close>

definition otherEnds :: "string \<Rightarrow> GraphEdge list \<Rightarrow> string list" where
  "otherEnds c es =
     map (\<lambda>e. if source e = c then target e else source e)
         (filter (\<lambda>e. source e = c \<or> target e = c) es)"

definition edgesFound :: "services \<Rightarrow> string \<Rightarrow> GraphEdgeType list \<Rightarrow> string \<Rightarrow> GraphEdge list" where
  "edgesFound svc project edgeTypes c =
     (case search_hits svc (propagateQuery c edgeTypes) 100 of
        Inl e \<Rightarrow> []
      | Inr rawResults \<Rightarrow> map ep_edge (projectEdges project rawResults))"

definition edgeTypesOf :: "GraphPropagateParams \<Rightarrow> GraphEdgeType list" where
  "edgeTypesOf args =
     (case gpp_edge_types args of None \<Rightarrow> [IMPORTS, CALLS, EXTENDS, IMPLEMENTS] | Some ts \<Rightarrow> ts)"

definition oneHop :: "services \<Rightarrow> GraphPropagateParams \<Rightarrow> string set" where
  "oneHop svc args =
     {x. x \<notin> set (gpp_dirty_chunks args) \<and>
         (\<exists>c \<in> set (gpp_dirty_chunks args).
            x \<in> set (otherEnds c (edgesFound svc (gpp_project_path args) (edgeTypesOf args) c)))}"

text \<open>
  Example graphs: an edge with a weight and a confidence, its record as a hit of the
  index for the project \<open>/p\<close>, services whose index returns the records of a list of
  edges for every query, and the propagation from the dirty chunk A with
  \<open>min_edge_weight = 2\<close>. The graph of the scenario has A to B (IMPORTS, weight 3) and
  B to C (IMPORTS, weight 1).
\<close>

definition exampleEdge ::
  "string \<Rightarrow> string \<Rightarrow> GraphEdgeType \<Rightarrow> rat option \<Rightarrow> rat option \<Rightarrow> GraphEdge" where
  "exampleEdge s t ty w c =
     \<lparr>source = s, target = t, edge_type = ty, weight = w, symbols = None,
      edge_confidence = c, primary = None\<rparr>"

definition edgeHit :: "GraphEdge \<Rightarrow> search_hit" where
  "edgeHit e =
     \<lparr>hit_payload = EdgeP \<lparr>ep_edge = e, ep_edge_id = edgeId e, ep_project_path = ''/p'',
                           ep_commit = ''abcdef0123''\<rparr>,
      score = Some (9 / 10)\<rparr>"

definition graphServices :: "GraphEdge list \<Rightarrow> services" where
  "graphServices es = exampleServices\<lparr>search_hits := (\<lambda>_ _. Inr (map edgeHit es))\<rparr>"

definition propagateParams :: "nat option \<Rightarrow> GraphPropagateParams" where
  "propagateParams d =
     \<lparr>gpp_project_path = ''/p'', gpp_dirty_chunks = [''A''], gpp_max_depth = d,
      gpp_edge_types = None, gpp_min_edge_weight = Some 2,
      gpp_enable_semantic_ripple = None, gpp_similarity_threshold = None\<rparr>"

definition scenarioGraph :: "GraphEdge list" where
  "scenarioGraph =
     [exampleEdge ''A'' ''B'' IMPORTS (Some 3) None, exampleEdge ''B'' ''C'' IMPORTS (Some 1) None]"

text \<open>The reply in which one chunk is affected, at depth 1 from A.\<close>

definition exampleChain :: "string \<Rightarrow> string \<Rightarrow> GraphEdgeType \<Rightarrow> CascadeChain" where
  "exampleChain c x ty =
     \<lparr>source_chunk = c, affected_chunk = x, path = [c, x], chain_edge_types = [ty], depth = 1\<rparr>"

definition oneAffected :: "string \<Rightarrow> GraphEdgeType \<Rightarrow> nat \<Rightarrow> PropagateResult" where
  "oneAffected x ty visits =
     \<lparr>cascade_affected = [x], semantic_affected = [], all_affected = [''A'', x],
      cascade_chains = [exampleChain ''A'' x ty],
      nodes_visited = visits, edges_traversed = 1, max_depth_reached = 0\<rparr>"

text \<open>
  For stating the claims on the graph and on branches: services that are all there and
  never throw, the key of the one insert a call makes, and example parameters, a second
  clock one millisecond later, and an example node.
\<close>

definition servicesReady :: "services \<Rightarrow> bool" where
  "servicesReady svc \<longleftrightarrow>
     vectorStoreManager svc = Some StoreFound \<and> hasEmbedder svc \<and>
     (\<forall>text. embed_throws svc text = None) \<and> (\<forall>k. insert_throws svc k = None)"

definition insertKey :: "clock \<Rightarrow> store_key" where
  "insertKey clk = NumKey (generateNumericVectorId clk 0 0)"

definition graphUpdateParams ::
  "GraphOperation \<Rightarrow> GraphNode option \<Rightarrow> GraphEdge option \<Rightarrow> GraphUpdateParams" where
  "graphUpdateParams operation n e =
     \<lparr>gup_project_path = ''/p'', gup_operation = operation, gup_node = n, gup_node_id = None,
      gup_edge = e, gup_bulk_nodes = None, gup_bulk_edges = None, gup_commit = ''abcdef0123''\<rparr>"

definition laterClock :: clock where
  "laterClock = exampleClock\<lparr>id_reading := (\<lambda>_. (1735732800001, 7))\<rparr>"

definition exampleNode :: GraphNode where
  "exampleNode = \<lparr>node_id = ''A'', node_type = CHUNK, properties = ''{}''\<rparr>"

text \<open>
  The store after one application of an update, and after two applications of the same
  update (at two readings of the clock); the payload an add or update inserts.
\<close>

definition applyOnce :: "services \<Rightarrow> clock \<Rightarrow> store \<Rightarrow> GraphUpdateParams \<Rightarrow> store" where
  "applyOnce svc clk st args = snd (graphUpdate svc clk st args)"

definition applyTwice :: "services \<Rightarrow> clock \<Rightarrow> clock \<Rightarrow> store \<Rightarrow> GraphUpdateParams \<Rightarrow> store" where
  "applyTwice svc clk1 clk2 st args = applyOnce svc clk2 (applyOnce svc clk1 st args) args"

definition upsertedPayload :: "GraphUpdateParams \<Rightarrow> payload option" where
  "upsertedPayload args =
     (case gup_operation args of
        add_edge \<Rightarrow> map_option (edgePayload args) (gup_edge args)
      | add_node \<Rightarrow> map_option (nodePayload args) (gup_node args)
      | update_node \<Rightarrow> map_option (nodePayload args) (gup_node args)
      | _ \<Rightarrow> None)"

text \<open>The edge from A to B of the scenario.\<close>

definition edgeAB :: GraphEdge where
  "edgeAB = exampleEdge ''A'' ''B'' IMPORTS (Some 3) None"

text \<open>
  Branch parameters for the project \<open>/p\<close>, an existing analysis branch for the git branch
  \<open>feature/x\<close>, and a store that holds its record.
\<close>

definition branchParams :: "BranchOperation \<Rightarrow> string option \<Rightarrow> BranchManageParams" where
  "branchParams operation g =
     \<lparr>bmp_project_path = ''/p'', bmp_operation = operation, bmp_git_branch = g,
      bmp_base_git_branch = None, bmp_analysis_branch_id = None,
      bmp_new_base_snapshot_id = None\<rparr>"

definition existingBranch :: AnalysisBranch where
  "existingBranch =
     \<lparr>branch_id = ''ab-feature-x-aaaaaa'', branch_git_branch = ''feature/x'',
      base_git_branch = ''main'', fork_point_commit = [], snapshots = [''snap-1''],
      branch_created_at = ''2024-12-31T12:00:00.000Z'', updated_at = ''2024-12-31T12:00:00.000Z''\<rparr>"

definition branchStore :: store where
  "branchStore =
     [(NumKey 1, BranchP \<lparr>bp_branch = existingBranch, bp_project_path = ''/p'',
                          bp_text = branchSearchText ''feature/x'' ''main'' ''/p''\<rparr>)]"

text \<open>
  Whether the store holds a branch record of the project for the git branch; the base
  branch of a call after the default; the record that \<open>create\<close> inserts.
\<close>

definition hasBranch :: "store \<Rightarrow> string \<Rightarrow> string \<Rightarrow> bool" where
  "hasBranch st project g =
     list_ex (\<lambda>(k, p). case p of
                BranchP bp \<Rightarrow> bp_project_path bp = project \<and> branch_git_branch (bp_branch bp) = g
              | _ \<Rightarrow> False) st"

definition baseOf :: "BranchManageParams \<Rightarrow> string" where
  "baseOf args = (case bmp_base_git_branch args of None \<Rightarrow> ''main'' | Some b \<Rightarrow> b)"

definition branchRecord :: "clock \<Rightarrow> BranchManageParams \<Rightarrow> string \<Rightarrow> payload" where
  "branchRecord clk args g =
     BranchP \<lparr>bp_branch = newBranch clk g (baseOf args), bp_project_path = bmp_project_path args,
              bp_text = branchSearchText g (baseOf args) (bmp_project_path args)\<rparr>"


section \<open>Rounding\<close>

text \<open>
  \<open>binary64\<close> moves a number by at most half a unit in the last place, which is at most
  the number times \<open>2 powi (- 53)\<close>.
\<close>

lemma round_half_even_error: "\<bar>rat_of_int (round_half_even y) - y\<bar> \<le> 1 / 2"
proof -
  have "rat_of_int \<lfloor>y\<rfloor> \<le> y" "y < rat_of_int \<lfloor>y\<rfloor> + 1" by linarith+
  then show ?thesis by (auto simp: round_half_even_def Let_def)
qed

lemma exponent_of_bounds:
  assumes x: "0 < x"
  shows "2 powi exponent_of x \<le> x \<and> x < 2 powi (exponent_of x + 1)"
proof -
  obtain p q where pq: "quotient_of x = (p, q)" by (cases "quotient_of x")
  have q: "0 < q" using quotient_of_denom_pos[OF pq] .
  have xe: "x = rat_of_int p / rat_of_int q" using quotient_of_div[OF pq] .
  have p: "0 < p" using x q xe by (simp add: zero_less_divide_iff)
  define a where "a = bitlen p"
  define b where "b = bitlen q"
  have a1: "1 \<le> a" using p bitlen_eq_zero_iff[of p] bitlen_nonneg[of p] by (simp add: a_def) 
  have b1: "1 \<le> b" using q bitlen_eq_zero_iff[of q] bitlen_nonneg[of q] by (simp add: b_def)
  have pb: "(2::int) ^ nat (a - 1) \<le> p" "p < 2 ^ nat a"
    using bitlen_bounds[OF p] by (simp_all add: a_def)
  have qb: "(2::int) ^ nat (b - 1) \<le> q" "q < 2 ^ nat b"
    using bitlen_bounds[OF q] by (simp_all add: b_def)
  have pr: "(2::rat) powi (a - 1) \<le> rat_of_int p" "rat_of_int p < 2 powi a"
  proof -
    have "rat_of_int (2 ^ nat (a - 1)) \<le> rat_of_int p" using pb(1) by (simp only: of_int_le_iff)
    then show "(2::rat) powi (a - 1) \<le> rat_of_int p" using a1 by (simp add: power_int_def)
    have "rat_of_int p < rat_of_int (2 ^ nat a)" using pb(2) by (simp only: of_int_less_iff)
    then show "rat_of_int p < 2 powi a" using a1 by (simp add: power_int_def)
  qed
  have qr: "(2::rat) powi (b - 1) \<le> rat_of_int q" "rat_of_int q < 2 powi b"
  proof -
    have "rat_of_int (2 ^ nat (b - 1)) \<le> rat_of_int q" using qb(1) by (simp only: of_int_le_iff)
    then show "(2::rat) powi (b - 1) \<le> rat_of_int q" using b1 by (simp add: power_int_def)
    have "rat_of_int q < rat_of_int (2 ^ nat b)" using qb(2) by (simp only: of_int_less_iff)
    then show "rat_of_int q < 2 powi b" using b1 by (simp add: power_int_def)
  qed
  have q0: "0 < rat_of_int q" using q by simp
  have p0: "0 < rat_of_int p" using p by simp
  have pos: "\<And>e. 0 < (2::rat) powi e" by simp
  have lo: "(2::rat) powi (a - b - 1) < x"
  proof -
    have "(2::rat) powi (a - b - 1) = 2 powi (a - 1) / 2 powi b"
      by (simp add: power_int_diff[symmetric] algebra_simps)
    also have "\<dots> \<le> rat_of_int p / 2 powi b" using pr(1) pos[of b] by (simp add: divide_right_mono)
    also have "\<dots> < rat_of_int p / rat_of_int q" using qr(2) p0 q0 by (simp add: divide_strict_left_mono)
    finally show ?thesis by (simp add: xe)
  qed
  have hi: "x < (2::rat) powi (a - b + 1)"
  proof -
    have "x = rat_of_int p / rat_of_int q" by (rule xe)
    also have "\<dots> < 2 powi a / rat_of_int q" using pr(2) q0 by (simp add: divide_strict_right_mono)
    also have "\<dots> \<le> 2 powi a / 2 powi (b - 1)"
      by (rule frac_le) (use qr(1) in simp_all)
    also have "\<dots> = 2 powi (a - b + 1)"
      by (simp add: power_int_diff[symmetric] algebra_simps)
    finally show ?thesis .
  qed
  show ?thesis
  proof (cases "(2::rat) powi (a - b) \<le> x")
    case True
    then have "exponent_of x = a - b" by (simp add: exponent_of_def pq a_def b_def Let_def)
    then show ?thesis using True hi by simp
  next
    case False
    then have e: "exponent_of x = a - b - 1" by (simp add: exponent_of_def pq a_def b_def Let_def)
    have "x < 2 powi (a - b)" using False by simp
    then show ?thesis using lo by (simp add: e)
  qed
qed

lemma binary64_error: "\<bar>binary64 x - x\<bar> \<le> \<bar>x\<bar> / 2 ^ 53"
proof (cases "x = 0")
  case True
  then show ?thesis by (simp add: binary64_def)
next
  case False
  define e where "e = exponent_of \<bar>x\<bar>"
  define ulp where "ulp = (2::rat) powi (e - 52)"
  have ulp: "0 < ulp" by (simp add: ulp_def)
  have b: "binary64 x = rat_of_int (round_half_even (x / ulp)) * ulp"
    using False by (simp add: binary64_def ulp_def e_def Let_def)
  have "binary64 x - x = (rat_of_int (round_half_even (x / ulp)) - x / ulp) * ulp"
    using ulp by (simp add: b algebra_simps)
  then have "\<bar>binary64 x - x\<bar> = \<bar>rat_of_int (round_half_even (x / ulp)) - x / ulp\<bar> * ulp"
    using ulp by (simp add: abs_mult)
  also have "\<dots> \<le> 1 / 2 * ulp"
    using round_half_even_error[of "x / ulp"] ulp by (intro mult_right_mono) simp_all
  also have "\<dots> = 2 powi e / 2 ^ 53"
  proof -
    have "(2::rat) powi (e - 52) = 2 powi e / 2 powi 52" by (simp add: power_int_diff)
    then show ?thesis by (simp add: ulp_def)
  qed
  also have "\<dots> \<le> \<bar>x\<bar> / 2 ^ 53"
    using exponent_of_bounds[of "\<bar>x\<bar>"] False by (simp add: e_def divide_right_mono)
  finally show ?thesis .
qed

text \<open>
  The error of the weighted sum: under a rounding with that relative error, the value
  that \<open>Math.round\<close> receives differs from the exact weighted sum times 100 by at most
  \<open>2 powi (- 42)\<close>.
\<close>

lemma rounding_error_bound:
  fixes fl :: "rat \<Rightarrow> rat"
  assumes R: "\<And>x. \<bar>fl x - x\<bar> \<le> \<bar>x\<bar> / 2 ^ 53" and x: "\<bar>x\<bar> \<le> B"
  shows "\<bar>fl x - x\<bar> \<le> B * (1 / 2 ^ 53)"
proof -
  have "\<bar>x\<bar> / 2 ^ 53 \<le> B / 2 ^ 53" using x by (simp add: divide_right_mono)
  then show ?thesis using R[of x] by simp
qed

lemma product_error:
  fixes a b a0 b0 :: rat
  assumes a: "\<bar>a - a0\<bar> \<le> ea" and b: "\<bar>b - b0\<bar> \<le> eb" and a0: "\<bar>a0\<bar> \<le> A" and b0: "\<bar>b0\<bar> \<le> B"
  shows "\<bar>a * b - a0 * b0\<bar> \<le> A * eb + B * ea + ea * eb"
proof -
  have "a * b - a0 * b0 = a0 * (b - b0) + b0 * (a - a0) + (a - a0) * (b - b0)"
    by (simp add: algebra_simps)
  then have "\<bar>a * b - a0 * b0\<bar> \<le> \<bar>a0 * (b - b0)\<bar> + \<bar>b0 * (a - a0)\<bar> + \<bar>(a - a0) * (b - b0)\<bar>"
    by linarith
  moreover have "\<bar>a0 * (b - b0)\<bar> \<le> A * eb"
    unfolding abs_mult using a0 b by (intro mult_mono) simp_all
  moreover have "\<bar>b0 * (a - a0)\<bar> \<le> B * ea"
    unfolding abs_mult using b0 a by (intro mult_mono) simp_all
  moreover have "\<bar>(a - a0) * (b - b0)\<bar> \<le> ea * eb"
    unfolding abs_mult using a b by (intro mult_mono) simp_all
  ultimately show ?thesis by linarith
qed

lemma weighted_sum_error:
  fixes fl :: "rat \<Rightarrow> rat" and c b f :: rat
  assumes R: "\<And>x. \<bar>fl x - x\<bar> \<le> \<bar>x\<bar> / 2 ^ 53"
    and c: "0 \<le> c" "c \<le> 1" and b: "0 \<le> b" "b \<le> 1" and f: "f = 9 / 10 \<or> f = 7 / 10"
  defines "cov \<equiv> fl c" and "fresh \<equiv> fl f" and "conf \<equiv> fl (1 - fl b)"
  defines "Y \<equiv> fl (fl (fl (fl (fl (cov * fl (4 / 10)) + fl (fresh * fl (3 / 10)))
                                + fl (conf * fl (3 / 10))) * 10) * 10)"
  shows "\<bar>cov - c\<bar> \<le> 1 / 2 ^ 53" and "\<bar>fresh - f\<bar> \<le> 1 / 2 ^ 53"
    and "\<bar>conf - (1 - b)\<bar> \<le> 3 / 2 ^ 53"
    and "\<bar>Y - (4 / 10 * c + 3 / 10 * f + 3 / 10 * (1 - b)) * 10 * 10\<bar> \<le> 1 / 2 ^ 42"
proof -
  define u :: rat where "u = 1 / 2 ^ 53"
  have u: "0 < u" "u \<le> 1 / 1000" by (simp_all add: u_def)
  have uu: "u * u \<le> u / 1000" using u mult_left_mono[of u "1 / 1000" u] by simp
  have E: "\<And>x B. \<bar>x\<bar> \<le> B \<Longrightarrow> \<bar>fl x - x\<bar> \<le> B * u"
    unfolding u_def using R by (rule rounding_error_bound)
  have f1: "0 \<le> f" "f \<le> 1" using f by auto
  have cov: "\<bar>cov - c\<bar> \<le> u" unfolding cov_def using E[of c 1] c by simp
  have fresh: "\<bar>fresh - f\<bar> \<le> u" unfolding fresh_def using E[of f 1] f1 by simp
  define w4 where "w4 = fl (4 / 10)"
  define w3 where "w3 = fl (3 / 10)"
  have w4: "\<bar>w4 - 4 / 10\<bar> \<le> u" unfolding w4_def using E[of "4 / 10" 1] by simp
  have w3: "\<bar>w3 - 3 / 10\<bar> \<le> u" unfolding w3_def using E[of "3 / 10" 1] by simp
  define d where "d = fl b"
  have d: "\<bar>d - b\<bar> \<le> u" unfolding d_def using E[of b 1] b by simp
  have "\<bar>1 - d\<bar> \<le> 2" using d b u by linarith
  then have "\<bar>fl (1 - d) - (1 - d)\<bar> \<le> 2 * u" by (rule E)
  then have conf: "\<bar>conf - (1 - b)\<bar> \<le> 3 * u" unfolding conf_def d_def[symmetric] using d by linarith
  define A1 where "A1 = fl (cov * w4)"
  define B1 where "B1 = fl (fresh * w3)"
  define C1 where "C1 = fl (conf * w3)"
  have A1: "\<bar>A1 - c * (4 / 10)\<bar> \<le> 3 * u"
  proof -
    have p: "\<bar>cov * w4 - c * (4 / 10)\<bar> \<le> 1 * u + 4 / 10 * u + u * u"
      by (rule product_error[OF cov w4]) (use c in simp_all)
    then have "\<bar>cov * w4\<bar> \<le> 1" using c u uu by linarith
    then have "\<bar>A1 - cov * w4\<bar> \<le> 1 * u" unfolding A1_def by (rule E)
    then show ?thesis using p u uu by linarith
  qed
  have B1: "\<bar>B1 - f * (3 / 10)\<bar> \<le> 3 * u"
  proof -
    have p: "\<bar>fresh * w3 - f * (3 / 10)\<bar> \<le> 1 * u + 3 / 10 * u + u * u"
      by (rule product_error[OF fresh w3]) (use f1 in simp_all)
    then have "\<bar>fresh * w3\<bar> \<le> 1" using f1 u uu by linarith
    then have "\<bar>B1 - fresh * w3\<bar> \<le> 1 * u" unfolding B1_def by (rule E)
    then show ?thesis using p u uu by linarith
  qed
  define k where "k = 1 - b"
  have k: "0 \<le> k" "k \<le> 1" using b by (simp_all add: k_def)
  have confk: "\<bar>conf - k\<bar> \<le> 3 * u" using conf by (simp add: k_def)
  have C1: "\<bar>C1 - k * (3 / 10)\<bar> \<le> 3 * u"
  proof -
    have "\<bar>conf * w3 - k * (3 / 10)\<bar> \<le> 1 * u + 3 / 10 * (3 * u) + 3 * u * u"
      by (rule product_error[OF confk w3]) (use k in simp_all)
    then have p: "\<bar>conf * w3 - k * (3 / 10)\<bar> \<le> 1 * u + 3 / 10 * (3 * u) + 3 * (u * u)"
      by simp
    then have "\<bar>conf * w3\<bar> \<le> 1" using k u uu by linarith
    then have "\<bar>C1 - conf * w3\<bar> \<le> 1 * u" unfolding C1_def by (rule E)
    then show ?thesis using p u uu by linarith
  qed
  define S1 where "S1 = fl (A1 + B1)"
  have S1: "\<bar>S1 - (c * (4 / 10) + f * (3 / 10))\<bar> \<le> 7 * u"
  proof -
    have "\<bar>A1 + B1\<bar> \<le> 1" using A1 B1 c f u by auto
    then have "\<bar>S1 - (A1 + B1)\<bar> \<le> 1 * u" unfolding S1_def by (rule E)
    then show ?thesis using A1 B1 by linarith
  qed
  define S2 where "S2 = fl (S1 + C1)"
  define X where "X = c * (4 / 10) + f * (3 / 10) + k * (3 / 10)"
  have X: "0 \<le> X" "X \<le> 97 / 100" using c k f by (auto simp: X_def)
  have S2: "\<bar>S2 - X\<bar> \<le> 11 * u"
  proof -
    have e: "\<bar>S1 + C1 - X\<bar> \<le> 10 * u" using S1 C1 unfolding X_def by linarith
    then have "\<bar>S1 + C1\<bar> \<le> 1" using X u by linarith
    then have "\<bar>S2 - (S1 + C1)\<bar> \<le> 1 * u" unfolding S2_def by (rule E)
    then show ?thesis using e by linarith
  qed
  define Y1 where "Y1 = fl (S2 * 10)"
  have Y1: "\<bar>Y1 - X * 10\<bar> \<le> 120 * u"
  proof -
    have "\<bar>S2 * 10\<bar> \<le> 10" using S2 X u by linarith
    then have "\<bar>Y1 - S2 * 10\<bar> \<le> 10 * u" unfolding Y1_def by (rule E)
    then show ?thesis using S2 by linarith
  qed
  have Yd: "Y = fl (Y1 * 10)"
    by (simp add: Y_def Y1_def S2_def S1_def A1_def B1_def C1_def w4_def w3_def)
  have Y: "\<bar>Y - X * 10 * 10\<bar> \<le> 1300 * u"
  proof -
    have "\<bar>Y1 * 10\<bar> \<le> 100" using Y1 X u by linarith
    then have "\<bar>Y - Y1 * 10\<bar> \<le> 100 * u" unfolding Yd by (rule E)
    then show ?thesis using Y1 by linarith
  qed
  show "\<bar>cov - c\<bar> \<le> 1 / 2 ^ 53" using cov by (simp add: u_def)
  show "\<bar>fresh - f\<bar> \<le> 1 / 2 ^ 53" using fresh by (simp add: u_def)
  show "\<bar>conf - (1 - b)\<bar> \<le> 3 / 2 ^ 53" using conf by (simp add: u_def)
  have "1300 * u \<le> 1 / 2 ^ 42" by (simp add: u_def)
  moreover have "(4 / 10 * c + 3 / 10 * f + 3 / 10 * (1 - b)) * 10 * 10 = X * 10 * 10"
    by (simp add: X_def k_def algebra_simps)
  ultimately show "\<bar>Y - (4 / 10 * c + 3 / 10 * f + 3 / 10 * (1 - b)) * 10 * 10\<bar> \<le> 1 / 2 ^ 42"
    using Y by linarith
qed

text \<open>
  A number with denominator \<open>2 t\<close> that is not an integer is at least \<open>1 / (2 t)\<close> away
  from the integers; so a value within \<open>2 powi (- 42)\<close> of a sum with denominator
  \<open>t < 2 ^ 41\<close> rounds as the sum does, unless the sum lies exactly at a half.
\<close>

lemma half_gap:
  fixes N :: int and t :: nat and z :: rat
  assumes t: "0 < t" and z: "z = rat_of_int N / (2 * rat_of_nat t)" and nz: "frac z \<noteq> 0"
  shows "rat_of_int \<lfloor>z\<rfloor> + 1 / (2 * rat_of_nat t) \<le> z \<and>
         z + 1 / (2 * rat_of_nat t) \<le> rat_of_int \<lfloor>z\<rfloor> + 1"
proof -
  define D where "D = 2 * int t"
  define m where "m = \<lfloor>z\<rfloor>"
  have D: "0 < D" using t by (simp add: D_def)
  have Dr: "rat_of_int D = 2 * rat_of_nat t" by (simp add: D_def)
  have Dp: "0 < rat_of_int D" using D by simp
  have zD: "z * rat_of_int D = rat_of_int N" using t by (simp add: z Dr)
  have "rat_of_int m \<le> z" "z < rat_of_int m + 1" unfolding m_def by linarith+
  moreover have "z - rat_of_int m \<noteq> 0" using nz unfolding frac_def m_def .
  ultimately have lt: "rat_of_int m < z" "z < rat_of_int (m + 1)" by simp_all
  have "rat_of_int m * rat_of_int D < z * rat_of_int D"
    using lt(1) Dp by (simp only: mult_less_cancel_right_pos)
  then have "rat_of_int (m * D) < rat_of_int N" by (simp add: zD)
  then have "m * D < N" by (simp only: of_int_less_iff)
  then have "m * D + 1 \<le> N" by simp
  then have "rat_of_int (m * D + 1) \<le> rat_of_int N" by (simp only: of_int_le_iff)
  then have "rat_of_int m * rat_of_int D + 1 \<le> z * rat_of_int D" by (simp add: zD)
  then have lo: "rat_of_int m + 1 / rat_of_int D \<le> z" using Dp by (simp add: field_simps)
  have "z * rat_of_int D < rat_of_int (m + 1) * rat_of_int D"
    using lt(2) Dp by (simp only: mult_less_cancel_right_pos)
  then have "rat_of_int N < rat_of_int ((m + 1) * D)" by (simp add: zD)
  then have "N < (m + 1) * D" by (simp only: of_int_less_iff)
  then have "N + 1 \<le> (m + 1) * D" by simp
  then have "rat_of_int (N + 1) \<le> rat_of_int ((m + 1) * D)" by (simp only: of_int_le_iff)
  then have "z * rat_of_int D + 1 \<le> (rat_of_int m + 1) * rat_of_int D" by (simp add: zD)
  then have hi: "z + 1 / rat_of_int D \<le> rat_of_int m + 1" using Dp by (simp add: field_simps)
  show ?thesis using lo hi by (simp add: Dr m_def)
qed

lemma frac_half_iff: "frac (w::rat) = 1 / 2 \<longleftrightarrow> frac (w + 1 / 2) = 0"
proof
  assume "frac w = 1 / 2"
  then have "w + 1 / 2 = rat_of_int (\<lfloor>w\<rfloor> + 1)" by (simp add: frac_def)
  then show "frac (w + 1 / 2) = 0" by (simp only: frac_of_int)
next
  assume "frac (w + 1 / 2) = 0"
  then have "w + 1 / 2 \<in> \<int>" by (simp add: frac_eq_0_iff)
  then obtain j where "w + 1 / 2 = rat_of_int j" by (auto elim: Ints_cases)
  then have "w - 1 / 2 = rat_of_int (j - 1)" by simp
  then have "w - 1 / 2 \<in> \<int>" by (simp only: Ints_of_int)
  then have "w - 1 / 2 \<in> \<int> \<and> (0::rat) \<le> 1 / 2 \<and> (1::rat) / 2 < 1" by simp
  then show "frac w = 1 / 2" by (simp only: frac_unique_iff)
qed

lemma Math_round_near:
  fixes Y w :: rat and N :: int and t :: nat
  assumes Y: "\<bar>Y - w\<bar> \<le> 1 / 2 ^ 42"
    and w: "w + 1 / 2 = rat_of_int N / (2 * rat_of_nat t)" and t: "0 < t" "t < 2 ^ 41"
  shows "(frac w \<noteq> 1 / 2 \<longrightarrow> Math_round Y = round w) \<and>
         (frac w = 1 / 2 \<longrightarrow> Math_round Y = round w \<or> Math_round Y = round w - 1)"
proof (intro conjI impI)
  have g: "1 / 2 ^ 42 < 1 / (2 * rat_of_nat t)"
  proof -
    have "rat_of_nat t < rat_of_nat (2 ^ 41)" using t(2) by (simp only: of_nat_less_iff)
    then have "2 * rat_of_nat t < 2 ^ 42" by simp
    then show ?thesis using t(1) by (simp add: field_simps)
  qed
  {
    assume "frac w \<noteq> 1 / 2"
    then have "frac (w + 1 / 2) \<noteq> 0" using frac_half_iff[of w] by blast
    from half_gap[OF t(1) w this] g Y
    have "rat_of_int \<lfloor>w + 1 / 2\<rfloor> \<le> Y + 1 / 2" "Y + 1 / 2 < rat_of_int \<lfloor>w + 1 / 2\<rfloor> + 1"
      by linarith+
    then have "\<lfloor>Y + 1 / 2\<rfloor> = \<lfloor>w + 1 / 2\<rfloor>" by (rule floor_unique)
    then show "Math_round Y = round w" by (simp add: Math_round_def round_def)
  }
  {
    assume "frac w = 1 / 2"
    then have "frac (w + 1 / 2) = 0" using frac_half_iff[of w] by blast
    then have "w + 1 / 2 - rat_of_int \<lfloor>w + 1 / 2\<rfloor> = 0" unfolding frac_def .
    then have e: "w + 1 / 2 = rat_of_int \<lfloor>w + 1 / 2\<rfloor>" by simp
    define j where "j = \<lfloor>w + 1 / 2\<rfloor>"
    have small: "(1::rat) / 2 ^ 42 \<le> 1 / 4" by simp
    have e': "w + 1 / 2 = rat_of_int j" using e by (simp only: j_def)
    have "rat_of_int j - 1 \<le> Y + 1 / 2" "Y + 1 / 2 < rat_of_int j + 1"
      using e' Y small by linarith+
    then have "rat_of_int (j - 1) \<le> Y + 1 / 2" "Y + 1 / 2 < rat_of_int (j + 1)"
      by simp_all
    then have "j - 1 \<le> \<lfloor>Y + 1 / 2\<rfloor>" "\<lfloor>Y + 1 / 2\<rfloor> < j + 1"
      by (simp_all only: le_floor_iff floor_less_iff)
    then show "Math_round Y = round w \<or> Math_round Y = round w - 1"
      unfolding Math_round_def round_def j_def[symmetric] by linarith
  }
qed

lemma Math_round_range:
  assumes "\<bar>Y - w\<bar> \<le> 1 / 2 ^ 42" "21 \<le> w" "w \<le> 97"
  shows "21 \<le> Math_round Y \<and> Math_round Y \<le> 97"
proof -
  have small: "(1::rat) / 2 ^ 42 \<le> 1 / 4" by simp
  have "21 \<le> Y + 1 / 2" "Y + 1 / 2 < 98" using assms small by linarith+
  then have "rat_of_int 21 \<le> Y + 1 / 2" "Y + 1 / 2 < rat_of_int 98" by simp_all
  then have "21 \<le> \<lfloor>Y + 1 / 2\<rfloor>" "\<lfloor>Y + 1 / 2\<rfloor> < 98" by (simp_all only: le_floor_iff floor_less_iff)
  then show ?thesis by (simp add: Math_round_def)
qed

section \<open>The merge: counts and findings\<close>

lemma countStatuses_counts:
  "countStatuses rs (a, b, c, d) =
     (a + length (filter (\<lambda>r. status r = PRESERVED) rs),
      b + length (filter (\<lambda>r. status r = RELOCATED) rs),
      c + length (filter (\<lambda>r. status r = STALE) rs),
      d + length (filter (\<lambda>r. status r = ORPHANED) rs))"
proof (induction rs arbitrary: a b c d)
  case Nil
  show ?case by simp
next
  case (Cons r rs)
  show ?case by (cases "status r") (simp_all add: Cons.IH)
qed

lemma status_partition:
  "length (filter (\<lambda>r. status r = PRESERVED) rs) + length (filter (\<lambda>r. status r = RELOCATED) rs)
   + length (filter (\<lambda>r. status r = STALE) rs) + length (filter (\<lambda>r. status r = ORPHANED) rs)
   = length rs"
proof (induction rs)
  case Nil
  show ?case by simp
next
  case (Cons r rs)
  then show ?case by (cases "status r") simp_all
qed

lemma allFindings_distinct:
  assumes "distinct (map fst rr)"
  shows "allFindings rr delta = map fst (filter survives rr) @ delta"
proof -
  have "filter (\<lambda>id. case map_of rr id of None \<Rightarrow> False
                     | Some r \<Rightarrow> status r = PRESERVED \<or> status r = RELOCATED) (map fst rr)
        = map fst (filter survives rr)"
    unfolding filter_map
  proof (rule arg_cong[where f="map fst"], rule filter_cong[OF refl])
    fix e assume "e \<in> set rr"
    then have "map_of rr (fst e) = Some (snd e)"
      using assms map_of_is_SomeI[of rr "fst e" "snd e"] by simp
    then show "((\<lambda>id. case map_of rr id of None \<Rightarrow> False
                     | Some r \<Rightarrow> status r = PRESERVED \<or> status r = RELOCATED) \<circ> fst) e = survives e"
      by (simp add: survives_def)
  qed
  then show ?thesis by (simp add: allFindings_def)
qed

lemma snapshotMerge_Inr:
  assumes "snapshotMerge fl svc clk st args = Inr (res, st')"
  shows "res = mergeResult fl clk args \<and>
         st' = store_insert (NumKey (generateNumericVectorId clk 0 0))
                 (SnapshotP \<lparr>sp_snapshot = mergedSnapshot fl clk args,
                              sp_text = buildSnapshotSearchText (mergedSnapshot fl clk args)\<rparr>) st"
  using assms
  by (auto simp: snapshotMerge_def Let_def split: option.splits getStore_outcome.splits if_splits)

lemma snapshotMerge_succeeds:
  assumes "vectorStoreManager svc = Some StoreFound" "embeddingManager svc = Some True"
    "embed_throws svc (buildSnapshotSearchText (mergedSnapshot fl clk args)) = None"
    "insert_throws svc (NumKey (generateNumericVectorId clk 0 0)) = None"
  shows "\<exists>res st'. snapshotMerge fl svc clk st args = Inr (res, st')"
  using assms by (simp add: snapshotMerge_def Let_def)

lemma mergeResult_fields:
  "findings_preserved (mergeResult fl clk args) = length (filter (\<lambda>r. status r = PRESERVED) (map snd (smp_relocation_results args)))"
  "findings_relocated (mergeResult fl clk args) = length (filter (\<lambda>r. status r = RELOCATED) (map snd (smp_relocation_results args)))"
  "findings_stale (mergeResult fl clk args) = length (filter (\<lambda>r. status r = STALE) (map snd (smp_relocation_results args)))"
  "findings_orphaned (mergeResult fl clk args) = length (filter (\<lambda>r. status r = ORPHANED) (map snd (smp_relocation_results args)))"
  "findings_new (mergeResult fl clk args) = length (smp_delta_envelope_ids args)"
  "conflicts_resolved (mergeResult fl clk args) = 0"
  "mr_snapshot_id (mergeResult fl clk args) = generateSnapshotId clk (smp_target_commit args)"
  "mr_trust_score (mergeResult fl clk args) =
     computeMixedTrustScore fl (findings_preserved (mergeResult fl clk args))
       (findings_relocated (mergeResult fl clk args)) (findings_stale (mergeResult fl clk args))
       (findings_orphaned (mergeResult fl clk args)) (length (smp_delta_envelope_ids args))"
  by (simp_all add: mergeResult_def countStatuses_counts Let_def)

lemma mergedSnapshot_fields:
  "snapshot_id (mergedSnapshot fl clk args) = generateSnapshotId clk (smp_target_commit args)"
  "findings (mergedSnapshot fl clk args) = allFindings (smp_relocation_results args) (smp_delta_envelope_ids args)"
  "provenance_chain (mergedSnapshot fl clk args) = [smp_baseline_snapshot_id args, generateSnapshotId clk (smp_target_commit args)]"
  "trust_score (mergedSnapshot fl clk args) = mr_trust_score (mergeResult fl clk args)"
  by (simp_all add: mergedSnapshot_def mergeResult_def countStatuses_counts Let_def)

lemma exampleMerge_ok_any:
  "\<exists>res st'. snapshotMerge fl exampleServices exampleClock st margs = Inr (res, st')"
  by (rule snapshotMerge_succeeds) (simp_all add: exampleServices_def)

lemma exampleCreate_ok:
  "\<exists>st'. snapshotCreate exampleServices exampleClock st cargs
            = Inr (createdSnapshot exampleClock cargs, True, st')"
  by (simp add: snapshotCreate_def exampleServices_def Let_def)

lemma exampleKey: "generateNumericVectorId exampleClock 0 0 = 1735732800000007"
  by (simp add: generateNumericVectorId_def exampleClock_def)

lemma exampleSnapshotId:
  "generateSnapshotId exampleClock ''abcdef0123'' = ''snap-20250101120000-abcdef0''"
  by (simp add: generateSnapshotId_def exampleClock_def)


section \<open>The trust score\<close>

lemma computeMixedTrustScore_nonzero:
  assumes "p + r + s + q + n \<noteq> 0"
  shows "computeMixedTrustScore fl p r s q n =
     (let cov = fl (rat_of_nat (p + r + n) / rat_of_nat (p + r + s + q + n));
          fresh = (if n > 0 then fl (9 / 10) else fl (7 / 10));
          conf = fl (1 - fl (rat_of_nat (s + q) / rat_of_nat (p + r + s + q + n)));
          ov = fl (rat_of_int (Math_round
                   (fl (fl (fl (fl (fl (cov * fl (4 / 10)) + fl (fresh * fl (3 / 10)))
                                + fl (conf * fl (3 / 10))) * 10) * 10)))
                 / 10)
      in \<lparr>overall = ov, level = trustLevel ov,
           components = \<lparr>coverage = cov, freshness = fresh, confidence = conf\<rparr>\<rparr>)"
  unfolding computeMixedTrustScore_def Let_def using assms by (simp only: if_False)

lemma computeMixedTrustScore_zero:
  "computeMixedTrustScore fl 0 0 0 0 0 =
     \<lparr>overall = 10, level = HIGH,
      components = \<lparr>coverage = 1, freshness = 1, confidence = 1\<rparr>\<rparr>"
  by (simp add: computeMixedTrustScore_def)

lemma spec_values_in_range:
  assumes t: "0 < p + r + s + q + n"
  shows "0 \<le> specCoverage p r s q n" "specCoverage p r s q n \<le> 1"
    "0 \<le> rat_of_nat (s + q) / rat_of_nat (p + r + s + q + n)"
    "rat_of_nat (s + q) / rat_of_nat (p + r + s + q + n) \<le> 1"
    "specFreshness n = 9 / 10 \<or> specFreshness n = 7 / 10"
    "21 \<le> specWeighted p r s q n * 10" "specWeighted p r s q n * 10 \<le> 97"
proof -
  define tot where "tot = p + r + s + q + n"
  have tn: "0 < tot" unfolding tot_def using t .
  have tp: "0 < rat_of_nat tot" using tn by (simp only: of_nat_0_less_iff)
  have a: "rat_of_nat (p + r + n) \<le> rat_of_nat tot" unfolding tot_def by simp
  have b: "rat_of_nat (s + q) \<le> rat_of_nat tot" unfolding tot_def by simp
  show c0: "0 \<le> specCoverage p r s q n" by (simp add: specCoverage_def)
  show c1: "specCoverage p r s q n \<le> 1"
    unfolding specCoverage_def tot_def[symmetric] using a tp by (simp add: divide_le_eq)
  show b0: "0 \<le> rat_of_nat (s + q) / rat_of_nat (p + r + s + q + n)" by simp
  show b1: "rat_of_nat (s + q) / rat_of_nat (p + r + s + q + n) \<le> 1"
    unfolding tot_def[symmetric] using b tp by (simp add: divide_le_eq)
  show f: "specFreshness n = 9 / 10 \<or> specFreshness n = 7 / 10" by (simp add: specFreshness_def)
  have k: "0 \<le> specConfidence p r s q n" "specConfidence p r s q n \<le> 1"
    using b0 b1 by (simp_all add: specConfidence_def)
  have w: "specWeighted p r s q n * 10 =
             40 * specCoverage p r s q n + 30 * specFreshness n + 30 * specConfidence p r s q n"
    by (simp add: specWeighted_def algebra_simps)
  show "21 \<le> specWeighted p r s q n * 10" unfolding w using c0 k f by auto
  show "specWeighted p r s q n * 10 \<le> 97" unfolding w using c1 k f by auto
qed

lemma spec_weighted_fraction:
  assumes t: "0 < p + r + s + q + n"
  shows "\<exists>N. specWeighted p r s q n * 10 + 1 / 2 =
               rat_of_int N / (2 * rat_of_nat (p + r + s + q + n))"
proof -
  define tot where "tot = p + r + s + q + n"
  define M :: int where "M = (if 0 < n then 115 else 103)"
  have tn: "0 < tot" unfolding tot_def using t .
  have tp: "rat_of_nat tot \<noteq> 0" using tn by (simp only: of_nat_eq_0_iff)
  have f: "60 * specFreshness n + 61 = rat_of_int M" by (simp add: specFreshness_def M_def)
  have "specWeighted p r s q n * 10 + 1 / 2 =
          (80 * rat_of_nat (p + r + n) - 60 * rat_of_nat (s + q)
             + (60 * specFreshness n + 61) * rat_of_nat tot) / (2 * rat_of_nat tot)"
    unfolding specWeighted_def specCoverage_def specConfidence_def tot_def[symmetric]
    using tp by (simp add: field_simps)
  also have "\<dots> = rat_of_int (80 * int (p + r + n) - 60 * int (s + q) + M * int tot)
                     / (2 * rat_of_nat tot)"
    unfolding f by simp
  finally show ?thesis unfolding tot_def by blast
qed

lemma trust_score_in_doubles:
  assumes t: "0 < p + r + s + q + n"
  shows "\<exists>Y. overall (computeMixedTrustScore binary64 p r s q n)
               = binary64 (rat_of_int (Math_round Y) / 10) \<and>
             \<bar>Y - specWeighted p r s q n * 10\<bar> \<le> 1 / 2 ^ 42 \<and>
             \<bar>coverage (components (computeMixedTrustScore binary64 p r s q n))
                - specCoverage p r s q n\<bar> \<le> 1 / 2 ^ 53 \<and>
             \<bar>freshness (components (computeMixedTrustScore binary64 p r s q n))
                - specFreshness n\<bar> \<le> 1 / 2 ^ 53 \<and>
             \<bar>confidence (components (computeMixedTrustScore binary64 p r s q n))
                - specConfidence p r s q n\<bar> \<le> 3 / 2 ^ 53"
proof -
  have nz: "p + r + s + q + n \<noteq> 0" using t by simp
  define c where "c = specCoverage p r s q n"
  define b where "b = rat_of_nat (s + q) / rat_of_nat (p + r + s + q + n)"
  define f where "f = specFreshness n"
  note rg = spec_values_in_range[OF t, folded c_def b_def f_def]
  note e = weighted_sum_error[of binary64 c b f, OF binary64_error rg(1,2,3,4,5)]
  have fr: "(if 0 < n then binary64 (9 / 10) else binary64 (7 / 10)) = binary64 f"
    by (simp add: f_def specFreshness_def)
  have cd: "rat_of_nat (p + r + n) / rat_of_nat (p + r + s + q + n) = c"
    by (simp add: c_def specCoverage_def)
  have w: "specWeighted p r s q n * 10 = (4 / 10 * c + 3 / 10 * f + 3 / 10 * (1 - b)) * 10 * 10"
    by (simp add: specWeighted_def specConfidence_def c_def b_def f_def)
  have k: "specConfidence p r s q n = 1 - b" by (simp add: specConfidence_def b_def)
  show ?thesis
    unfolding computeMixedTrustScore_nonzero[OF nz] Let_def fr cd b_def[symmetric] w k
      c_def[symmetric] f_def[symmetric]
    using e by (intro exI[of _ "binary64 (binary64 (binary64 (binary64 (binary64 (binary64 c * binary64 (4 / 10))
              + binary64 (binary64 f * binary64 (3 / 10)))
              + binary64 (binary64 (1 - binary64 b) * binary64 (3 / 10))) * 10) * 10)"]) simp
qed

lemma overall_of_rounded:
  assumes m: "21 \<le> m" "m \<le> 97"
  shows "0 \<le> binary64 (rat_of_int m / 10) \<and> binary64 (rat_of_int m / 10) \<le> 10"
proof -
  have x: "21 / 10 \<le> rat_of_int m / 10" "rat_of_int m / 10 \<le> 97 / 10" using m by simp_all
  then have "\<bar>rat_of_int m / 10\<bar> \<le> 97 / 10" by linarith
  then have "\<bar>binary64 (rat_of_int m / 10) - rat_of_int m / 10\<bar> \<le> 97 / 10 * (1 / 2 ^ 53)"
    by (rule rounding_error_bound[OF binary64_error])
  moreover have "(97::rat) / 10 * (1 / 2 ^ 53) \<le> 1 / 10" by simp
  ultimately show ?thesis using x by linarith
qed


text \<open>
  Claim C1, as amended. The trust score is computed in double arithmetic. With \<open>tot\<close> the
  sum of the five counts and \<open>tot\<close> positive, the components differ from the exact
  \<open>(preserved + relocated + new) / tot\<close>, \<open>0.9\<close> or \<open>0.7\<close>, and
  \<open>1 - (stale + orphaned) / tot\<close> by at most \<open>2 powi (- 53)\<close>, \<open>2 powi (- 53)\<close> and
  \<open>3 / 2 ^ 53\<close>. For \<open>tot\<close> below \<open>2 ^ 41\<close> the overall value is the double nearest to the
  exact weighted sum \<open>(0.4 coverage + 0.3 freshness + 0.3 confidence) * 10\<close> rounded to
  one decimal, whenever that sum is not exactly halfway between two such numbers; when
  it is exactly halfway, the overall value is the double nearest to that rounding or to
  the number one tenth below it. The level is HIGH from 8, MEDIUM from 5 and LOW below;
  the overall value lies between 0 and 10 for all counts; and \<open>tot = 0\<close> gives 10 and
  HIGH. The score a successful merge returns is this function of the counts it reports,
  with the number of delta envelope ids as the count of new findings.
\<close>

theorem trust_score_rounding_and_bounds:
  fixes p r s q n :: nat
  defines "tot \<equiv> p + r + s + q + n"
  defines "ts \<equiv> computeMixedTrustScore binary64 p r s q n"
  shows "(0 < tot \<longrightarrow>
            \<bar>coverage (components ts) - specCoverage p r s q n\<bar> \<le> 1 / 2 ^ 53 \<and>
            \<bar>freshness (components ts) - specFreshness n\<bar> \<le> 1 / 2 ^ 53 \<and>
            \<bar>confidence (components ts) - specConfidence p r s q n\<bar> \<le> 3 / 2 ^ 53 \<and>
            (tot < 2 ^ 41 \<longrightarrow>
               (\<not> exactly_halfway (specWeighted p r s q n) \<longrightarrow>
                  overall ts = binary64 (specOverall p r s q n)) \<and>
               (exactly_halfway (specWeighted p r s q n) \<longrightarrow>
                  overall ts = binary64 (specOverall p r s q n) \<or>
                  overall ts = binary64 (specOverall p r s q n - 1 / 10))))
         \<and> level ts = (if overall ts \<ge> 8 then HIGH else if overall ts \<ge> 5 then MEDIUM else LOW)
         \<and> 0 \<le> overall ts \<and> overall ts \<le> 10
         \<and> (tot = 0 \<longrightarrow> overall ts = 10 \<and> level ts = HIGH)
         \<and> (\<forall>fl svc clk st args res st'.
               snapshotMerge fl svc clk st args = Inr (res, st') \<longrightarrow>
               findings_new res = length (smp_delta_envelope_ids args) \<and>
               mr_trust_score res =
                 computeMixedTrustScore fl (findings_preserved res) (findings_relocated res)
                   (findings_stale res) (findings_orphaned res) (findings_new res))"
proof -
  have lev: "level ts = (if overall ts \<ge> 8 then HIGH else if overall ts \<ge> 5 then MEDIUM else LOW)"
    by (simp add: ts_def computeMixedTrustScore_def trustLevel_def Let_def)
  have zero: "tot = 0 \<longrightarrow> overall ts = 10 \<and> level ts = HIGH"
  proof
    assume "tot = 0"
    then have "p = 0" "r = 0" "s = 0" "q = 0" "n = 0" by (simp_all add: tot_def)
    then show "overall ts = 10 \<and> level ts = HIGH"
      unfolding ts_def by (simp add: computeMixedTrustScore_zero)
  qed
  have pos: "0 < tot \<longrightarrow>
            (\<bar>coverage (components ts) - specCoverage p r s q n\<bar> \<le> 1 / 2 ^ 53 \<and>
            \<bar>freshness (components ts) - specFreshness n\<bar> \<le> 1 / 2 ^ 53 \<and>
            \<bar>confidence (components ts) - specConfidence p r s q n\<bar> \<le> 3 / 2 ^ 53 \<and>
            (tot < 2 ^ 41 \<longrightarrow>
               (\<not> exactly_halfway (specWeighted p r s q n) \<longrightarrow>
                  overall ts = binary64 (specOverall p r s q n)) \<and>
               (exactly_halfway (specWeighted p r s q n) \<longrightarrow>
                  overall ts = binary64 (specOverall p r s q n) \<or>
                  overall ts = binary64 (specOverall p r s q n - 1 / 10))))
            \<and> 0 \<le> overall ts \<and> overall ts \<le> 10"
  proof
    assume "0 < tot"
    then have t: "0 < p + r + s + q + n" by (simp add: tot_def)
    define w where "w = specWeighted p r s q n * 10"
    from trust_score_in_doubles[OF t] obtain Y where
      ov: "overall ts = binary64 (rat_of_int (Math_round Y) / 10)"
      and Y: "\<bar>Y - w\<bar> \<le> 1 / 2 ^ 42"
      and comps: "\<bar>coverage (components ts) - specCoverage p r s q n\<bar> \<le> 1 / 2 ^ 53"
        "\<bar>freshness (components ts) - specFreshness n\<bar> \<le> 1 / 2 ^ 53"
        "\<bar>confidence (components ts) - specConfidence p r s q n\<bar> \<le> 3 / 2 ^ 53"
      unfolding ts_def w_def by blast
    from spec_weighted_fraction[OF t] obtain N where
      N: "w + 1 / 2 = rat_of_int N / (2 * rat_of_nat tot)"
      unfolding w_def tot_def by blast
    have so: "specOverall p r s q n = rat_of_int (round w) / 10"
      by (simp add: specOverall_def round_1_decimal_def w_def)
    have hw: "exactly_halfway (specWeighted p r s q n) \<longleftrightarrow> frac w = 1 / 2"
      by (simp only: exactly_halfway_def w_def)
    have tie: "tot < 2 ^ 41 \<longrightarrow>
               (\<not> exactly_halfway (specWeighted p r s q n) \<longrightarrow>
                  overall ts = binary64 (specOverall p r s q n)) \<and>
               (exactly_halfway (specWeighted p r s q n) \<longrightarrow>
                  overall ts = binary64 (specOverall p r s q n) \<or>
                  overall ts = binary64 (specOverall p r s q n - 1 / 10))"
    proof
      assume small: "tot < 2 ^ 41"
      note near = Math_round_near[OF Y N \<open>0 < tot\<close> small]
      have a: "\<not> exactly_halfway (specWeighted p r s q n) \<longrightarrow>
                  overall ts = binary64 (specOverall p r s q n)"
        using near by (simp add: hw ov so)
      have "rat_of_int (round w - 1) / 10 = rat_of_int (round w) / 10 - 1 / 10"
        by (simp add: diff_divide_distrib)
      then have b: "exactly_halfway (specWeighted p r s q n) \<longrightarrow>
                  overall ts = binary64 (specOverall p r s q n) \<or>
                  overall ts = binary64 (specOverall p r s q n - 1 / 10)"
        using near unfolding hw ov so by metis
      show "(\<not> exactly_halfway (specWeighted p r s q n) \<longrightarrow>
                  overall ts = binary64 (specOverall p r s q n)) \<and>
               (exactly_halfway (specWeighted p r s q n) \<longrightarrow>
                  overall ts = binary64 (specOverall p r s q n) \<or>
                  overall ts = binary64 (specOverall p r s q n - 1 / 10))"
        using a b by (rule conjI)
    qed
    have rg: "21 \<le> w" "w \<le> 97"
      unfolding w_def using spec_values_in_range(6,7)[OF t] by simp_all
    have b: "0 \<le> overall ts \<and> overall ts \<le> 10"
      unfolding ov using Math_round_range[OF Y rg] by (intro overall_of_rounded) simp_all
    show "(\<bar>coverage (components ts) - specCoverage p r s q n\<bar> \<le> 1 / 2 ^ 53 \<and>
            \<bar>freshness (components ts) - specFreshness n\<bar> \<le> 1 / 2 ^ 53 \<and>
            \<bar>confidence (components ts) - specConfidence p r s q n\<bar> \<le> 3 / 2 ^ 53 \<and>
            (tot < 2 ^ 41 \<longrightarrow>
               (\<not> exactly_halfway (specWeighted p r s q n) \<longrightarrow>
                  overall ts = binary64 (specOverall p r s q n)) \<and>
               (exactly_halfway (specWeighted p r s q n) \<longrightarrow>
                  overall ts = binary64 (specOverall p r s q n) \<or>
                  overall ts = binary64 (specOverall p r s q n - 1 / 10))))
            \<and> 0 \<le> overall ts \<and> overall ts \<le> 10"
      using comps tie b by blast
  qed
  have bounds: "0 \<le> overall ts \<and> overall ts \<le> 10"
  proof (cases "tot = 0")
    case True
    then show ?thesis using zero by simp
  next
    case False
    then show ?thesis using pos by simp
  qed
  have merge: "\<forall>fl svc clk st args res st'.
               snapshotMerge fl svc clk st args = Inr (res, st') \<longrightarrow>
               findings_new res = length (smp_delta_envelope_ids args) \<and>
               mr_trust_score res =
                 computeMixedTrustScore fl (findings_preserved res) (findings_relocated res)
                   (findings_stale res) (findings_orphaned res) (findings_new res)"
    using snapshotMerge_Inr mergeResult_fields(5,8) by metis
  show ?thesis using pos lev zero bounds merge by blast
qed

lemma tieMerge_counts:
  "findings_preserved (mergeResult fl clk tieMergeParams) = 1"
  "findings_relocated (mergeResult fl clk tieMergeParams) = 0"
  "findings_stale (mergeResult fl clk tieMergeParams) = 27"
  "findings_orphaned (mergeResult fl clk tieMergeParams) = 0"
  "findings_new (mergeResult fl clk tieMergeParams) = 0"
  by (simp_all add: mergeResult_fields tieMergeParams_def exampleResult_def comp_def)

lemma tie_values:
  "specOverall 1 0 27 0 0 = 24 / 10"
  "specOverall 12 0 15 0 1 = 6"
  "exactly_halfway (specWeighted 1 0 27 0 0)"
  "exactly_halfway (specWeighted 12 0 15 0 1)"
  "overall (computeMixedTrustScore binary64 1 0 27 0 0) = 2589569785738035 / 1125899906842624"
  "overall (computeMixedTrustScore binary64 12 0 15 0 1) = 3321404725185741 / 562949953421312"
  "binary64 (23 / 10) = 2589569785738035 / 1125899906842624"
  "binary64 (24 / 10) = 5404319552844595 / 2251799813685248"
  "binary64 (59 / 10) = 3321404725185741 / 562949953421312"
  "binary64 6 = 6"
  by code_simp+


lemma plain_values:
  "\<not> exactly_halfway (specWeighted 1 1 1 1 1)"
  "specOverall 1 1 1 1 1 = 69 / 10"
  "binary64 (69 / 10) = 3884354678607053 / 562949953421312"
  by code_simp+

lemma exampleMerge_counts:
  "findings_preserved (mergeResult fl clk exampleMergeParams) = 1"
  "findings_relocated (mergeResult fl clk exampleMergeParams) = 1"
  "findings_stale (mergeResult fl clk exampleMergeParams) = 1"
  "findings_orphaned (mergeResult fl clk exampleMergeParams) = 1"
  "findings_new (mergeResult fl clk exampleMergeParams) = 1"
  by (simp_all add: mergeResult_fields exampleMergeParams_def exampleResult_def)


text \<open>
  The theorem at three inputs: the counts \<open>(1, 0, 27, 0, 0)\<close>, whose weighted sum 2.35
  is exactly halfway; the counts \<open>(1, 1, 1, 1, 1)\<close> of the example merge, which give the
  double nearest to 6.9 and MEDIUM; and no counts at all, which give 10 and HIGH.
\<close>

theorem trust_score_rounding_and_bounds_witness:
  "(0::nat) < 1 + 0 + 27 + 0 + 0 \<and> (1::nat) + 0 + 27 + 0 + 0 < 2 ^ 41 \<and>
   exactly_halfway (specWeighted 1 0 27 0 0) \<and>
   (overall (computeMixedTrustScore binary64 1 0 27 0 0) = binary64 (specOverall 1 0 27 0 0) \<or>
    overall (computeMixedTrustScore binary64 1 0 27 0 0) = binary64 (specOverall 1 0 27 0 0 - 1 / 10)) \<and>
   0 \<le> overall (computeMixedTrustScore binary64 1 0 27 0 0) \<and>
   overall (computeMixedTrustScore binary64 1 0 27 0 0) \<le> 10 \<and>
   (0::nat) < 1 + 1 + 1 + 1 + 1 \<and> (1::nat) + 1 + 1 + 1 + 1 < 2 ^ 41 \<and>
   \<not> exactly_halfway (specWeighted 1 1 1 1 1) \<and>
   overall (computeMixedTrustScore binary64 1 1 1 1 1) = binary64 (69 / 10) \<and>
   level (computeMixedTrustScore binary64 1 1 1 1 1) = MEDIUM \<and>
   (0::nat) + 0 + 0 + 0 + 0 = 0 \<and>
   overall (computeMixedTrustScore binary64 0 0 0 0 0) = 10 \<and>
   level (computeMixedTrustScore binary64 0 0 0 0 0) = HIGH \<and>
   (\<exists>res st'. snapshotMerge binary64 exampleServices exampleClock [] exampleMergeParams
                  = Inr (res, st') \<and>
               findings_new res = 1 \<and>
               mr_trust_score res = computeMixedTrustScore binary64 1 1 1 1 1)"
proof -
  note a = trust_score_rounding_and_bounds[of 1 0 27 0 0]
  note b = trust_score_rounding_and_bounds[of 1 1 1 1 1]
  note z = trust_score_rounding_and_bounds[of 0 0 0 0 0]
  have h1: "(0::nat) < 1 + 0 + 27 + 0 + 0" "(1::nat) + 0 + 27 + 0 + 0 < 2 ^ 41" by simp_all
  have h2: "(0::nat) < 1 + 1 + 1 + 1 + 1" "(1::nat) + 1 + 1 + 1 + 1 < 2 ^ 41" by simp_all
  have h3: "(0::nat) + 0 + 0 + 0 + 0 = 0" by simp
  have a1: "overall (computeMixedTrustScore binary64 1 0 27 0 0) = binary64 (specOverall 1 0 27 0 0) \<or>
    overall (computeMixedTrustScore binary64 1 0 27 0 0) = binary64 (specOverall 1 0 27 0 0 - 1 / 10)"
    using a h1 tie_values(3) by blast
  have a2: "0 \<le> overall (computeMixedTrustScore binary64 1 0 27 0 0)"
    "overall (computeMixedTrustScore binary64 1 0 27 0 0) \<le> 10"
    using a by blast+
  have "overall (computeMixedTrustScore binary64 1 1 1 1 1) = binary64 (specOverall 1 1 1 1 1)"
    using b h2 plain_values(1) by blast
  then have b1: "overall (computeMixedTrustScore binary64 1 1 1 1 1) = binary64 (69 / 10)"
    by (simp only: plain_values(2))
  have "level (computeMixedTrustScore binary64 1 1 1 1 1) =
          (if overall (computeMixedTrustScore binary64 1 1 1 1 1) \<ge> 8 then HIGH
           else if overall (computeMixedTrustScore binary64 1 1 1 1 1) \<ge> 5 then MEDIUM else LOW)"
    using b by blast
  then have b2: "level (computeMixedTrustScore binary64 1 1 1 1 1) = MEDIUM"
    unfolding b1 plain_values(3) by simp
  have z1: "overall (computeMixedTrustScore binary64 0 0 0 0 0) = 10"
    "level (computeMixedTrustScore binary64 0 0 0 0 0) = HIGH"
    using z h3 by blast+
  obtain res st' where
    m: "snapshotMerge binary64 exampleServices exampleClock [] exampleMergeParams = Inr (res, st')"
    using exampleMerge_ok_any by blast
  then have res: "res = mergeResult binary64 exampleClock exampleMergeParams"
    using snapshotMerge_Inr by blast
  have t: "findings_new res = length (smp_delta_envelope_ids exampleMergeParams) \<and>
        mr_trust_score res = computeMixedTrustScore binary64 (findings_preserved res)
          (findings_relocated res) (findings_stale res) (findings_orphaned res) (findings_new res)"
    using a m by blast
  have t1: "findings_new res = 1" by (simp only: res exampleMerge_counts)
  have "mr_trust_score res = computeMixedTrustScore binary64 (findings_preserved res)
          (findings_relocated res) (findings_stale res) (findings_orphaned res) (findings_new res)"
    using t by blast
  then have t2: "mr_trust_score res = computeMixedTrustScore binary64 1 1 1 1 1"
    by (simp only: res exampleMerge_counts)
  have ex: "\<exists>res st'. snapshotMerge binary64 exampleServices exampleClock [] exampleMergeParams
                  = Inr (res, st') \<and>
               findings_new res = 1 \<and>
               mr_trust_score res = computeMixedTrustScore binary64 1 1 1 1 1"
    using m t1 t2 by blast
  show ?thesis
    using h1 h2 h3 tie_values(3) a1 a2 plain_values(1) b1 b2 z1 ex by (intro conjI)
qed

text \<open>
  Claim C1 as stated fails: a merge with one preserved and twenty-seven stale findings
  has the weighted sum 2.35, which rounds to 2.4, and returns the double nearest to 2.3;
  the counts \<open>(12, 0, 15, 0, 1)\<close> have the weighted sum 5.95, which rounds to 6, and
  give the double nearest to 5.9.
\<close>

theorem trust_score_tie_counterexample:
  "\<exists>res st'.
     snapshotMerge binary64 exampleServices exampleClock [] tieMergeParams = Inr (res, st') \<and>
     findings_preserved res = 1 \<and> findings_relocated res = 0 \<and> findings_stale res = 27 \<and>
     findings_orphaned res = 0 \<and> findings_new res = 0 \<and>
     specOverall 1 0 27 0 0 = 24 / 10 \<and>
     overall (mr_trust_score res) = binary64 (23 / 10) \<and>
     overall (mr_trust_score res) \<noteq> binary64 (24 / 10) \<and>
     overall (mr_trust_score res) < 231 / 100 \<and>
     specOverall 12 0 15 0 1 = 6 \<and>
     overall (computeMixedTrustScore binary64 12 0 15 0 1) = binary64 (59 / 10) \<and>
     overall (computeMixedTrustScore binary64 12 0 15 0 1) \<noteq> binary64 6 \<and>
     overall (computeMixedTrustScore binary64 12 0 15 0 1) < 591 / 100"
proof -
  obtain res st' where
    m: "snapshotMerge binary64 exampleServices exampleClock [] tieMergeParams = Inr (res, st')"
    using exampleMerge_ok_any by blast
  then have res: "res = mergeResult binary64 exampleClock tieMergeParams"
    using snapshotMerge_Inr by blast
  have ts: "mr_trust_score res = computeMixedTrustScore binary64 1 0 27 0 0"
    unfolding res mergeResult_fields(8) tieMerge_counts
    by (simp add: tieMergeParams_def)
  have c: "findings_preserved res = 1" "findings_relocated res = 0" "findings_stale res = 27"
    "findings_orphaned res = 0" "findings_new res = 0"
    by (simp_all only: res tieMerge_counts)
  have v: "overall (mr_trust_score res) = binary64 (23 / 10)"
    "overall (mr_trust_score res) \<noteq> binary64 (24 / 10)"
    "overall (mr_trust_score res) < 231 / 100"
    unfolding ts tie_values(5,7,8) by simp_all
  have v2: "overall (computeMixedTrustScore binary64 12 0 15 0 1) = binary64 (59 / 10)"
    "overall (computeMixedTrustScore binary64 12 0 15 0 1) \<noteq> binary64 6"
    "overall (computeMixedTrustScore binary64 12 0 15 0 1) < 591 / 100"
    unfolding tie_values(6,9,10) by simp_all
  show ?thesis using m c v v2 tie_values(1,2) by blast
qed

lemma exampleMerge_result:
  "mergeResult (\<lambda>x. x) exampleClock exampleMergeParams =
     \<lparr>mr_snapshot_id = ''snap-20250101120000-abcdef0'',
      findings_preserved = 1, findings_relocated = 1, findings_new = 1,
      findings_stale = 1, findings_orphaned = 1, conflicts_resolved = 0,
      mr_trust_score = \<lparr>overall = 69 / 10, level = MEDIUM,
        components = \<lparr>coverage = 3 / 5, freshness = 9 / 10, confidence = 3 / 5\<rparr>\<rparr>\<rparr>"
  by (simp add: mergeResult_def exampleMergeParams_def exampleResult_def exampleClock_def
      generateSnapshotId_def computeMixedTrustScore_def Math_round_def trustLevel_def Let_def
      floor_eq_iff)

lemma exampleMerge_findings:
  "findings (mergedSnapshot fl exampleClock exampleMergeParams) = [''F1'', ''F2'', ''E9'']"
  by (simp add: mergedSnapshot_fields allFindings_def exampleMergeParams_def exampleResult_def)

section \<open>The merged snapshot\<close>

lemma stale_not_surviving:
  assumes d: "distinct (map fst rr)" and e: "e \<in> set rr"
    and s: "status (snd e) = STALE \<or> status (snd e) = ORPHANED"
  shows "fst e \<notin> set (map fst (filter survives rr))"
proof
  assume "fst e \<in> set (map fst (filter survives rr))"
  then obtain e' where e': "e' \<in> set rr" "survives e'" "fst e' = fst e" by auto
  from d e e'(1,3) have "e' = e" by (metis eq_key_imp_eq_value prod.collapse)
  with e'(2) s show False by (auto simp: survives_def)
qed

lemma covered_baseline_length:
  assumes k: "distinct (map fst rr)" and b: "distinct bs" and c: "covers rr bs"
  shows "length bs \<le> length rr \<and> (length rr = length bs \<longleftrightarrow> set (map fst rr) = set bs)"
proof -
  have sub: "set bs \<subseteq> set (map fst rr)" using c by (simp add: covers_def)
  have lr: "length rr = card (set (map fst rr))" using distinct_card[OF k] by simp
  have lb: "length bs = card (set bs)" using distinct_card[OF b] by simp
  have le: "card (set bs) \<le> card (set (map fst rr))" by (rule card_mono[OF _ sub]) simp
  have "card (set (map fst rr)) = card (set bs) \<longleftrightarrow> set (map fst rr) = set bs"
  proof
    assume "card (set (map fst rr)) = card (set bs)"
    then have "card (set bs) = card (set (map fst rr))" by simp
    from card_subset_eq[OF _ sub this] show "set (map fst rr) = set bs" by simp
  next
    assume "set (map fst rr) = set bs"
    then show "card (set (map fst rr)) = card (set bs)" by simp
  qed
  then show ?thesis using le lr lb by simp
qed


text \<open>
  Claim C2, as amended. A successful merge stores a snapshot whose findings are the ids with
  status PRESERVED or RELOCATED, in the order of the keys of \<open>relocation_results\<close>,
  followed by all the delta envelope ids; no id whose status is STALE or ORPHANED is
  among the surviving ids; the four reported counts add up to the number of entries of
  \<open>relocation_results\<close>, and \<open>findings_new\<close> is the number of delta envelope ids. When
  \<open>relocation_results\<close> covers the findings of the baseline, the four counts add up to
  at least the number of baseline findings, and to exactly that number if and only if
  \<open>relocation_results\<close> has no key besides the baseline findings.
\<close>

theorem merge_findings_and_counts:
  assumes ok: "snapshotMerge fl svc clk st args = Inr (res, st')"
    and keys: "distinct (map fst (smp_relocation_results args))"
  shows "\<exists>snap search_text.
           st' = store_insert (NumKey (generateNumericVectorId clk 0 0))
                   (SnapshotP \<lparr>sp_snapshot = snap, sp_text = search_text\<rparr>) st \<and>
           snapshot_id snap = mr_snapshot_id res \<and>
           findings snap =
             map fst (filter survives (smp_relocation_results args)) @ smp_delta_envelope_ids args \<and>
           (\<forall>e \<in> set (smp_relocation_results args).
              status (snd e) = STALE \<or> status (snd e) = ORPHANED \<longrightarrow>
              fst e \<notin> set (map fst (filter survives (smp_relocation_results args)))) \<and>
           findings_preserved res + findings_relocated res + findings_stale res
             + findings_orphaned res = length (smp_relocation_results args) \<and>
           findings_new res = length (smp_delta_envelope_ids args) \<and>
           (\<forall>baseline_findings.
              distinct baseline_findings \<and> covers (smp_relocation_results args) baseline_findings \<longrightarrow>
              length baseline_findings \<le> findings_preserved res + findings_relocated res
                + findings_stale res + findings_orphaned res \<and>
              (findings_preserved res + findings_relocated res + findings_stale res
                + findings_orphaned res = length baseline_findings
               \<longleftrightarrow> set (map fst (smp_relocation_results args)) = set baseline_findings))"
proof -
  let ?rr = "smp_relocation_results args"
  let ?snap = "mergedSnapshot fl clk args"
  from snapshotMerge_Inr[OF ok] have res: "res = mergeResult fl clk args"
    and st': "st' = store_insert (NumKey (generateNumericVectorId clk 0 0))
                 (SnapshotP \<lparr>sp_snapshot = ?snap, sp_text = buildSnapshotSearchText ?snap\<rparr>) st"
    by simp_all
  have id: "snapshot_id ?snap = mr_snapshot_id res"
    by (simp add: res mergedSnapshot_fields mergeResult_fields)
  have fs: "findings ?snap = map fst (filter survives ?rr) @ smp_delta_envelope_ids args"
    by (simp add: mergedSnapshot_fields allFindings_distinct[OF keys])
  have ex: "\<forall>e \<in> set ?rr. status (snd e) = STALE \<or> status (snd e) = ORPHANED \<longrightarrow>
              fst e \<notin> set (map fst (filter survives ?rr))"
    using stale_not_surviving[OF keys] by blast
  have "findings_preserved res + findings_relocated res + findings_stale res
             + findings_orphaned res = length (map snd ?rr)"
    unfolding res mergeResult_fields by (rule status_partition)
  then have entries: "findings_preserved res + findings_relocated res + findings_stale res
             + findings_orphaned res = length ?rr"
    by simp
  have new: "findings_new res = length (smp_delta_envelope_ids args)"
    by (simp add: res mergeResult_fields)
  have cons: "\<forall>baseline_findings.
              distinct baseline_findings \<and> covers ?rr baseline_findings \<longrightarrow>
              length baseline_findings \<le> findings_preserved res + findings_relocated res
                + findings_stale res + findings_orphaned res \<and>
              (findings_preserved res + findings_relocated res + findings_stale res
                + findings_orphaned res = length baseline_findings
               \<longleftrightarrow> set (map fst ?rr) = set baseline_findings)"
    unfolding entries using covered_baseline_length[OF keys] by blast
  show ?thesis using st' id fs ex entries new cons by blast
qed

text \<open>The example merge: F1 and F2 survive, E9 is added, the counts add up to 4.\<close>

theorem merge_findings_and_counts_witness:
  "\<exists>res st'. snapshotMerge binary64 exampleServices exampleClock exampleBaselineStore exampleMergeParams
                = Inr (res, st') \<and>
     distinct (map fst (smp_relocation_results exampleMergeParams)) \<and>
     distinct (findings exampleBaseline) \<and>
     covers (smp_relocation_results exampleMergeParams) (findings exampleBaseline) \<and>
     set (map fst (smp_relocation_results exampleMergeParams)) = set (findings exampleBaseline) \<and>
     (\<exists>snap search_text.
        st' = exampleBaselineStore
                @ [(NumKey 1735732800000007, SnapshotP \<lparr>sp_snapshot = snap, sp_text = search_text\<rparr>)] \<and>
        findings snap = [''F1'', ''F2'', ''E9'']) \<and>
     findings_preserved res + findings_relocated res + findings_stale res + findings_orphaned res = 4 \<and>
     length (findings exampleBaseline) = 4 \<and>
     findings_new res = 1"
proof -
  obtain res st' where
    m: "snapshotMerge binary64 exampleServices exampleClock exampleBaselineStore exampleMergeParams
          = Inr (res, st')"
    using exampleMerge_ok_any by blast
  have k: "distinct (map fst (smp_relocation_results exampleMergeParams))"
    by (simp add: exampleMergeParams_def)
  have b: "distinct (findings exampleBaseline)" by (simp add: exampleBaseline_def)
  have s: "set (map fst (smp_relocation_results exampleMergeParams)) = set (findings exampleBaseline)"
    by (simp add: exampleMergeParams_def exampleBaseline_def)
  have c: "covers (smp_relocation_results exampleMergeParams) (findings exampleBaseline)"
    by (simp add: covers_def exampleMergeParams_def exampleBaseline_def)
  have l: "length (findings exampleBaseline) = 4" by (simp add: exampleBaseline_def)
  have surv: "map fst (filter survives (smp_relocation_results exampleMergeParams)) = [''F1'', ''F2'']"
    by (simp add: exampleMergeParams_def survives_def exampleResult_def)
  from merge_findings_and_counts[OF m k] obtain snap search_text where
    r: "st' = store_insert (NumKey (generateNumericVectorId exampleClock 0 0))
                   (SnapshotP \<lparr>sp_snapshot = snap, sp_text = search_text\<rparr>) exampleBaselineStore"
       "findings snap = map fst (filter survives (smp_relocation_results exampleMergeParams))
                          @ smp_delta_envelope_ids exampleMergeParams"
       "findings_new res = length (smp_delta_envelope_ids exampleMergeParams)"
       "\<forall>baseline_findings.
              distinct baseline_findings \<and> covers (smp_relocation_results exampleMergeParams) baseline_findings \<longrightarrow>
              (findings_preserved res + findings_relocated res + findings_stale res
                + findings_orphaned res = length baseline_findings
               \<longleftrightarrow> set (map fst (smp_relocation_results exampleMergeParams)) = set baseline_findings)"
    by blast
  have r1: "st' = exampleBaselineStore
                @ [(NumKey 1735732800000007, SnapshotP \<lparr>sp_snapshot = snap, sp_text = search_text\<rparr>)]"
    using r(1) by (simp add: exampleKey exampleBaselineStore_def)
  have r2: "findings snap = [''F1'', ''F2'', ''E9'']"
    using r(2) by (simp add: surv) (simp add: exampleMergeParams_def)
  have "findings_preserved res + findings_relocated res + findings_stale res
             + findings_orphaned res = length (findings exampleBaseline)"
    using r(4) b c s by blast
  then have r3: "findings_preserved res + findings_relocated res + findings_stale res
             + findings_orphaned res = 4"
    by (simp only: l)
  have r4: "findings_new res = 1"
    using r(3) by (simp add: exampleMergeParams_def)
  have "\<exists>snap search_text.
        st' = exampleBaselineStore
                @ [(NumKey 1735732800000007, SnapshotP \<lparr>sp_snapshot = snap, sp_text = search_text\<rparr>)] \<and>
        findings snap = [''F1'', ''F2'', ''E9'']"
    using r1 r2 by blast
  with m k b c s r3 l r4 show ?thesis by blast
qed

text \<open>
  Claim C2 as stated fails: the relocation results of this merge cover the four findings
  of the baseline, and the four counts add up to five.
\<close>

theorem merge_conservation_counterexample:
  "\<exists>res st'.
     snapshotMerge binary64 exampleServices exampleClock exampleBaselineStore extraKeyMergeParams
       = Inr (res, st') \<and>
     smp_baseline_snapshot_id extraKeyMergeParams = snapshot_id exampleBaseline \<and>
     covers (smp_relocation_results extraKeyMergeParams) (findings exampleBaseline) \<and>
     length (findings exampleBaseline) = 4 \<and>
     findings_preserved res + findings_relocated res + findings_stale res + findings_orphaned res = 5 \<and>
     findings_preserved res + findings_relocated res + findings_stale res + findings_orphaned res
       \<noteq> length (findings exampleBaseline)"
proof -
  obtain res st' where
    m: "snapshotMerge binary64 exampleServices exampleClock exampleBaselineStore extraKeyMergeParams
          = Inr (res, st')"
    using exampleMerge_ok_any by blast
  then have res: "res = mergeResult binary64 exampleClock extraKeyMergeParams"
    using snapshotMerge_Inr by blast
  have s: "findings_preserved res + findings_relocated res + findings_stale res
             + findings_orphaned res = 5"
    by (simp add: res mergeResult_fields extraKeyMergeParams_def exampleResult_def)
  have c: "covers (smp_relocation_results extraKeyMergeParams) (findings exampleBaseline)"
    by (simp add: covers_def extraKeyMergeParams_def exampleBaseline_def)
  have l: "length (findings exampleBaseline) = 4" by (simp add: exampleBaseline_def)
  have i: "smp_baseline_snapshot_id extraKeyMergeParams = snapshot_id exampleBaseline"
    by (simp add: extraKeyMergeParams_def exampleBaseline_def)
  have n: "findings_preserved res + findings_relocated res + findings_stale res
             + findings_orphaned res \<noteq> length (findings exampleBaseline)"
    unfolding s l by simp
  show ?thesis using m i c l s n by blast
qed

section \<open>Provenance chains\<close>

lemma snapshotCreate_Inr:
  assumes "snapshotCreate svc clk st args = Inr (snap, stored, st')"
  shows "snap = createdSnapshot clk args"
  using assms
  by (auto simp: snapshotCreate_def Let_def split: option.splits getStore_outcome.splits if_splits)

lemma createdSnapshot_chain:
  "provenance_chain (createdSnapshot clk args) =
     createProvenanceChain (scp_baseline_snapshot_id args) (snapshot_id (createdSnapshot clk args))"
  by (simp add: createdSnapshot_def Let_def)

lemma short_chain_not_longer:
  assumes "length c \<le> 2" "2 \<le> length bc" shows "c \<noteq> bc @ [x]"
proof
  assume "c = bc @ [x]"
  then have "length c = length bc + 1" by simp
  with assms show False by simp
qed

lemma merge_chain:
  assumes ok: "snapshotMerge fl svc clk st margs = Inr (res, st')"
  shows "\<exists>snap search_text.
          st' = store_insert (NumKey (generateNumericVectorId clk 0 0))
                  (SnapshotP \<lparr>sp_snapshot = snap, sp_text = search_text\<rparr>) st \<and>
          snapshot_id snap = mr_snapshot_id res \<and>
          provenance_chain snap = [smp_baseline_snapshot_id margs, snapshot_id snap] \<and>
          last (provenance_chain snap) = snapshot_id snap \<and>
          (\<forall>bc. 2 \<le> length bc \<longrightarrow> provenance_chain snap \<noteq> bc @ [snapshot_id snap])"
proof -
  let ?snap = "mergedSnapshot fl clk margs"
  from snapshotMerge_Inr[OF ok] have res: "res = mergeResult fl clk margs"
    and st': "st' = store_insert (NumKey (generateNumericVectorId clk 0 0))
                 (SnapshotP \<lparr>sp_snapshot = ?snap, sp_text = buildSnapshotSearchText ?snap\<rparr>) st"
    by simp_all
  have c: "provenance_chain ?snap = [smp_baseline_snapshot_id margs, snapshot_id ?snap]"
    by (simp add: mergedSnapshot_fields)
  have i: "snapshot_id ?snap = mr_snapshot_id res"
    by (simp add: res mergedSnapshot_fields mergeResult_fields)
  have l: "last (provenance_chain ?snap) = snapshot_id ?snap" by (simp add: c)
  have "length (provenance_chain ?snap) \<le> 2" by (simp add: c)
  then have n: "\<forall>bc. 2 \<le> length bc \<longrightarrow> provenance_chain ?snap \<noteq> bc @ [snapshot_id ?snap]"
    by (intro allI impI) (rule short_chain_not_longer)
  show ?thesis
    by (rule exI[of _ ?snap], rule exI[of _ "buildSnapshotSearchText ?snap"])
       (use st' i c l n in simp)
qed

lemma create_chain:
  assumes ok: "snapshotCreate svc clk st cargs = Inr (created, stored, st'')"
  shows "provenance_chain created =
        (case scp_baseline_snapshot_id cargs of
           None \<Rightarrow> []
         | Some b \<Rightarrow> if b \<noteq> [] then [b] else []) @ [snapshot_id created] \<and>
      last (provenance_chain created) = snapshot_id created \<and>
      (\<forall>bc. 2 \<le> length bc \<longrightarrow> provenance_chain created \<noteq> bc @ [snapshot_id created])"
proof -
  have cr: "created = createdSnapshot clk cargs" by (rule snapshotCreate_Inr[OF ok])
  have c: "provenance_chain created =
        (case scp_baseline_snapshot_id cargs of
           None \<Rightarrow> []
         | Some b \<Rightarrow> if b \<noteq> [] then [b] else []) @ [snapshot_id created]"
    unfolding cr createdSnapshot_chain by (simp add: createProvenanceChain_def)
  have l: "last (provenance_chain created) = snapshot_id created" by (simp add: c)
  have "length (provenance_chain created) \<le> 2"
    by (simp add: c split: option.splits)
  then have n: "\<forall>bc. 2 \<le> length bc \<longrightarrow> provenance_chain created \<noteq> bc @ [snapshot_id created]"
    by (intro allI impI) (rule short_chain_not_longer)
  show ?thesis using c l n by (intro conjI)
qed


text \<open>
  Claim C7, as amended. The provenance chain of the snapshot that a successful merge
  stores is the id of the baseline followed by the snapshot's own id, and the chain of a
  created snapshot is the given baseline id (when there is one and it is not empty)
  followed by its own id. The chain always ends in the snapshot's own id; it has at most
  two entries, so it is never a chain of two or more entries with the own id appended:
  the entries of the baseline's own chain are not carried over.
\<close>

theorem provenance_chain_of_new_snapshot:
  "(snapshotMerge fl svc clk st margs = Inr (res, st') \<longrightarrow>
      (\<exists>snap search_text.
          st' = store_insert (NumKey (generateNumericVectorId clk 0 0))
                  (SnapshotP \<lparr>sp_snapshot = snap, sp_text = search_text\<rparr>) st \<and>
          snapshot_id snap = mr_snapshot_id res \<and>
          provenance_chain snap = [smp_baseline_snapshot_id margs, snapshot_id snap] \<and>
          last (provenance_chain snap) = snapshot_id snap \<and>
          (\<forall>bc. 2 \<le> length bc \<longrightarrow> provenance_chain snap \<noteq> bc @ [snapshot_id snap]))) \<and>
   (snapshotCreate svc clk st cargs = Inr (created, stored, st'') \<longrightarrow>
      provenance_chain created =
        (case scp_baseline_snapshot_id cargs of
           None \<Rightarrow> []
         | Some b \<Rightarrow> if b \<noteq> [] then [b] else []) @ [snapshot_id created] \<and>
      last (provenance_chain created) = snapshot_id created \<and>
      (\<forall>bc. 2 \<le> length bc \<longrightarrow> provenance_chain created \<noteq> bc @ [snapshot_id created]))"
proof (rule conjI)
  show "snapshotMerge fl svc clk st margs = Inr (res, st') \<longrightarrow>
      (\<exists>snap search_text.
          st' = store_insert (NumKey (generateNumericVectorId clk 0 0))
                  (SnapshotP \<lparr>sp_snapshot = snap, sp_text = search_text\<rparr>) st \<and>
          snapshot_id snap = mr_snapshot_id res \<and>
          provenance_chain snap = [smp_baseline_snapshot_id margs, snapshot_id snap] \<and>
          last (provenance_chain snap) = snapshot_id snap \<and>
          (\<forall>bc. 2 \<le> length bc \<longrightarrow> provenance_chain snap \<noteq> bc @ [snapshot_id snap]))"
    by (rule impI) (rule merge_chain)
  show "snapshotCreate svc clk st cargs = Inr (created, stored, st'') \<longrightarrow>
      provenance_chain created =
        (case scp_baseline_snapshot_id cargs of
           None \<Rightarrow> []
         | Some b \<Rightarrow> if b \<noteq> [] then [b] else []) @ [snapshot_id created] \<and>
      last (provenance_chain created) = snapshot_id created \<and>
      (\<forall>bc. 2 \<le> length bc \<longrightarrow> provenance_chain created \<noteq> bc @ [snapshot_id created])"
    by (rule impI) (rule create_chain)
qed

text \<open>The amended claim at the example merge and the example create, both onto \<open>snap-1\<close>.\<close>

theorem provenance_chain_of_new_snapshot_witness:
  "(\<exists>res st' snap search_text.
      snapshotMerge (\<lambda>x. x) exampleServices exampleClock exampleBaselineStore exampleMergeParams
        = Inr (res, st') \<and>
      st' = store_insert (NumKey 1735732800000007)
              (SnapshotP \<lparr>sp_snapshot = snap, sp_text = search_text\<rparr>) exampleBaselineStore \<and>
      provenance_chain snap = [''snap-1'', snapshot_id snap] \<and>
      2 \<le> length [''snap-0'', ''snap-1''] \<and>
      provenance_chain snap \<noteq> [''snap-0'', ''snap-1''] @ [snapshot_id snap]) \<and>
   (\<exists>created st''.
      snapshotCreate exampleServices exampleClock exampleBaselineStore exampleCreateParams
        = Inr (created, True, st'') \<and>
      provenance_chain created = [''snap-1'', snapshot_id created] \<and>
      provenance_chain created \<noteq> [''snap-0'', ''snap-1''] @ [snapshot_id created])"
proof (rule conjI)
  obtain res st' where
    m: "snapshotMerge (\<lambda>x. x) exampleServices exampleClock exampleBaselineStore exampleMergeParams
          = Inr (res, st')"
    using exampleMerge_ok_any by blast
  from provenance_chain_of_new_snapshot[of "\<lambda>x. x" exampleServices exampleClock
      exampleBaselineStore exampleMergeParams res st'] m
  obtain snap search_text where
    r: "st' = store_insert (NumKey (generateNumericVectorId exampleClock 0 0))
                  (SnapshotP \<lparr>sp_snapshot = snap, sp_text = search_text\<rparr>) exampleBaselineStore"
       "provenance_chain snap = [smp_baseline_snapshot_id exampleMergeParams, snapshot_id snap]"
       "\<forall>bc. 2 \<le> length bc \<longrightarrow> provenance_chain snap \<noteq> bc @ [snapshot_id snap]"
    by blast
  have r1: "st' = store_insert (NumKey 1735732800000007)
              (SnapshotP \<lparr>sp_snapshot = snap, sp_text = search_text\<rparr>) exampleBaselineStore"
    using r(1) by (simp add: exampleKey)
  have r2: "provenance_chain snap = [''snap-1'', snapshot_id snap]"
    using r(2) by (simp add: exampleMergeParams_def)
  have l: "2 \<le> length [''snap-0'', ''snap-1'']" by simp
  have r3: "provenance_chain snap \<noteq> [''snap-0'', ''snap-1''] @ [snapshot_id snap]"
    using r(3) l by blast
  show "\<exists>res st' snap search_text.
      snapshotMerge (\<lambda>x. x) exampleServices exampleClock exampleBaselineStore exampleMergeParams
        = Inr (res, st') \<and>
      st' = store_insert (NumKey 1735732800000007)
              (SnapshotP \<lparr>sp_snapshot = snap, sp_text = search_text\<rparr>) exampleBaselineStore \<and>
      provenance_chain snap = [''snap-1'', snapshot_id snap] \<and>
      2 \<le> length [''snap-0'', ''snap-1''] \<and>
      provenance_chain snap \<noteq> [''snap-0'', ''snap-1''] @ [snapshot_id snap]"
    using m r1 r2 l r3 by blast
next
  obtain st'' where
    c: "snapshotCreate exampleServices exampleClock exampleBaselineStore exampleCreateParams
          = Inr (createdSnapshot exampleClock exampleCreateParams, True, st'')"
    using exampleCreate_ok by blast
  let ?created = "createdSnapshot exampleClock exampleCreateParams"
  from provenance_chain_of_new_snapshot[of "\<lambda>x. x" exampleServices exampleClock
      exampleBaselineStore exampleMergeParams _ _ exampleCreateParams ?created True st''] c
  have r: "provenance_chain ?created =
        (case scp_baseline_snapshot_id exampleCreateParams of
           None \<Rightarrow> []
         | Some b \<Rightarrow> if b \<noteq> [] then [b] else []) @ [snapshot_id ?created]"
       "\<forall>bc. 2 \<le> length bc \<longrightarrow> provenance_chain ?created \<noteq> bc @ [snapshot_id ?created]"
    by blast+
  have r2: "provenance_chain ?created = [''snap-1'', snapshot_id ?created]"
    using r(1) by (simp add: exampleCreateParams_def)
  have l: "2 \<le> length [''snap-0'', ''snap-1'']" by simp
  have r3: "provenance_chain ?created \<noteq> [''snap-0'', ''snap-1''] @ [snapshot_id ?created]"
    using r(2) l by blast
  show "\<exists>created st''.
      snapshotCreate exampleServices exampleClock exampleBaselineStore exampleCreateParams
        = Inr (created, True, st'') \<and>
      provenance_chain created = [''snap-1'', snapshot_id created] \<and>
      provenance_chain created \<noteq> [''snap-0'', ''snap-1''] @ [snapshot_id created]"
    using c r2 r3 by blast
qed

text \<open>
  Claim C7 as stated fails: the baseline \<open>snap-1\<close> has the chain \<open>snap-0, snap-1\<close>, and
  the snapshot merged onto it has the chain \<open>snap-1, own id\<close>, without \<open>snap-0\<close>.
\<close>

theorem provenance_chain_counterexample:
  "\<exists>res st' snap search_text.
      snapshotMerge (\<lambda>x. x) exampleServices exampleClock exampleBaselineStore exampleMergeParams
        = Inr (res, st') \<and>
      st' = exampleBaselineStore @
              [(NumKey 1735732800000007, SnapshotP \<lparr>sp_snapshot = snap, sp_text = search_text\<rparr>)] \<and>
      hd exampleBaselineStore =
        (NumKey 1, SnapshotP \<lparr>sp_snapshot = exampleBaseline,
                                sp_text = buildSnapshotSearchText exampleBaseline\<rparr>) \<and>
      snapshot_id exampleBaseline = smp_baseline_snapshot_id exampleMergeParams \<and>
      provenance_chain exampleBaseline = [''snap-0'', ''snap-1''] \<and>
      provenance_chain snap = [''snap-1'', ''snap-20250101120000-abcdef0''] \<and>
      snapshot_id snap = ''snap-20250101120000-abcdef0'' \<and>
      provenance_chain snap \<noteq> provenance_chain exampleBaseline @ [snapshot_id snap]"
proof -
  let ?snap = "mergedSnapshot (\<lambda>x. x) exampleClock exampleMergeParams"
  obtain res st' where
    m: "snapshotMerge (\<lambda>x. x) exampleServices exampleClock exampleBaselineStore exampleMergeParams
          = Inr (res, st')"
    using exampleMerge_ok_any by blast
  from snapshotMerge_Inr[OF m]
  have "st' = store_insert (NumKey (generateNumericVectorId exampleClock 0 0))
                 (SnapshotP \<lparr>sp_snapshot = ?snap, sp_text = buildSnapshotSearchText ?snap\<rparr>)
                 exampleBaselineStore"
    by simp
  then have s: "st' = exampleBaselineStore @
              [(NumKey 1735732800000007,
                SnapshotP \<lparr>sp_snapshot = ?snap, sp_text = buildSnapshotSearchText ?snap\<rparr>)]"
    by (simp add: exampleKey exampleBaselineStore_def)
  have h: "hd exampleBaselineStore =
        (NumKey 1, SnapshotP \<lparr>sp_snapshot = exampleBaseline,
                                sp_text = buildSnapshotSearchText exampleBaseline\<rparr>)"
    by (simp add: exampleBaselineStore_def)
  have b: "snapshot_id exampleBaseline = smp_baseline_snapshot_id exampleMergeParams"
    "provenance_chain exampleBaseline = [''snap-0'', ''snap-1'']"
    by (simp_all add: exampleBaseline_def exampleMergeParams_def)
  have i: "snapshot_id ?snap = ''snap-20250101120000-abcdef0''"
    by (simp add: mergedSnapshot_fields exampleMergeParams_def exampleSnapshotId)
  have c: "provenance_chain ?snap = [''snap-1'', ''snap-20250101120000-abcdef0'']"
    by (simp add: mergedSnapshot_fields exampleMergeParams_def exampleSnapshotId)
  have n: "provenance_chain ?snap \<noteq> provenance_chain exampleBaseline @ [snapshot_id ?snap]"
    by (simp add: c b)
  show ?thesis
    using m s h b i c n by blast
qed

section \<open>Conflicts\<close>

lemma mergedSnapshot_ignores_conflict_strategy:
  "mergedSnapshot fl clk (args\<lparr>smp_conflict_strategy := cs\<rparr>) = mergedSnapshot fl clk args"
  by (simp add: mergedSnapshot_def)

lemma mergeResult_ignores_conflict_strategy:
  "mergeResult fl clk (args\<lparr>smp_conflict_strategy := cs\<rparr>) = mergeResult fl clk args"
  by (simp add: mergeResult_def)

lemma merge_ignores_conflict_strategy:
  "snapshotMerge fl svc clk st (args\<lparr>smp_conflict_strategy := cs\<rparr>) = snapshotMerge fl svc clk st args"
  unfolding snapshotMerge_def mergedSnapshot_ignores_conflict_strategy
    mergeResult_ignores_conflict_strategy
  by simp

lemma survivor_in_findings:
  assumes d: "distinct (map fst rr)" and e: "e \<in> set rr" and s: "survives e"
  shows "fst e \<in> set (allFindings rr delta)"
  using e s by (auto simp: allFindings_distinct[OF d])

text \<open>
  Claim C8, as amended. A successful merge reports \<open>conflicts_resolved = 0\<close> and does the
  same whatever the conflict strategy is (the strategy is not read); every id whose
  status is PRESERVED or RELOCATED and every delta envelope id is in the findings of the
  stored snapshot, so both findings of a colliding pair are kept, under every strategy.
\<close>

theorem merge_reports_no_conflicts:
  assumes ok: "snapshotMerge fl svc clk st args = Inr (res, st')"
    and keys: "distinct (map fst (smp_relocation_results args))"
  shows "conflicts_resolved res = 0 \<and>
         snapshotMerge fl svc clk st (args\<lparr>smp_conflict_strategy := cs\<rparr>) = Inr (res, st') \<and>
         (\<exists>snap search_text.
            st' = store_insert (NumKey (generateNumericVectorId clk 0 0))
                    (SnapshotP \<lparr>sp_snapshot = snap, sp_text = search_text\<rparr>) st \<and>
            (\<forall>e \<in> set (smp_relocation_results args). survives e \<longrightarrow> fst e \<in> set (findings snap)) \<and>
            (\<forall>d \<in> set (smp_delta_envelope_ids args). d \<in> set (findings snap)))"
proof -
  let ?snap = "mergedSnapshot fl clk args"
  from snapshotMerge_Inr[OF ok] have res: "res = mergeResult fl clk args"
    and st': "st' = store_insert (NumKey (generateNumericVectorId clk 0 0))
                 (SnapshotP \<lparr>sp_snapshot = ?snap, sp_text = buildSnapshotSearchText ?snap\<rparr>) st"
    by simp_all
  have c: "conflicts_resolved res = 0" by (simp add: res mergeResult_fields)
  have i: "snapshotMerge fl svc clk st (args\<lparr>smp_conflict_strategy := cs\<rparr>) = Inr (res, st')"
    using ok by (simp add: merge_ignores_conflict_strategy)
  have f: "findings ?snap = allFindings (smp_relocation_results args) (smp_delta_envelope_ids args)"
    by (simp add: mergedSnapshot_fields)
  have s: "\<forall>e \<in> set (smp_relocation_results args). survives e \<longrightarrow> fst e \<in> set (findings ?snap)"
    unfolding f using survivor_in_findings[OF keys] by blast
  have d: "\<forall>d \<in> set (smp_delta_envelope_ids args). d \<in> set (findings ?snap)"
    unfolding f by (simp add: allFindings_def)
  have "\<exists>snap search_text.
            st' = store_insert (NumKey (generateNumericVectorId clk 0 0))
                    (SnapshotP \<lparr>sp_snapshot = snap, sp_text = search_text\<rparr>) st \<and>
            (\<forall>e \<in> set (smp_relocation_results args). survives e \<longrightarrow> fst e \<in> set (findings snap)) \<and>
            (\<forall>d \<in> set (smp_delta_envelope_ids args). d \<in> set (findings snap))"
    by (rule exI[of _ ?snap], rule exI[of _ "buildSnapshotSearchText ?snap"])
       (use st' s d in simp)
  with c i show ?thesis by (intro conjI)
qed

lemma collision_example:
  "collides \<lparr>file_path = ''a.ts'', line_start = 10, line_end = 20\<rparr> collisionNewLocation"
  by (simp add: collides_def collisionNewLocation_def)

text \<open>The amended claim at the merge with the colliding pair.\<close>

theorem merge_reports_no_conflicts_witness:
  "\<exists>res st' snap search_text.
     snapshotMerge (\<lambda>x. x) exampleServices exampleClock [] collisionMergeParams = Inr (res, st') \<and>
     distinct (map fst (smp_relocation_results collisionMergeParams)) \<and>
     conflicts_resolved res = 0 \<and>
     snapshotMerge (\<lambda>x. x) exampleServices exampleClock []
       (collisionMergeParams\<lparr>smp_conflict_strategy := Some PREFER_NEW\<rparr>) = Inr (res, st') \<and>
     st' = [(NumKey 1735732800000007, SnapshotP \<lparr>sp_snapshot = snap, sp_text = search_text\<rparr>)] \<and>
     ''F2'' \<in> set (findings snap) \<and> ''E9'' \<in> set (findings snap)"
proof -
  obtain res st' where
    m: "snapshotMerge (\<lambda>x. x) exampleServices exampleClock [] collisionMergeParams = Inr (res, st')"
    using exampleMerge_ok_any by blast
  have k: "distinct (map fst (smp_relocation_results collisionMergeParams))"
    by (simp add: collisionMergeParams_def)
  from merge_reports_no_conflicts[OF m k, of "Some PREFER_NEW"] obtain snap search_text where
    r: "conflicts_resolved res = 0"
       "snapshotMerge (\<lambda>x. x) exampleServices exampleClock []
          (collisionMergeParams\<lparr>smp_conflict_strategy := Some PREFER_NEW\<rparr>) = Inr (res, st')"
       "st' = store_insert (NumKey (generateNumericVectorId exampleClock 0 0))
                    (SnapshotP \<lparr>sp_snapshot = snap, sp_text = search_text\<rparr>) []"
       "\<forall>e \<in> set (smp_relocation_results collisionMergeParams).
           survives e \<longrightarrow> fst e \<in> set (findings snap)"
       "\<forall>d \<in> set (smp_delta_envelope_ids collisionMergeParams). d \<in> set (findings snap)"
    by blast
  have r3: "st' = [(NumKey 1735732800000007, SnapshotP \<lparr>sp_snapshot = snap, sp_text = search_text\<rparr>)]"
    using r(3) by (simp add: exampleKey)
  have r4: "''F2'' \<in> set (findings snap)"
    using r(4) by (simp add: collisionMergeParams_def survives_def relocatedAt_def)
  have r5: "''E9'' \<in> set (findings snap)"
    using r(5) by (simp add: collisionMergeParams_def)
  show ?thesis using m k r(1,2) r3 r4 r5 by blast
qed

text \<open>
  Claim C8 as stated fails: with KEEP\_BOTH and the one colliding pair, the merge reports
  no resolved conflict.
\<close>

theorem keep_both_conflict_counterexample:
  "\<exists>res st' loc.
     smp_conflict_strategy collisionMergeParams = Some KEEP_BOTH \<and>
     map_of (smp_relocation_results collisionMergeParams) ''F2'' = Some (relocatedAt loc) \<and>
     collides loc collisionNewLocation \<and>
     snapshotMerge (\<lambda>x. x) exampleServices exampleClock [] collisionMergeParams = Inr (res, st') \<and>
     conflicts_resolved res = 0 \<and> conflicts_resolved res \<noteq> 1"
proof -
  obtain res st' where
    m: "snapshotMerge (\<lambda>x. x) exampleServices exampleClock [] collisionMergeParams = Inr (res, st')"
    using exampleMerge_ok_any by blast
  then have "res = mergeResult (\<lambda>x. x) exampleClock collisionMergeParams"
    using snapshotMerge_Inr by blast
  then have c: "conflicts_resolved res = 0" by (simp add: mergeResult_fields)
  have s: "smp_conflict_strategy collisionMergeParams = Some KEEP_BOTH"
    by (simp add: collisionMergeParams_def)
  have l: "map_of (smp_relocation_results collisionMergeParams) ''F2'' =
             Some (relocatedAt \<lparr>file_path = ''a.ts'', line_start = 10, line_end = 20\<rparr>)"
    by (simp add: collisionMergeParams_def)
  show ?thesis using m c s l collision_example by auto
qed

section \<open>The relocation pipeline\<close>

lemma relocateLoop_Some:
  "relocateLoop svc hs args m ss tried = Inr (Some r, tried') \<Longrightarrow>
     \<exists>pre s post.
        ss = pre @ s # post \<and> allBelow svc hs args m pre \<and>
        m \<le> cand_confidence (fst (passOf svc hs args m s)) \<and>
        r = resultOf (fst (passOf svc hs args m s))
              (tried @ traceOf svc hs args m (pre @ [s]))"
proof (induction ss arbitrary: tried)
  case Nil
  then show ?case by simp
next
  case (Cons a ss)
  from Cons.prems obtain c p where run: "runStrategy svc hs args m a = Inr (c, p)"
    by (auto split: sum.splits)
  then have pass: "passOf svc hs args m a = (c, p)" by (simp add: passOf_def)
  show ?case
  proof (cases "m \<le> cand_confidence c")
    case True
    with Cons.prems run have "r = resultOf c (tried @ p)"
      by (auto simp: resultOf_def)
    then have "a # ss = [] @ a # ss \<and> allBelow svc hs args m [] \<and>
        m \<le> cand_confidence (fst (passOf svc hs args m a)) \<and>
        r = resultOf (fst (passOf svc hs args m a)) (tried @ traceOf svc hs args m ([] @ [a]))"
      using True by (simp add: pass allBelow_def traceOf_def)
    then show ?thesis by blast
  next
    case False
    with Cons.prems run
    have "relocateLoop svc hs args m ss (tried @ p) = Inr (Some r, tried')" by simp
    from Cons.IH[OF this] obtain pre s post where
      h: "ss = pre @ s # post" "allBelow svc hs args m pre"
         "m \<le> cand_confidence (fst (passOf svc hs args m s))"
         "r = resultOf (fst (passOf svc hs args m s))
               ((tried @ p) @ traceOf svc hs args m (pre @ [s]))"
      by blast
    have "a # ss = (a # pre) @ s # post \<and> allBelow svc hs args m (a # pre) \<and>
        m \<le> cand_confidence (fst (passOf svc hs args m s)) \<and>
        r = resultOf (fst (passOf svc hs args m s)) (tried @ traceOf svc hs args m ((a # pre) @ [s]))"
      using h False by (simp add: pass allBelow_def traceOf_def)
    then show ?thesis by blast
  qed
qed

lemma relocateLoop_None:
  "relocateLoop svc hs args m ss tried = Inr (None, tried') \<Longrightarrow>
     allBelow svc hs args m ss \<and> tried' = tried @ traceOf svc hs args m ss"
proof (induction ss arbitrary: tried)
  case Nil
  then show ?case by (simp add: allBelow_def traceOf_def)
next
  case (Cons a ss)
  from Cons.prems obtain c p where run: "runStrategy svc hs args m a = Inr (c, p)"
    by (auto split: sum.splits)
  then have pass: "passOf svc hs args m a = (c, p)" by (simp add: passOf_def)
  from Cons.prems run have lt: "\<not> m \<le> cand_confidence c"
    by (auto split: if_splits)
  with Cons.prems run
  have "relocateLoop svc hs args m ss (tried @ p) = Inr (None, tried')" by simp
  from Cons.IH[OF this] lt show ?case
    by (simp add: pass allBelow_def traceOf_def)
qed

lemma findingRelocate_Inr:
  assumes "findingRelocate svc args = Inr r"
  shows "\<exists>res tried. relocateLoop svc (hasStoreOf svc) args (minConfidenceOf args)
                        (strategiesOf args) [] = Inr (res, tried) \<and>
           r = (case res of Some r' \<Rightarrow> r' | None \<Rightarrow> staleResult tried)"
  using assms
  by (auto simp: findingRelocate_def Let_def hasStoreOf_def minConfidenceOf_def strategiesOf_def
      staleResult_def split: option.splits getStore_outcome.splits sum.splits prod.splits)

lemma passOf_never_preserved:
  "cand_status (fst (passOf svc hs args m s)) \<noteq> PRESERVED"
  by (cases s)
     (auto simp: passOf_def noCandidate_def semanticStrategy_def Let_def
           split: sum.splits option.splits if_splits)

lemma passOf_EXACT:
  "passOf svc hs args m EXACT =
     (noCandidate, [\<lparr>strategy = EXACT, result = NO_MATCH, attempt_confidence = 0\<rparr>])"
  by (simp add: passOf_def)

lemma findingRelocate_cases:
  assumes ok: "findingRelocate svc args = Inr r"
  shows "(\<exists>pre s post.
             strategiesOf args = pre @ s # post \<and>
             allBelow svc (hasStoreOf svc) args (minConfidenceOf args) pre \<and>
             minConfidenceOf args
               \<le> cand_confidence (fst (passOf svc (hasStoreOf svc) args (minConfidenceOf args) s)) \<and>
             r = resultOf (fst (passOf svc (hasStoreOf svc) args (minConfidenceOf args) s))
                   (traceOf svc (hasStoreOf svc) args (minConfidenceOf args) (pre @ [s])))
          \<or> (allBelow svc (hasStoreOf svc) args (minConfidenceOf args) (strategiesOf args) \<and>
              r = staleResult
                    (traceOf svc (hasStoreOf svc) args (minConfidenceOf args) (strategiesOf args)))"
proof -
  let ?hs = "hasStoreOf svc" and ?m = "minConfidenceOf args" and ?ss = "strategiesOf args"
  from findingRelocate_Inr[OF ok] obtain res tried where
    loop: "relocateLoop svc ?hs args ?m ?ss [] = Inr (res, tried)"
    and r: "r = (case res of Some r' \<Rightarrow> r' | None \<Rightarrow> staleResult tried)"
    by blast
  show ?thesis
  proof (cases res)
    case None
    with relocateLoop_None[of svc ?hs args ?m ?ss "[]" tried] loop r
    show ?thesis by simp
  next
    case (Some r')
    with relocateLoop_Some[of svc ?hs args ?m ?ss "[]" r' tried] loop r
    show ?thesis by simp
  qed
qed

text \<open>
  Claim C3, as amended. When the call replies with a success, either the strategies
  split into those before a strategy \<open>s\<close>, all with a confidence below the threshold,
  \<open>s\<close> itself with a confidence that reaches it, and the rest, and the result is the
  status, method and confidence of \<open>s\<close> with exactly the trace of the strategies up to
  \<open>s\<close> (none after it was attempted); or every strategy stays below the threshold and
  the result is STALE, CONTENT\_CHANGED, confidence 0, with the trace of them all. The
  result is never PRESERVED: the pass of EXACT always records NO\_MATCH and leaves the
  confidence 0 with the status ORPHANED.
\<close>

theorem relocation_halts_at_first_qualifying:
  assumes ok: "findingRelocate svc args = Inr r"
  shows "((\<exists>pre s post.
             strategiesOf args = pre @ s # post \<and>
             allBelow svc (hasStoreOf svc) args (minConfidenceOf args) pre \<and>
             minConfidenceOf args
               \<le> cand_confidence (fst (passOf svc (hasStoreOf svc) args (minConfidenceOf args) s)) \<and>
             r = resultOf (fst (passOf svc (hasStoreOf svc) args (minConfidenceOf args) s))
                   (traceOf svc (hasStoreOf svc) args (minConfidenceOf args) (pre @ [s])))
          \<or> (allBelow svc (hasStoreOf svc) args (minConfidenceOf args) (strategiesOf args) \<and>
              r = staleResult
                    (traceOf svc (hasStoreOf svc) args (minConfidenceOf args) (strategiesOf args))))
         \<and> status r \<noteq> PRESERVED
         \<and> passOf svc (hasStoreOf svc) args (minConfidenceOf args) EXACT
               = (noCandidate, [noMatch EXACT])"
proof -
  note main = findingRelocate_cases[OF ok]
  have np: "status r \<noteq> PRESERVED"
    using main passOf_never_preserved[of svc "hasStoreOf svc" args "minConfidenceOf args"]
    by (auto simp: resultOf_def staleResult_def)
  show ?thesis using main np by (simp add: passOf_EXACT noMatch_def)
qed

lemma example_drift:
  "findingRelocate noServices (relocateParams None None (Some exampleManifest))
     = Inr (resultOf driftCandidate [noMatch EXACT, driftMatch])"
  by (simp add: findingRelocate_def relocateParams_def noServices_def defaultStrategies_def
      resultOf_def driftCandidate_def noMatch_def driftMatch_def noCandidate_def)

lemma example_exact_zero:
  "findingRelocate noServices (relocateParams (Some [EXACT]) (Some 0) None)
     = Inr (resultOf noCandidate [noMatch EXACT])"
  by (simp add: findingRelocate_def relocateParams_def noServices_def
      resultOf_def noMatch_def noCandidate_def)

lemma example_default_zero:
  "findingRelocate noServices (relocateParams None (Some 0) None)
     = Inr (resultOf noCandidate [noMatch EXACT])"
  by (simp add: findingRelocate_def relocateParams_def noServices_def defaultStrategies_def
      resultOf_def noMatch_def noCandidate_def)

lemma example_bare:
  "findingRelocate noServices (relocateParams None None None)
     = Inr (staleResult [noMatch EXACT,
              \<lparr>strategy = DRIFT, result = NO_DELTA_MANIFEST, attempt_confidence = 0\<rparr>,
              noMatch HASH_GLOBAL, noMatch FUZZY])"
  by (simp add: findingRelocate_def relocateParams_def noServices_def defaultStrategies_def
      staleResult_def noMatch_def noCandidate_def hasEmbedder_def)

text \<open>
  The amended claim at the default strategies with a delta manifest: EXACT stays below
  0.7, DRIFT qualifies with 0.95, and nothing after DRIFT is in the trace.
\<close>

theorem relocation_halts_at_first_qualifying_witness:
  "findingRelocate noServices (relocateParams None None (Some exampleManifest))
     = Inr (resultOf driftCandidate [noMatch EXACT, driftMatch]) \<and>
   strategiesOf (relocateParams None None (Some exampleManifest))
     = [EXACT] @ DRIFT # [SEMANTIC, HASH_GLOBAL, FUZZY] \<and>
   minConfidenceOf (relocateParams None None (Some exampleManifest)) = 7 / 10 \<and>
   allBelow noServices False (relocateParams None None (Some exampleManifest)) (7 / 10) [EXACT] \<and>
   passOf noServices False (relocateParams None None (Some exampleManifest)) (7 / 10) DRIFT
     = (driftCandidate, [driftMatch]) \<and>
   traceOf noServices False (relocateParams None None (Some exampleManifest)) (7 / 10) ([EXACT] @ [DRIFT])
     = [noMatch EXACT, driftMatch] \<and>
   status (resultOf driftCandidate [noMatch EXACT, driftMatch]) = RELOCATED \<and>
   status (resultOf driftCandidate [noMatch EXACT, driftMatch]) \<noteq> PRESERVED \<and>
   passOf noServices (hasStoreOf noServices) (relocateParams None None (Some exampleManifest))
       (minConfidenceOf (relocateParams None None (Some exampleManifest))) EXACT
     = (noCandidate, [noMatch EXACT])"
proof -
  let ?args = "relocateParams None None (Some exampleManifest)"
  note t = relocation_halts_at_first_qualifying[OF example_drift]
  have np: "status (resultOf driftCandidate [noMatch EXACT, driftMatch]) \<noteq> PRESERVED"
    using t by blast
  have ex: "passOf noServices (hasStoreOf noServices) ?args (minConfidenceOf ?args) EXACT
              = (noCandidate, [noMatch EXACT])"
    using t by blast
  have c1: "strategiesOf ?args = [EXACT] @ DRIFT # [SEMANTIC, HASH_GLOBAL, FUZZY]"
    by (simp add: strategiesOf_def relocateParams_def defaultStrategies_def)
  have c2: "minConfidenceOf ?args = 7 / 10"
    by (simp add: minConfidenceOf_def relocateParams_def)
  have c3: "allBelow noServices False ?args (7 / 10) [EXACT]"
    by (simp add: allBelow_def passOf_def noCandidate_def)
  have c4: "passOf noServices False ?args (7 / 10) DRIFT = (driftCandidate, [driftMatch])"
    by (simp add: passOf_def relocateParams_def driftCandidate_def driftMatch_def)
  have c5: "traceOf noServices False ?args (7 / 10) ([EXACT] @ [DRIFT]) = [noMatch EXACT, driftMatch]"
    by (simp add: traceOf_def passOf_def relocateParams_def driftMatch_def noMatch_def)
  have c6: "status (resultOf driftCandidate [noMatch EXACT, driftMatch]) = RELOCATED"
    by (simp add: resultOf_def driftCandidate_def)
  show ?thesis using example_drift np ex c1 c2 c3 c4 c5 c6 by (intro conjI)
qed

text \<open>
  Claim C3 as stated fails: with EXACT as the only strategy and the threshold 0, EXACT
  is the first strategy whose confidence reaches the threshold, the pipeline halts on
  it, and the result is ORPHANED with confidence 0, not PRESERVED with confidence 1.
\<close>

theorem exact_success_counterexample:
  "findingRelocate noServices (relocateParams (Some [EXACT]) (Some 0) None)
     = Inr (resultOf noCandidate [noMatch EXACT]) \<and>
   minConfidenceOf (relocateParams (Some [EXACT]) (Some 0) None)
     \<le> cand_confidence (fst (passOf noServices False (relocateParams (Some [EXACT]) (Some 0) None) 0 EXACT)) \<and>
   status (resultOf noCandidate [noMatch EXACT]) = ORPHANED \<and>
   relocation_confidence (resultOf noCandidate [noMatch EXACT]) = 0 \<and>
   \<not> (status (resultOf noCandidate [noMatch EXACT]) = PRESERVED \<and>
       relocation_confidence (resultOf noCandidate [noMatch EXACT]) = 1)"
  using example_exact_zero
  by (simp add: minConfidenceOf_def relocateParams_def passOf_def noCandidate_def resultOf_def)

lemma passOf_fixed:
  "passOf svc hs args m EXACT = (noCandidate, [noMatch EXACT])"
  "passOf svc hs args m HASH_GLOBAL = (noCandidate, [noMatch HASH_GLOBAL])"
  "passOf svc hs args m FUZZY = (noCandidate, [noMatch FUZZY])"
  by (simp_all add: passOf_def noMatch_def)

lemma passOf_DRIFT:
  "passOf svc hs args m DRIFT =
     (if frp_delta_manifest args \<noteq> None then (driftCandidate, [driftMatch])
      else (noCandidate,
            [\<lparr>strategy = DRIFT, result = NO_DELTA_MANIFEST, attempt_confidence = 0\<rparr>]))"
  by (simp add: passOf_def driftCandidate_def driftMatch_def)

lemma passOf_SEMANTIC_off:
  "\<not> (hs \<and> hasEmbedder svc) \<Longrightarrow> passOf svc hs args m SEMANTIC = (noCandidate, [])"
  by (auto simp: passOf_def)

lemma passOf_SEMANTIC_on:
  "fst (passOf svc hs args m SEMANTIC) = noCandidate \<or>
   (hs \<and> hasEmbedder svc \<and> cand_status (fst (passOf svc hs args m SEMANTIC)) = RELOCATED \<and>
    cand_method (fst (passOf svc hs args m SEMANTIC)) = SEMANTIC_SAME_FILE \<and>
    m < cand_confidence (fst (passOf svc hs args m SEMANTIC)))"
  by (auto simp: passOf_def semanticStrategy_def Let_def split: sum.splits option.splits)

lemma passOf_positive:
  assumes "0 < m" "m \<le> cand_confidence (fst (passOf svc hs args m s))"
  shows "(s = DRIFT \<and> frp_delta_manifest args \<noteq> None \<and>
            fst (passOf svc hs args m s) = driftCandidate) \<or>
         (s = SEMANTIC \<and> hs \<and> hasEmbedder svc \<and>
            cand_status (fst (passOf svc hs args m s)) = RELOCATED \<and>
            cand_method (fst (passOf svc hs args m s)) = SEMANTIC_SAME_FILE)"
proof (cases s)
  case EXACT
  with assms show ?thesis by (simp add: passOf_fixed noCandidate_def)
next
  case DRIFT
  with assms show ?thesis by (simp add: passOf_DRIFT noCandidate_def split: if_splits)
next
  case SEMANTIC
  with assms passOf_SEMANTIC_on[of svc hs args m] show ?thesis
    by (auto simp: noCandidate_def)
next
  case HASH_GLOBAL
  with assms show ?thesis by (simp add: passOf_fixed noCandidate_def)
next
  case FUZZY
  with assms show ?thesis by (simp add: passOf_fixed noCandidate_def)
qed

lemma relocate_no_store_total:
  assumes "vectorStoreManager svc = None"
  shows "\<exists>r. findingRelocate svc args = Inr r"
proof -
  have run: "\<exists>cp. runStrategy svc False args (minConfidenceOf args) s = Inr cp" for s
    by (cases s) simp_all
  have loop: "\<exists>res t. relocateLoop svc False args (minConfidenceOf args) ss tried = Inr (res, t)"
    for ss tried
  proof (induction ss arbitrary: tried)
    case Nil
    show ?case by simp
  next
    case (Cons a ss)
    obtain c p where "runStrategy svc False args (minConfidenceOf args) a = Inr (c, p)"
      using run[of a] by auto
    with Cons[of "tried @ p"] show ?case by (cases "minConfidenceOf args \<le> cand_confidence c") auto
  qed
  obtain res t where
    "relocateLoop svc False args (minConfidenceOf args) (strategiesOf args) [] = Inr (res, t)"
    using loop by blast
  then show ?thesis using assms
    by (cases res) (simp_all add: findingRelocate_def Let_def minConfidenceOf_def strategiesOf_def)
qed

text \<open>
  Claim C10, as amended. EXACT, HASH\_GLOBAL and FUZZY always record NO\_MATCH with
  confidence 0 and have no candidate; DRIFT has the candidate RELOCATED, LINE\_DRIFT,
  0.95 exactly when there is a delta manifest; SEMANTIC does nothing without the store
  and the embedder. When the threshold is positive, a successful reply other than
  STALE with CONTENT\_CHANGED comes from DRIFT with a delta manifest or from SEMANTIC
  with the store and the embedder, and a call with no delta manifest and no vector
  store manager returns STALE, CONTENT\_CHANGED, confidence 0.
\<close>

theorem relocation_above_zero_threshold:
  assumes pos: "0 < minConfidenceOf args"
  shows "passOf svc hs args m EXACT = (noCandidate, [noMatch EXACT]) \<and>
         passOf svc hs args m HASH_GLOBAL = (noCandidate, [noMatch HASH_GLOBAL]) \<and>
         passOf svc hs args m FUZZY = (noCandidate, [noMatch FUZZY]) \<and>
         passOf svc hs args m DRIFT =
           (if frp_delta_manifest args \<noteq> None then (driftCandidate, [driftMatch])
            else (noCandidate,
                  [\<lparr>strategy = DRIFT, result = NO_DELTA_MANIFEST, attempt_confidence = 0\<rparr>])) \<and>
         (\<not> (hs \<and> hasEmbedder svc) \<longrightarrow> passOf svc hs args m SEMANTIC = (noCandidate, [])) \<and>
         (\<forall>r. findingRelocate svc args = Inr r \<and>
               (status r \<noteq> STALE \<or> relocation_method r \<noteq> CONTENT_CHANGED) \<longrightarrow>
               (DRIFT \<in> set (strategiesOf args) \<and> frp_delta_manifest args \<noteq> None \<and>
                  status r = RELOCATED \<and> relocation_method r = LINE_DRIFT \<and>
                  relocation_confidence r = 95 / 100) \<or>
               (SEMANTIC \<in> set (strategiesOf args) \<and> hasStoreOf svc \<and> hasEmbedder svc \<and>
                  status r = RELOCATED \<and> relocation_method r = SEMANTIC_SAME_FILE)) \<and>
         (frp_delta_manifest args = None \<and> vectorStoreManager svc = None \<longrightarrow>
            (\<exists>tried. findingRelocate svc args = Inr (staleResult tried)))"
proof -
  let ?hs = "hasStoreOf svc" and ?m = "minConfidenceOf args" and ?ss = "strategiesOf args"
  have origin: "(DRIFT \<in> set ?ss \<and> frp_delta_manifest args \<noteq> None \<and>
                  status r = RELOCATED \<and> relocation_method r = LINE_DRIFT \<and>
                  relocation_confidence r = 95 / 100) \<or>
               (SEMANTIC \<in> set ?ss \<and> hasStoreOf svc \<and> hasEmbedder svc \<and>
                  status r = RELOCATED \<and> relocation_method r = SEMANTIC_SAME_FILE)"
    if ok: "findingRelocate svc args = Inr r"
      and ns: "status r \<noteq> STALE \<or> relocation_method r \<noteq> CONTENT_CHANGED" for r
  proof -
    from findingRelocate_cases[OF ok] ns obtain pre s post where
      h: "?ss = pre @ s # post"
         "?m \<le> cand_confidence (fst (passOf svc ?hs args ?m s))"
         "r = resultOf (fst (passOf svc ?hs args ?m s)) (traceOf svc ?hs args ?m (pre @ [s]))"
      by (auto simp: staleResult_def)
    have mem: "s \<in> set ?ss" using h(1) by simp
    from passOf_positive[OF pos h(2)] mem show ?thesis
      by (auto simp: h(3) resultOf_def driftCandidate_def)
  qed
  have bare: "\<exists>tried. findingRelocate svc args = Inr (staleResult tried)"
    if nm: "frp_delta_manifest args = None" and nv: "vectorStoreManager svc = None"
  proof -
    obtain r where ok: "findingRelocate svc args = Inr r"
      using relocate_no_store_total[OF nv] by blast
    have nhs: "\<not> ?hs" using nv by (simp add: hasStoreOf_def)
    have "status r = STALE \<and> relocation_method r = CONTENT_CHANGED"
      using origin[OF ok] nm nhs by blast
    with findingRelocate_cases[OF ok] pos passOf_positive[OF pos, of svc ?hs args] nm nhs
    have "\<exists>tried. r = staleResult tried"
      by (auto simp: resultOf_def)
    with ok show ?thesis by blast
  qed
  show ?thesis
    using origin bare
    by (simp add: passOf_fixed passOf_DRIFT passOf_SEMANTIC_off)
qed

text \<open>
  The amended claim at the default threshold 0.7: without services and manifest the
  result is STALE; with a manifest it is the DRIFT relocation.
\<close>

theorem relocation_above_zero_threshold_witness:
  "0 < minConfidenceOf (relocateParams None None None) \<and>
   frp_delta_manifest (relocateParams None None None) = None \<and>
   vectorStoreManager noServices = None \<and>
   (\<exists>tried. findingRelocate noServices (relocateParams None None None) = Inr (staleResult tried)) \<and>
   0 < minConfidenceOf (relocateParams None None (Some exampleManifest)) \<and>
   findingRelocate noServices (relocateParams None None (Some exampleManifest))
     = Inr (resultOf driftCandidate [noMatch EXACT, driftMatch]) \<and>
   status (resultOf driftCandidate [noMatch EXACT, driftMatch]) \<noteq> STALE \<and>
   DRIFT \<in> set (strategiesOf (relocateParams None None (Some exampleManifest))) \<and>
   frp_delta_manifest (relocateParams None None (Some exampleManifest)) \<noteq> None \<and>
   relocation_method (resultOf driftCandidate [noMatch EXACT, driftMatch]) = LINE_DRIFT \<and>
   relocation_confidence (resultOf driftCandidate [noMatch EXACT, driftMatch]) = 95 / 100"
proof -
  let ?bare = "relocateParams None None None"
  let ?drift = "relocateParams None None (Some exampleManifest)"
  let ?r = "resultOf driftCandidate [noMatch EXACT, driftMatch]"
  have p1: "0 < minConfidenceOf ?bare" by (simp add: minConfidenceOf_def relocateParams_def)
  have p2: "0 < minConfidenceOf ?drift" by (simp add: minConfidenceOf_def relocateParams_def)
  have nm: "frp_delta_manifest ?bare = None" by (simp add: relocateParams_def)
  have nv: "vectorStoreManager noServices = None" by (simp add: noServices_def)
  have ns: "status ?r \<noteq> STALE" by (simp add: resultOf_def driftCandidate_def)
  have nse: "\<not> (hasStoreOf noServices \<and> hasEmbedder noServices)"
    by (simp add: hasStoreOf_def noServices_def)
  from relocation_above_zero_threshold[OF p1, of noServices False 0] nm nv
  have b: "\<exists>tried. findingRelocate noServices ?bare = Inr (staleResult tried)"
    by blast
  from relocation_above_zero_threshold[OF p2, of noServices False 0] example_drift ns nse
  have d: "DRIFT \<in> set (strategiesOf ?drift) \<and> frp_delta_manifest ?drift \<noteq> None \<and>
           status ?r = RELOCATED \<and> relocation_method ?r = LINE_DRIFT \<and>
           relocation_confidence ?r = 95 / 100"
    by blast
  show ?thesis using p1 nm nv b p2 example_drift ns d by (intro conjI) blast+
qed

text \<open>
  Claim C10 as stated fails: with the threshold 0, no delta manifest and no services,
  the first strategy qualifies with confidence 0 and the result is ORPHANED, not STALE.
\<close>

theorem zero_threshold_counterexample:
  "frp_delta_manifest (relocateParams None (Some 0) None) = None \<and>
   vectorStoreManager noServices = None \<and> embeddingManager noServices = None \<and>
   findingRelocate noServices (relocateParams None (Some 0) None)
     = Inr (resultOf noCandidate [noMatch EXACT]) \<and>
   status (resultOf noCandidate [noMatch EXACT]) = ORPHANED \<and>
   status (resultOf noCandidate [noMatch EXACT]) \<noteq> STALE"
  using example_default_zero
  by (simp add: relocateParams_def noServices_def resultOf_def noCandidate_def)

section \<open>Cascade propagation\<close>

lemma visitEdge_sets:
  "set (cascadeAffected (visitEdge c e ps)) =
     set (cascadeAffected ps) \<union> (set (otherEnds c [e]) - set (visited ps))"
  "set (visited (visitEdge c e ps)) = set (visited ps) \<union> set (otherEnds c [e])"
  "semanticAffected (visitEdge c e ps) = semanticAffected ps"
  by (auto simp: visitEdge_def otherEnds_def Let_def)

lemma otherEnds_Cons: "otherEnds c (e # es) = otherEnds c [e] @ otherEnds c es"
  by (simp add: otherEnds_def)

lemma visitEdges_sets:
  "set (cascadeAffected (visitEdges c es ps)) =
     set (cascadeAffected ps) \<union> (set (otherEnds c es) - set (visited ps)) \<and>
   set (visited (visitEdges c es ps)) = set (visited ps) \<union> set (otherEnds c es) \<and>
   semanticAffected (visitEdges c es ps) = semanticAffected ps"
proof (induction es arbitrary: ps)
  case Nil
  show ?case by (simp add: otherEnds_def)
next
  case (Cons e es)
  show ?case
    using Cons.IH[of "visitEdge c e ps"] visitEdge_sets[of c e ps]
    by (auto simp: otherEnds_Cons[of c e es])
qed

lemma visitEdge_distinct:
  "distinct (cascadeAffected ps) \<Longrightarrow> set (cascadeAffected ps) \<subseteq> set (visited ps) \<Longrightarrow>
   distinct (cascadeAffected (visitEdge c e ps)) \<and>
   set (cascadeAffected (visitEdge c e ps)) \<subseteq> set (visited (visitEdge c e ps))"
  by (auto simp: visitEdge_def Let_def)

lemma visitEdges_distinct:
  "distinct (cascadeAffected ps) \<Longrightarrow> set (cascadeAffected ps) \<subseteq> set (visited ps) \<Longrightarrow>
   distinct (cascadeAffected (visitEdges c es ps)) \<and>
   set (cascadeAffected (visitEdges c es ps)) \<subseteq> set (visited (visitEdges c es ps))"
proof (induction es arbitrary: ps)
  case Nil
  then show ?case by simp
next
  case (Cons e es)
  from visitEdge_distinct[OF Cons.prems, of c e] Cons.IH[of "visitEdge c e ps"]
  show ?case by simp
qed

lemma propagateLoop_sets:
  assumes "propagateLoop svc project ets cs ps = Inr ps'"
  shows "set (cascadeAffected ps') =
           set (cascadeAffected ps) \<union>
           ((\<Union>c \<in> set cs. set (otherEnds c (edgesFound svc project ets c))) - set (visited ps)) \<and>
         set (visited ps') =
           set (visited ps) \<union> (\<Union>c \<in> set cs. set (otherEnds c (edgesFound svc project ets c))) \<and>
         semanticAffected ps' = semanticAffected ps"
  using assms
proof (induction cs arbitrary: ps)
  case Nil
  then show ?case by simp
next
  case (Cons c cs)
  from Cons.prems obtain raw where
    raw: "search_hits svc (propagateQuery c ets) 100 = Inr raw"
    and rest: "propagateLoop svc project ets cs
                 (visitEdges c (map ep_edge (projectEdges project raw)) ps) = Inr ps'"
    by (auto split: option.splits sum.splits)
  have ef: "edgesFound svc project ets c = map ep_edge (projectEdges project raw)"
    by (simp add: edgesFound_def raw)
  from Cons.IH[OF rest] show ?case
    unfolding ef[symmetric] using visitEdges_sets[of c "edgesFound svc project ets c" ps]
    by auto
qed

lemma propagateLoop_distinct:
  assumes "propagateLoop svc project ets cs ps = Inr ps'"
    "distinct (cascadeAffected ps)" "set (cascadeAffected ps) \<subseteq> set (visited ps)"
  shows "distinct (cascadeAffected ps')"
  using assms
proof (induction cs arbitrary: ps)
  case Nil
  then show ?case by simp
next
  case (Cons c cs)
  from Cons.prems(1) obtain raw where
    rest: "propagateLoop svc project ets cs
                 (visitEdges c (map ep_edge (projectEdges project raw)) ps) = Inr ps'"
    by (auto split: option.splits sum.splits)
  from visitEdges_distinct[OF Cons.prems(2,3)] Cons.IH[OF rest] show ?case by blast
qed

lemma graphPropagate_with_services:
  assumes "graphPropagate svc args = Inr res"
    "vectorStoreManager svc = Some StoreFound" "hasEmbedder svc"
  shows "\<exists>ps. propagateLoop svc (gpp_project_path args) (edgeTypesOf args) (gpp_dirty_chunks args)
                 (initialPropagateState (gpp_dirty_chunks args)) = Inr ps \<and>
              res = propagateResult (gpp_dirty_chunks args) ps"
  using assms
  by (auto simp: graphPropagate_def Let_def edgeTypesOf_def split: sum.splits)

lemma graphPropagate_without_services:
  assumes "\<not> (vectorStoreManager svc = Some StoreFound \<and> hasEmbedder svc)"
    "graphPropagate svc args = Inr res"
  shows "res = propagateResult (gpp_dirty_chunks args) (initialPropagateState (gpp_dirty_chunks args))"
  using assms
  by (auto simp: graphPropagate_def Let_def split: option.splits getStore_outcome.splits sum.splits if_splits)

lemma graphPropagate_cases:
  assumes "graphPropagate svc args = Inr res"
  shows "\<exists>ps. res = propagateResult (gpp_dirty_chunks args) ps \<and> semanticAffected ps = []"
proof (cases "vectorStoreManager svc = Some StoreFound \<and> hasEmbedder svc")
  case True
  with graphPropagate_with_services[OF assms] obtain ps where
    l: "propagateLoop svc (gpp_project_path args) (edgeTypesOf args) (gpp_dirty_chunks args)
                 (initialPropagateState (gpp_dirty_chunks args)) = Inr ps"
    and r: "res = propagateResult (gpp_dirty_chunks args) ps"
    by blast
  from propagateLoop_sets[OF l] have "semanticAffected ps = []"
    by (simp add: initialPropagateState_def)
  with r show ?thesis by blast
next
  case False
  from graphPropagate_without_services[OF False assms] show ?thesis
    by (auto simp: initialPropagateState_def)
qed

lemma graphPropagate_ignores_depth_and_weight:
  "graphPropagate svc (args\<lparr>gpp_max_depth := d, gpp_min_edge_weight := w\<rparr>) = graphPropagate svc args"
  by (simp add: graphPropagate_def Let_def
      split: option.splits getStore_outcome.splits sum.splits)

lemma graphPropagate_ignores_ripple:
  "graphPropagate svc (args\<lparr>gpp_enable_semantic_ripple := b, gpp_similarity_threshold := t\<rparr>)
     = graphPropagate svc args"
  by (simp add: graphPropagate_def Let_def
      split: option.splits getStore_outcome.splits sum.splits)

lemma graphServices_fields:
  "vectorStoreManager (graphServices es) = Some StoreFound"
  "hasEmbedder (graphServices es)"
  "embed_throws (graphServices es) q = None"
  "search_hits (graphServices es) q k = Inr (map edgeHit es)"
  by (simp_all add: graphServices_def exampleServices_def hasEmbedder_def)

lemma projectEdges_edgeHits: "map ep_edge (projectEdges ''/p'' (map edgeHit es)) = es"
  by (induction es) (simp_all add: edgeHit_def)

lemma example_propagate:
  "graphPropagate (graphServices es) (propagateParams d) =
     Inr (propagateResult [''A''] (visitEdges ''A'' es (initialPropagateState [''A''])))"
  by (simp add: graphPropagate_def Let_def graphServices_fields propagateParams_def
      projectEdges_edgeHits)

lemma scenario_result:
  "graphPropagate (graphServices scenarioGraph) (propagateParams d) = Inr (oneAffected ''B'' IMPORTS 1)"
  unfolding example_propagate
  by (simp add: scenarioGraph_def exampleEdge_def initialPropagateState_def visitEdge_def
      propagateResult_def oneAffected_def exampleChain_def Let_def)

lemma weak_edge_result:
  "graphPropagate (graphServices [exampleEdge ''A'' ''B'' IMPORTS (Some 1) None]) (propagateParams d)
     = Inr (oneAffected ''B'' IMPORTS 1)"
  unfolding example_propagate
  by (simp add: exampleEdge_def initialPropagateState_def visitEdge_def
      propagateResult_def oneAffected_def exampleChain_def Let_def)

lemma similar_edge_result:
  "graphPropagate (graphServices [exampleEdge ''A'' ''S'' SIMILAR_TO None (Some (9 / 10))])
       (propagateParams d)
     = Inr (oneAffected ''S'' SIMILAR_TO 1)"
  unfolding example_propagate
  by (simp add: exampleEdge_def initialPropagateState_def visitEdge_def
      propagateResult_def oneAffected_def exampleChain_def Let_def)

lemma no_services_propagate:
  "graphPropagate noServices (propagateParams d) =
     Inr \<lparr>cascade_affected = [], semantic_affected = [], all_affected = [''A''],
          cascade_chains = [], nodes_visited = 0, edges_traversed = 0, max_depth_reached = 0\<rparr>"
  by (simp add: graphPropagate_def Let_def noServices_def propagateParams_def
      initialPropagateState_def propagateResult_def)

text \<open>
  Claim C4, as amended. When the call replies with a success and the store and the
  embedder are there, \<open>cascade_affected\<close> holds, each once, exactly the chunks that are not
  dirty and are the other end of an edge record of the project, returned by the search
  for a dirty chunk, that has this dirty chunk as its source or its target: one hop, in
  either direction. Without the store or the embedder it is empty. The reply is the same
  whatever \<open>max_depth\<close> and \<open>min_edge_weight\<close> are.
\<close>

theorem cascade_is_one_hop:
  assumes ok: "graphPropagate svc args = Inr res"
  shows "(vectorStoreManager svc = Some StoreFound \<and> hasEmbedder svc \<longrightarrow>
            set (cascade_affected res) = oneHop svc args) \<and>
         (\<not> (vectorStoreManager svc = Some StoreFound \<and> hasEmbedder svc) \<longrightarrow>
            cascade_affected res = []) \<and>
         distinct (cascade_affected res) \<and>
         graphPropagate svc (args\<lparr>gpp_max_depth := d, gpp_min_edge_weight := w\<rparr>) = Inr res"
proof -
  let ?dirty = "gpp_dirty_chunks args"
  have on: "set (cascade_affected res) = oneHop svc args \<and> distinct (cascade_affected res)"
    if sv: "vectorStoreManager svc = Some StoreFound \<and> hasEmbedder svc"
  proof -
    from graphPropagate_with_services[OF ok] sv obtain ps where
      l: "propagateLoop svc (gpp_project_path args) (edgeTypesOf args) ?dirty
            (initialPropagateState ?dirty) = Inr ps"
      and r: "res = propagateResult ?dirty ps"
      by blast
    have "set (cascadeAffected ps) = oneHop svc args"
      using propagateLoop_sets[OF l]
      by (auto simp: initialPropagateState_def oneHop_def)
    moreover have "distinct (cascadeAffected ps)"
      using propagateLoop_distinct[OF l] by (simp add: initialPropagateState_def)
    ultimately show ?thesis by (simp add: r propagateResult_def)
  qed
  have off: "cascade_affected res = []"
    if "\<not> (vectorStoreManager svc = Some StoreFound \<and> hasEmbedder svc)"
    using graphPropagate_without_services[OF that ok]
    by (simp add: propagateResult_def initialPropagateState_def)
  have d: "distinct (cascade_affected res)"
    using on off by (cases "vectorStoreManager svc = Some StoreFound \<and> hasEmbedder svc") auto
  show ?thesis
    using on off d ok by (simp add: graphPropagate_ignores_depth_and_weight)
qed

text \<open>
  The amended claim at the scenario: dirty chunk A, A to B with weight 3 and B to C with
  weight 1, \<open>min_edge_weight = 2\<close>, \<open>max_depth = 3\<close>: B is affected and C is not (no edge
  of C touches A); the same with \<open>max_depth = 0\<close> and \<open>min_edge_weight = 5\<close>; and nothing is
  affected without services.
\<close>

theorem cascade_is_one_hop_witness:
  "graphPropagate (graphServices scenarioGraph) (propagateParams (Some 3))
     = Inr (oneAffected ''B'' IMPORTS 1) \<and>
   vectorStoreManager (graphServices scenarioGraph) = Some StoreFound \<and>
   hasEmbedder (graphServices scenarioGraph) \<and>
   oneHop (graphServices scenarioGraph) (propagateParams (Some 3)) = {''B''} \<and>
   cascade_affected (oneAffected ''B'' IMPORTS 1) = [''B''] \<and>
   ''C'' \<notin> set (cascade_affected (oneAffected ''B'' IMPORTS 1)) \<and>
   graphPropagate (graphServices scenarioGraph)
       ((propagateParams (Some 3))\<lparr>gpp_max_depth := Some 0, gpp_min_edge_weight := Some 5\<rparr>)
     = Inr (oneAffected ''B'' IMPORTS 1) \<and>
   (\<exists>res. graphPropagate noServices (propagateParams (Some 3)) = Inr res \<and>
          \<not> (vectorStoreManager noServices = Some StoreFound \<and> hasEmbedder noServices) \<and>
          cascade_affected res = [])"
proof -
  note t = cascade_is_one_hop[OF scenario_result[of "Some 3"], where d="Some 0" and w="Some 5"]
  have sv: "vectorStoreManager (graphServices scenarioGraph) = Some StoreFound"
    "hasEmbedder (graphServices scenarioGraph)"
    by (simp_all add: graphServices_fields)
  have c: "cascade_affected (oneAffected ''B'' IMPORTS 1) = [''B'']"
    "''C'' \<notin> set (cascade_affected (oneAffected ''B'' IMPORTS 1))"
    by (simp_all add: oneAffected_def)
  have h: "oneHop (graphServices scenarioGraph) (propagateParams (Some 3)) = {''B''}"
    using t sv c(1) by auto
  have i: "graphPropagate (graphServices scenarioGraph)
       ((propagateParams (Some 3))\<lparr>gpp_max_depth := Some 0, gpp_min_edge_weight := Some 5\<rparr>)
     = Inr (oneAffected ''B'' IMPORTS 1)"
    using t by blast
  obtain res where n: "graphPropagate noServices (propagateParams (Some 3)) = Inr res"
    using no_services_propagate by blast
  have ns: "\<not> (vectorStoreManager noServices = Some StoreFound \<and> hasEmbedder noServices)"
    by (simp add: noServices_def)
  have e: "cascade_affected res = []"
    using cascade_is_one_hop[OF n] ns by blast
  show ?thesis using scenario_result sv h c i n ns e by (intro conjI) blast+
qed

text \<open>
  Claim C4 as stated fails: with \<open>max_depth = 0\<close> the scenario still has B in
  \<open>cascade_affected\<close>, and an edge from A to B of weight 1, below \<open>min_edge_weight = 2\<close>,
  still makes B affected.
\<close>

theorem cascade_depth_and_weight_counterexample:
  "gpp_max_depth (propagateParams (Some 0)) = Some 0 \<and>
   graphPropagate (graphServices scenarioGraph) (propagateParams (Some 0))
     = Inr (oneAffected ''B'' IMPORTS 1) \<and>
   cascade_affected (oneAffected ''B'' IMPORTS 1) \<noteq> [] \<and>
   gpp_min_edge_weight (propagateParams (Some 3)) = Some 2 \<and>
   graphPropagate (graphServices [exampleEdge ''A'' ''B'' IMPORTS (Some 1) None])
       (propagateParams (Some 3))
     = Inr (oneAffected ''B'' IMPORTS 1) \<and>
   ''B'' \<in> set (cascade_affected (oneAffected ''B'' IMPORTS 1))"
  using scenario_result[of "Some 0"] weak_edge_result[of "Some 3"]
  by (simp add: propagateParams_def oneAffected_def)

text \<open>
  Claim C5, as amended. In every successful reply \<open>semantic_affected\<close> is empty (and so
  disjoint from \<open>cascade_affected\<close>), \<open>all_affected\<close> is the dirty chunks followed by
  \<open>cascade_affected\<close> and \<open>semantic_affected\<close>, and the reply is the same whatever
  \<open>enable_semantic_ripple\<close> and \<open>similarity_threshold\<close> are. A SIMILAR\_TO edge found for a
  dirty chunk, leading from it to a chunk that is not dirty, puts that chunk into
  \<open>cascade_affected\<close>.
\<close>

theorem semantic_affected_is_empty:
  assumes ok: "graphPropagate svc args = Inr res"
  shows "semantic_affected res = [] \<and>
         set (semantic_affected res) \<inter> set (cascade_affected res) = {} \<and>
         all_affected res = gpp_dirty_chunks args @ cascade_affected res @ semantic_affected res \<and>
         graphPropagate svc
             (args\<lparr>gpp_enable_semantic_ripple := b, gpp_similarity_threshold := t\<rparr>) = Inr res \<and>
         (vectorStoreManager svc = Some StoreFound \<and> hasEmbedder svc \<longrightarrow>
            (\<forall>c \<in> set (gpp_dirty_chunks args).
               \<forall>e \<in> set (edgesFound svc (gpp_project_path args) (edgeTypesOf args) c).
                  edge_type e = SIMILAR_TO \<and> source e = c \<and> target e \<notin> set (gpp_dirty_chunks args)
                  \<longrightarrow> target e \<in> set (cascade_affected res)))"
proof -
  from graphPropagate_cases[OF ok] obtain ps where
    r: "res = propagateResult (gpp_dirty_chunks args) ps" and e: "semanticAffected ps = []"
    by blast
  have s: "semantic_affected res = []" by (simp add: r e propagateResult_def)
  have a: "all_affected res = gpp_dirty_chunks args @ cascade_affected res @ semantic_affected res"
    by (simp add: r propagateResult_def)
  have i: "graphPropagate svc
             (args\<lparr>gpp_enable_semantic_ripple := b, gpp_similarity_threshold := t\<rparr>) = Inr res"
    using ok by (simp add: graphPropagate_ignores_ripple)
  have sim: "\<forall>c \<in> set (gpp_dirty_chunks args).
               \<forall>e \<in> set (edgesFound svc (gpp_project_path args) (edgeTypesOf args) c).
                  edge_type e = SIMILAR_TO \<and> source e = c \<and> target e \<notin> set (gpp_dirty_chunks args)
                  \<longrightarrow> target e \<in> set (cascade_affected res)"
    if sv: "vectorStoreManager svc = Some StoreFound \<and> hasEmbedder svc"
  proof -
    from graphPropagate_with_services[OF ok] sv obtain ps' where
      l: "propagateLoop svc (gpp_project_path args) (edgeTypesOf args) (gpp_dirty_chunks args)
            (initialPropagateState (gpp_dirty_chunks args)) = Inr ps'"
      and r': "res = propagateResult (gpp_dirty_chunks args) ps'"
      by blast
    have c: "set (cascade_affected res) = oneHop svc args"
      using propagateLoop_sets[OF l]
      by (auto simp: r' propagateResult_def initialPropagateState_def oneHop_def)
    show ?thesis
      unfolding c oneHop_def otherEnds_def by force
  qed
  show ?thesis using s a i sim by simp
qed

text \<open>
  The amended claim at a graph with one SIMILAR\_TO edge of confidence 0.9 from the
  dirty chunk A to S.
\<close>

theorem semantic_affected_is_empty_witness:
  "graphPropagate (graphServices [exampleEdge ''A'' ''S'' SIMILAR_TO None (Some (9 / 10))])
       (propagateParams None)
     = Inr (oneAffected ''S'' SIMILAR_TO 1) \<and>
   vectorStoreManager (graphServices [exampleEdge ''A'' ''S'' SIMILAR_TO None (Some (9 / 10))])
     = Some StoreFound \<and>
   hasEmbedder (graphServices [exampleEdge ''A'' ''S'' SIMILAR_TO None (Some (9 / 10))]) \<and>
   semantic_affected (oneAffected ''S'' SIMILAR_TO 1) = [] \<and>
   all_affected (oneAffected ''S'' SIMILAR_TO 1) = [''A'', ''S''] \<and>
   graphPropagate (graphServices [exampleEdge ''A'' ''S'' SIMILAR_TO None (Some (9 / 10))])
       ((propagateParams None)\<lparr>gpp_enable_semantic_ripple := Some False,
                                gpp_similarity_threshold := Some (1 / 2)\<rparr>)
     = Inr (oneAffected ''S'' SIMILAR_TO 1) \<and>
   ''S'' \<in> set (cascade_affected (oneAffected ''S'' SIMILAR_TO 1))"
proof -
  let ?e = "exampleEdge ''A'' ''S'' SIMILAR_TO None (Some (9 / 10))"
  let ?svc = "graphServices [?e]"
  note t = semantic_affected_is_empty[OF similar_edge_result[of None], where b="Some False" and t="Some (1 / 2)"]
  have sv: "vectorStoreManager ?svc = Some StoreFound" "hasEmbedder ?svc"
    by (simp_all add: graphServices_fields)
  have ef: "edgesFound ?svc (gpp_project_path (propagateParams None))
              (edgeTypesOf (propagateParams None)) ''A'' = [?e]"
    using projectEdges_edgeHits[of "[?e]"]
    by (simp add: edgesFound_def graphServices_fields propagateParams_def)
  have s: "semantic_affected (oneAffected ''S'' SIMILAR_TO 1) = []" using t by blast
  have a: "all_affected (oneAffected ''S'' SIMILAR_TO 1) = [''A'', ''S'']"
    using t by (simp add: propagateParams_def oneAffected_def)
  have i: "graphPropagate ?svc
       ((propagateParams None)\<lparr>gpp_enable_semantic_ripple := Some False,
                                gpp_similarity_threshold := Some (1 / 2)\<rparr>)
     = Inr (oneAffected ''S'' SIMILAR_TO 1)"
    using t by blast
  have "\<forall>c \<in> set (gpp_dirty_chunks (propagateParams None)).
               \<forall>e \<in> set (edgesFound ?svc (gpp_project_path (propagateParams None))
                             (edgeTypesOf (propagateParams None)) c).
                  edge_type e = SIMILAR_TO \<and> source e = c \<and>
                  target e \<notin> set (gpp_dirty_chunks (propagateParams None))
                  \<longrightarrow> target e \<in> set (cascade_affected (oneAffected ''S'' SIMILAR_TO 1))"
    using t sv by blast
  then have m: "''S'' \<in> set (cascade_affected (oneAffected ''S'' SIMILAR_TO 1))"
    using ef by (simp add: propagateParams_def exampleEdge_def)
  show ?thesis using similar_edge_result sv s a i m by (intro conjI)
qed

text \<open>
  Claim C5 as stated fails: with the ripple enabled by default and a SIMILAR\_TO edge of
  confidence 0.9 (above the threshold 0.8) from the dirty chunk A to S,
  \<open>semantic_affected\<close> is empty; S is reported in \<open>cascade_affected\<close>.
\<close>

theorem semantic_ripple_counterexample:
  "gpp_enable_semantic_ripple (propagateParams None) = None \<and>
   edge_type (exampleEdge ''A'' ''S'' SIMILAR_TO None (Some (9 / 10))) = SIMILAR_TO \<and>
   source (exampleEdge ''A'' ''S'' SIMILAR_TO None (Some (9 / 10)))
     \<in> set (gpp_dirty_chunks (propagateParams None)) \<and>
   edge_confidence (exampleEdge ''A'' ''S'' SIMILAR_TO None (Some (9 / 10))) = Some (9 / 10) \<and>
   (8 / 10 :: rat) \<le> 9 / 10 \<and>
   graphPropagate (graphServices [exampleEdge ''A'' ''S'' SIMILAR_TO None (Some (9 / 10))])
       (propagateParams None)
     = Inr (oneAffected ''S'' SIMILAR_TO 1) \<and>
   semantic_affected (oneAffected ''S'' SIMILAR_TO 1) = [] \<and>
   cascade_affected (oneAffected ''S'' SIMILAR_TO 1) = [''S'']"
  using similar_edge_result[of None]
  by (simp add: propagateParams_def oneAffected_def exampleEdge_def)

section \<open>Graph updates\<close>

lemma store_insert_fresh:
  "k \<notin> fst ` set st \<Longrightarrow> store_insert k v st = st @ [(k, v)]"
  by (induction st) auto

lemma store_insert_twice: "store_insert k v (store_insert k v st) = store_insert k v st"
  by (induction st) auto

lemma store_insert_keys: "fst ` set (store_insert k v st) = insert k (fst ` set st)"
proof (induction st)
  case Nil
  show ?case by simp
next
  case (Cons a st)
  obtain k' v' where a: "a = (k', v')" by (cases a)
  show ?case using Cons.IH by (cases "k = k'") (auto simp: a)
qed

lemma embed_and_insert_ready:
  "servicesReady svc \<Longrightarrow>
   embed_and_insert svc clk 0 0 text v st = Inr (store_insert (insertKey clk) v st)"
  by (simp add: embed_and_insert_def servicesReady_def insertKey_def Let_def)

lemma add_edge_ready:
  assumes "servicesReady svc" "gup_operation args = add_edge" "gup_edge args = Some e"
  shows "graphUpdate svc clk st args =
           (Inr \<lparr>nodes_affected = 0, edges_affected = 1\<rparr>,
            store_insert (insertKey clk) (edgePayload args e) st)"
  using assms embed_and_insert_ready[OF assms(1), of clk "edgeText e" "edgePayload args e" st]
  by (simp add: graphUpdate_def Let_def servicesReady_def)

lemma add_node_ready:
  assumes "servicesReady svc" "gup_operation args = add_node \<or> gup_operation args = update_node"
    "gup_node args = Some n"
  shows "graphUpdate svc clk st args =
           (Inr \<lparr>nodes_affected = 1, edges_affected = 0\<rparr>,
            store_insert (insertKey clk) (nodePayload args n) st)"
  using assms embed_and_insert_ready[OF assms(1), of clk
      "node_type_name (node_type n) @ '':'' @ node_id n @ '' '' @ properties n"
      "nodePayload args n" st]
  by (auto simp: graphUpdate_def upsertNode_def Let_def servicesReady_def)

lemma insert_again:
  "(k2 = k1 \<longrightarrow> store_insert k2 v (store_insert k1 v st) = store_insert k1 v st) \<and>
   (k2 \<noteq> k1 \<and> k2 \<notin> fst ` set st \<longrightarrow>
      store_insert k2 v (store_insert k1 v st) = store_insert k1 v st @ [(k2, v)] \<and>
      store_insert k2 v (store_insert k1 v st) \<noteq> store_insert k1 v st)"
  by (auto simp: store_insert_twice store_insert_fresh store_insert_keys)

lemma applyOnce_ready:
  assumes "servicesReady svc" "upsertedPayload args = Some p"
  shows "applyOnce svc clk st args = store_insert (insertKey clk) p st \<and>
         (\<exists>r. fst (graphUpdate svc clk st args) = Inr r)"
proof (cases "gup_operation args")
  case add_edge
  with assms(2) obtain e where "gup_edge args = Some e" "p = edgePayload args e"
    by (auto simp: upsertedPayload_def)
  with add_edge_ready[OF assms(1) add_edge] show ?thesis by (simp add: applyOnce_def)
next
  case add_node
  with assms(2) obtain n where "gup_node args = Some n" "p = nodePayload args n"
    by (auto simp: upsertedPayload_def)
  with add_node_ready[OF assms(1)] add_node show ?thesis by (simp add: applyOnce_def)
next
  case update_node
  with assms(2) obtain n where "gup_node args = Some n" "p = nodePayload args n"
    by (auto simp: upsertedPayload_def)
  with add_node_ready[OF assms(1)] update_node show ?thesis by (simp add: applyOnce_def)
qed (use assms(2) in \<open>simp_all add: upsertedPayload_def\<close>)

text \<open>
  Claim C6, as amended. With the services there and not throwing, an \<open>add_node\<close>,
  \<open>update_node\<close> or \<open>add_edge\<close> inserts its payload under the numeric id generated at that
  call. Applying the same update twice gives the store of one application when the two
  generated ids are the same; when the second id is another one, not yet in the store,
  the store holds a second record with the same payload (for an edge: the same source,
  target, type and \<open>edge_id\<close>) and differs from the store of one application.
\<close>

theorem graph_upsert_inserts_under_fresh_id:
  assumes ready: "servicesReady svc" and up: "upsertedPayload args = Some p"
  shows "applyOnce svc clk1 st args = store_insert (insertKey clk1) p st \<and>
         applyTwice svc clk1 clk2 st args
           = store_insert (insertKey clk2) p (store_insert (insertKey clk1) p st) \<and>
         (insertKey clk2 = insertKey clk1 \<longrightarrow>
            applyTwice svc clk1 clk2 st args = applyOnce svc clk1 st args) \<and>
         (insertKey clk2 \<noteq> insertKey clk1 \<and> insertKey clk2 \<notin> fst ` set st \<longrightarrow>
            applyTwice svc clk1 clk2 st args
              = applyOnce svc clk1 st args @ [(insertKey clk2, p)] \<and>
            applyTwice svc clk1 clk2 st args \<noteq> applyOnce svc clk1 st args)"
proof -
  have once: "applyOnce svc clk1 st args = store_insert (insertKey clk1) p st"
    using applyOnce_ready[OF ready up] by blast
  have twice: "applyTwice svc clk1 clk2 st args
           = store_insert (insertKey clk2) p (store_insert (insertKey clk1) p st)"
    unfolding applyTwice_def once using applyOnce_ready[OF ready up] by blast
  show ?thesis
    unfolding twice once using insert_again[of "insertKey clk2" "insertKey clk1" p st]
    by blast
qed

lemma exampleServices_ready: "servicesReady exampleServices"
  by (simp add: servicesReady_def exampleServices_def hasEmbedder_def)

lemma example_keys:
  "insertKey exampleClock = NumKey 1735732800000007"
  "insertKey laterClock = NumKey 1735732800001007"
  by (simp_all add: insertKey_def generateNumericVectorId_def exampleClock_def laterClock_def)

lemma example_upserted:
  "upsertedPayload (graphUpdateParams add_edge None (Some edgeAB))
     = Some (edgePayload (graphUpdateParams add_edge None (Some edgeAB)) edgeAB)"
  "upsertedPayload (graphUpdateParams add_node (Some exampleNode) None)
     = Some (nodePayload (graphUpdateParams add_node (Some exampleNode) None) exampleNode)"
  by (simp_all add: upsertedPayload_def graphUpdateParams_def)

text \<open>
  The amended claim at the edge from A to B: added twice at the same reading of the
  clock the store has one record, added again one millisecond later it has two.
\<close>

theorem graph_upsert_inserts_under_fresh_id_witness:
  "servicesReady exampleServices \<and>
   upsertedPayload (graphUpdateParams add_edge None (Some edgeAB))
     = Some (edgePayload (graphUpdateParams add_edge None (Some edgeAB)) edgeAB) \<and>
   applyOnce exampleServices exampleClock [] (graphUpdateParams add_edge None (Some edgeAB))
     = [(NumKey 1735732800000007, edgePayload (graphUpdateParams add_edge None (Some edgeAB)) edgeAB)] \<and>
   insertKey exampleClock = insertKey exampleClock \<and>
   applyTwice exampleServices exampleClock exampleClock [] (graphUpdateParams add_edge None (Some edgeAB))
     = applyOnce exampleServices exampleClock [] (graphUpdateParams add_edge None (Some edgeAB)) \<and>
   insertKey laterClock \<noteq> insertKey exampleClock \<and>
   insertKey laterClock \<notin> fst ` set ([] :: store) \<and>
   applyTwice exampleServices exampleClock laterClock [] (graphUpdateParams add_edge None (Some edgeAB))
     = [(NumKey 1735732800000007, edgePayload (graphUpdateParams add_edge None (Some edgeAB)) edgeAB),
        (NumKey 1735732800001007, edgePayload (graphUpdateParams add_edge None (Some edgeAB)) edgeAB)]"
proof -
  let ?args = "graphUpdateParams add_edge None (Some edgeAB)"
  let ?p = "edgePayload ?args edgeAB"
  note same = graph_upsert_inserts_under_fresh_id[OF exampleServices_ready example_upserted(1),
      of exampleClock "[]" exampleClock]
  note later = graph_upsert_inserts_under_fresh_id[OF exampleServices_ready example_upserted(1),
      of exampleClock "[]" laterClock]
  have once: "applyOnce exampleServices exampleClock [] ?args = [(NumKey 1735732800000007, ?p)]"
    using same by (simp add: example_keys)
  have s: "applyTwice exampleServices exampleClock exampleClock [] ?args
             = applyOnce exampleServices exampleClock [] ?args"
    using same by blast
  have ne: "insertKey laterClock \<noteq> insertKey exampleClock" by (simp add: example_keys)
  have fr: "insertKey laterClock \<notin> fst ` set ([] :: store)" by simp
  have "applyTwice exampleServices exampleClock laterClock [] ?args
          = applyOnce exampleServices exampleClock [] ?args @ [(insertKey laterClock, ?p)]"
    using later ne fr by blast
  then have l: "applyTwice exampleServices exampleClock laterClock [] ?args
     = [(NumKey 1735732800000007, ?p), (NumKey 1735732800001007, ?p)]"
    by (simp add: once example_keys)
  show ?thesis
    using exampleServices_ready example_upserted(1) once s ne fr l by (intro conjI) simp_all
qed

text \<open>
  Claim C6 as stated fails: the edge from A to B, and the node A, added twice at two
  readings of the clock leave two records with the same payload, a store different from
  the store after one add.
\<close>

theorem graph_upsert_idempotence_counterexample:
  "applyOnce exampleServices exampleClock [] (graphUpdateParams add_edge None (Some edgeAB))
     = [(NumKey 1735732800000007, edgePayload (graphUpdateParams add_edge None (Some edgeAB)) edgeAB)] \<and>
   applyTwice exampleServices exampleClock laterClock [] (graphUpdateParams add_edge None (Some edgeAB))
     = [(NumKey 1735732800000007, edgePayload (graphUpdateParams add_edge None (Some edgeAB)) edgeAB),
        (NumKey 1735732800001007, edgePayload (graphUpdateParams add_edge None (Some edgeAB)) edgeAB)] \<and>
   applyTwice exampleServices exampleClock laterClock [] (graphUpdateParams add_edge None (Some edgeAB))
     \<noteq> applyOnce exampleServices exampleClock [] (graphUpdateParams add_edge None (Some edgeAB)) \<and>
   applyTwice exampleServices exampleClock laterClock []
       (graphUpdateParams add_node (Some exampleNode) None)
     = [(NumKey 1735732800000007,
         nodePayload (graphUpdateParams add_node (Some exampleNode) None) exampleNode),
        (NumKey 1735732800001007,
         nodePayload (graphUpdateParams add_node (Some exampleNode) None) exampleNode)] \<and>
   applyTwice exampleServices exampleClock laterClock []
       (graphUpdateParams add_node (Some exampleNode) None)
     \<noteq> applyOnce exampleServices exampleClock [] (graphUpdateParams add_node (Some exampleNode) None)"
proof -
  have e1: "applyOnce exampleServices clk st (graphUpdateParams add_edge None (Some edgeAB))
              = store_insert (insertKey clk)
                  (edgePayload (graphUpdateParams add_edge None (Some edgeAB)) edgeAB) st" for clk st
    using applyOnce_ready[OF exampleServices_ready example_upserted(1)] by blast
  have n1: "applyOnce exampleServices clk st (graphUpdateParams add_node (Some exampleNode) None)
              = store_insert (insertKey clk)
                  (nodePayload (graphUpdateParams add_node (Some exampleNode) None) exampleNode) st"
    for clk st
    using applyOnce_ready[OF exampleServices_ready example_upserted(2)] by blast
  show ?thesis
    by (simp add: applyTwice_def e1 n1 example_keys)
qed

section \<open>Branch creation\<close>

lemma branchCreate_ready:
  assumes "servicesReady svc" "bmp_operation args = op_create" "bmp_git_branch args = Some g" "g \<noteq> []"
  shows "branchManage svc clk now_ms st args =
           (Created (newBranch clk g (baseOf args)),
            store_insert (insertKey clk) (branchRecord clk args g) st)"
  using assms embed_and_insert_ready[OF assms(1), of clk
      "branchSearchText g (baseOf args) (bmp_project_path args)" "branchRecord clk args g" st]
  by (simp add: branchManage_def branchCreate_def Let_def servicesReady_def baseOf_def
      branchRecord_def)

lemma embed_and_insert_outcome:
  "(case embed_and_insert svc clk c i text v st of Inl e \<Rightarrow> f e | Inr st' \<Rightarrow> a) =
   (case embed_and_insert svc clk c i text v st0 of Inl e \<Rightarrow> f e | Inr st' \<Rightarrow> a)"
  by (simp add: embed_and_insert_def Let_def split: option.splits)

lemma branchCreate_reply_ignores_store:
  "fst (branchCreate svc clk hs st args) = fst (branchCreate svc clk hs [] args)"
proof (cases "bmp_git_branch args")
  case None
  then show ?thesis by (simp add: branchCreate_def)
next
  case (Some g)
  show ?thesis
  proof (cases "g \<noteq> [] \<and> hs \<and> hasEmbedder svc")
    case False
    with Some show ?thesis by (auto simp: branchCreate_def Let_def)
  next
    case True
    let ?text = "branchSearchText g (baseOf args) (bmp_project_path args)"
    let ?b = "newBranch clk g (baseOf args)"
    have "fst (branchCreate svc clk hs s args) =
            (case embed_and_insert svc clk 0 0 ?text (branchRecord clk args g) s of
               Inl e \<Rightarrow> BranchFailure e | Inr st' \<Rightarrow> Created ?b)" for s
      using Some True
      by (simp add: branchCreate_def Let_def baseOf_def branchRecord_def split: sum.splits)
    then show ?thesis using embed_and_insert_outcome by metis
  qed
qed

lemma branchManage_create_reply_ignores_store:
  assumes "bmp_operation args = op_create"
  shows "fst (branchManage svc clk now_ms st args) = fst (branchManage svc clk now_ms [] args)"
proof (cases "vectorStoreManager svc")
  case None
  with assms show ?thesis
    using branchCreate_reply_ignores_store by (simp add: branchManage_def Let_def)
next
  case (Some got)
  with assms show ?thesis
    using branchCreate_reply_ignores_store by (cases got) (simp_all add: branchManage_def Let_def)
qed

text \<open>
  Claim C9, as amended. With the services there and not throwing, \<open>create\<close> with a git
  branch name replies with the new branch and inserts its record, whatever the store
  holds: the reply is the reply to the same call on an empty store, and when the store
  already holds a branch record of the project for this git branch, the new record is
  added beside it.
\<close>

theorem branch_create_does_not_check:
  assumes ready: "servicesReady svc"
    and cr: "bmp_operation args = op_create"
    and g: "bmp_git_branch args = Some g" "g \<noteq> []"
  shows "branchManage svc clk now_ms st args =
           (Created (newBranch clk g (baseOf args)),
            store_insert (insertKey clk) (branchRecord clk args g) st) \<and>
         branch_git_branch (newBranch clk g (baseOf args)) = g \<and>
         fst (branchManage svc clk now_ms st args) = fst (branchManage svc clk now_ms [] args) \<and>
         (hasBranch st (bmp_project_path args) g \<and> insertKey clk \<notin> fst ` set st \<longrightarrow>
            snd (branchManage svc clk now_ms st args) = st @ [(insertKey clk, branchRecord clk args g)])"
proof -
  have m: "branchManage svc clk now_ms st args =
           (Created (newBranch clk g (baseOf args)),
            store_insert (insertKey clk) (branchRecord clk args g) st)"
    by (rule branchCreate_ready[OF ready cr g])
  have n: "branch_git_branch (newBranch clk g (baseOf args)) = g"
    by (simp add: newBranch_def)
  have i: "fst (branchManage svc clk now_ms st args) = fst (branchManage svc clk now_ms [] args)"
    by (rule branchManage_create_reply_ignores_store[OF cr])
  have a: "snd (branchManage svc clk now_ms st args) = st @ [(insertKey clk, branchRecord clk args g)]"
    if "insertKey clk \<notin> fst ` set st"
    using that by (simp add: m store_insert_fresh)
  show ?thesis using m n i a by blast
qed

lemma example_branch_facts:
  "bmp_operation (branchParams op_create (Some ''feature/x'')) = op_create"
  "bmp_git_branch (branchParams op_create (Some ''feature/x'')) = Some ''feature/x''"
  "bmp_project_path (branchParams op_create (Some ''feature/x'')) = ''/p''"
  "hasBranch branchStore ''/p'' ''feature/x''"
  "insertKey exampleClock \<notin> fst ` set branchStore"
  by (simp_all add: branchParams_def hasBranch_def branchStore_def existingBranch_def example_keys)

text \<open>
  The amended claim at a store that holds a branch for \<open>feature/x\<close> of the project \<open>/p\<close>.
\<close>

theorem branch_create_does_not_check_witness:
  "servicesReady exampleServices \<and>
   bmp_operation (branchParams op_create (Some ''feature/x'')) = op_create \<and>
   bmp_git_branch (branchParams op_create (Some ''feature/x'')) = Some ''feature/x'' \<and>
   ''feature/x'' \<noteq> [] \<and>
   hasBranch branchStore (bmp_project_path (branchParams op_create (Some ''feature/x''))) ''feature/x'' \<and>
   insertKey exampleClock \<notin> fst ` set branchStore \<and>
   branchManage exampleServices exampleClock ''1735732800000'' branchStore
       (branchParams op_create (Some ''feature/x''))
     = (Created (newBranch exampleClock ''feature/x'' ''main''),
        branchStore @
          [(NumKey 1735732800000007,
            branchRecord exampleClock (branchParams op_create (Some ''feature/x'')) ''feature/x'')])"
proof -
  let ?args = "branchParams op_create (Some ''feature/x'')"
  have ne: "''feature/x'' \<noteq> []" by simp
  note t = branch_create_does_not_check[OF exampleServices_ready example_branch_facts(1,2) ne,
      of exampleClock "''1735732800000''" branchStore]
  have b: "baseOf ?args = ''main''" by (simp add: baseOf_def branchParams_def)
  have h: "hasBranch branchStore (bmp_project_path ?args) ''feature/x''"
    by (simp add: example_branch_facts)
  have "snd (branchManage exampleServices exampleClock ''1735732800000'' branchStore ?args)
          = branchStore @ [(insertKey exampleClock, branchRecord exampleClock ?args ''feature/x'')]"
    using t h example_branch_facts(5) by blast
  moreover have "fst (branchManage exampleServices exampleClock ''1735732800000'' branchStore ?args)
          = Created (newBranch exampleClock ''feature/x'' ''main'')"
    using t by (simp add: b)
  ultimately have r: "branchManage exampleServices exampleClock ''1735732800000'' branchStore ?args
     = (Created (newBranch exampleClock ''feature/x'' ''main''),
        branchStore @ [(NumKey 1735732800000007, branchRecord exampleClock ?args ''feature/x'')])"
    by (simp add: prod_eq_iff example_keys)
  show ?thesis
    using exampleServices_ready example_branch_facts(1,2,5) ne h r by (intro conjI)
qed

text \<open>
  Claim C9 as stated fails: \<open>create\<close> for \<open>feature/x\<close>, while the store holds a branch of
  the same project for \<open>feature/x\<close>, replies with a success and leaves two branch records
  for that git branch.
\<close>

theorem branch_create_conflict_counterexample:
  "hasBranch branchStore ''/p'' ''feature/x'' \<and>
   branchManage exampleServices exampleClock ''1735732800000'' branchStore
       (branchParams op_create (Some ''feature/x''))
     = (Created (newBranch exampleClock ''feature/x'' ''main''),
        branchStore @
          [(NumKey 1735732800000007,
            branchRecord exampleClock (branchParams op_create (Some ''feature/x'')) ''feature/x'')]) \<and>
   length (filter (\<lambda>(k, p). case p of
                     BranchP bp \<Rightarrow> bp_project_path bp = ''/p'' \<and>
                                  branch_git_branch (bp_branch bp) = ''feature/x''
                   | _ \<Rightarrow> False)
             (snd (branchManage exampleServices exampleClock ''1735732800000'' branchStore
                     (branchParams op_create (Some ''feature/x''))))) = 2"
proof -
  let ?args = "branchParams op_create (Some ''feature/x'')"
  have ne: "''feature/x'' \<noteq> []" by simp
  have b: "baseOf ?args = ''main''" by (simp add: baseOf_def branchParams_def)
  have "branchManage exampleServices exampleClock ''1735732800000'' branchStore ?args
     = (Created (newBranch exampleClock ''feature/x'' (baseOf ?args)),
        store_insert (insertKey exampleClock) (branchRecord exampleClock ?args ''feature/x'') branchStore)"
    by (rule branchCreate_ready[OF exampleServices_ready example_branch_facts(1,2) ne])
  then have r: "branchManage exampleServices exampleClock ''1735732800000'' branchStore ?args
     = (Created (newBranch exampleClock ''feature/x'' ''main''),
        branchStore @ [(NumKey 1735732800000007, branchRecord exampleClock ?args ''feature/x'')])"
    using store_insert_fresh[OF example_branch_facts(5)] by (simp add: b example_keys)
  have c: "length (filter (\<lambda>(k, p). case p of
                     BranchP bp \<Rightarrow> bp_project_path bp = ''/p'' \<and>
                                  branch_git_branch (bp_branch bp) = ''feature/x''
                   | _ \<Rightarrow> False)
             (branchStore @ [(NumKey 1735732800000007, branchRecord exampleClock ?args ''feature/x'')])) = 2"
    by (simp add: branchStore_def existingBranch_def branchRecord_def branchParams_def newBranch_def)
  show ?thesis using example_branch_facts(4) r c by simp
qed

end
